(* ===== verification/Prelude.thy ===== *)
theory Prelude
  imports Complex_Main
begin

text \<open>
  Shared vocabulary of the development: the exception classes that the Python package raises
  or catches, results that are either an exception or a value, programs that thread a state,
  and insertion-ordered dictionaries (Python's \<^verbatim>\<open>dict\<close>) as association lists.
  The dictionary operations are described once by the locale \<open>ordered_dict\<close>; the
  association lists are its interpretation, and the components use the facts of that
  interpretation.
\<close>

named_theorems prog_simps \<open>unfolding rules of the result and state-passing combinators\<close>
named_theorems dict_simps \<open>rewrite rules of the dictionary operations\<close>

section \<open>Exceptions and results\<close>

text \<open>
  One constructor per exception class that code under \<^verbatim>\<open>src/python/msp\<close> raises, catches or lets
  escape. Messages are not modelled, except where the code itself stores them.
\<close>

datatype py_error =
    ValueError
  | KeyError
  | TypeError
  | RuntimeError
  | OverflowError
  | ZeroDivisionError
  | IndexError
  | OSError
  | FileNotFoundError
  | UnicodeDecodeError
  | AdapterBudgetError
  | AttributeError
  | AssertionError
  | KeyboardInterrupt

text \<open>The class hierarchy, as far as an \<^verbatim>\<open>except\<close> clause of the source depends on it.\<close>

fun is_value_error :: "py_error \<Rightarrow> bool" where
  "is_value_error ValueError = True"
| "is_value_error UnicodeDecodeError = True"
| "is_value_error _ = False"

fun is_os_error :: "py_error \<Rightarrow> bool" where
  "is_os_error OSError = True"
| "is_os_error FileNotFoundError = True"
| "is_os_error _ = False"

fun is_exception :: "py_error \<Rightarrow> bool" where
  "is_exception KeyboardInterrupt = False"
| "is_exception _ = True"

type_synonym 'a result = "py_error + 'a"

definition rbind :: "'a result \<Rightarrow> ('a \<Rightarrow> 'b result) \<Rightarrow> 'b result" where
  "rbind m f = (case m of Inl e \<Rightarrow> Inl e | Inr a \<Rightarrow> f a)"

lemma rbind_simps [simp]:
  "rbind (Inl e) f = Inl e"
  "rbind (Inr a) f = f a"
  by (simp_all add: rbind_def)

lemma rbind_Inr_iff: "rbind m f = Inr b \<longleftrightarrow> (\<exists>a. m = Inr a \<and> f a = Inr b)"
  by (cases m) simp_all

lemma rbind_Inl_iff: "rbind m f = Inl e \<longleftrightarrow> m = Inl e \<or> (\<exists>a. m = Inr a \<and> f a = Inl e)"
  by (cases m) simp_all

section \<open>Programs over a state\<close>

text \<open>
  A program takes the state and returns an exception or a value together with the state it
  left behind: a raised exception does not undo what was already written.
\<close>

type_synonym ('s, 'a) prog = "'s \<Rightarrow> 'a result \<times> 's"

definition sret :: "'a \<Rightarrow> ('s, 'a) prog" where
  "sret a = (\<lambda>s. (Inr a, s))"

definition sraise :: "py_error \<Rightarrow> ('s, 'a) prog" where
  "sraise e = (\<lambda>s. (Inl e, s))"

definition sbind :: "('s, 'a) prog \<Rightarrow> ('a \<Rightarrow> ('s, 'b) prog) \<Rightarrow> ('s, 'b) prog" where
  "sbind m f = (\<lambda>s. case m s of (Inl e, s') \<Rightarrow> (Inl e, s') | (Inr a, s') \<Rightarrow> f a s')"

definition supd :: "('s \<Rightarrow> 's) \<Rightarrow> ('s, unit) prog" where
  "supd f = (\<lambda>s. (Inr (), f s))"

lemma sret_apply [prog_simps]: "sret a s = (Inr a, s)"
  by (simp add: sret_def)

lemma sraise_apply [prog_simps]: "sraise e s = (Inl e, s)"
  by (simp add: sraise_def)

lemma supd_apply [prog_simps]: "supd f s = (Inr (), f s)"
  by (simp add: supd_def)

lemma sbind_apply [prog_simps]:
  "sbind m f s = (case m s of (Inl e, s') \<Rightarrow> (Inl e, s') | (Inr a, s') \<Rightarrow> f a s')"
  by (simp add: sbind_def)

lemma sbind_sret_left [simp]: "sbind (sret a) f = f a"
  by (rule ext) (simp add: sbind_def sret_def)

lemma sbind_sret_right [simp]: "sbind m sret = m"
  by (rule ext) (simp add: sbind_def sret_def split: prod.split sum.split)

lemma sbind_assoc: "sbind (sbind m f) g = sbind m (\<lambda>a. sbind (f a) g)"
  by (rule ext) (simp add: sbind_def split: prod.split sum.split)

lemma sbind_Inr_iff:
  "sbind m f s = (Inr b, t) \<longleftrightarrow> (\<exists>a s'. m s = (Inr a, s') \<and> f a s' = (Inr b, t))"
  by (auto simp: sbind_def split: prod.splits sum.splits)

text \<open>A loop \<^verbatim>\<open>for x in xs: body\<close>: the first exception ends it.\<close>

primrec sfor :: "'a list \<Rightarrow> ('a \<Rightarrow> ('s, unit) prog) \<Rightarrow> ('s, unit) prog" where
  "sfor [] body = sret ()"
| "sfor (x # xs) body = sbind (body x) (\<lambda>_. sfor xs body)"

lemma sfor_append: "sfor (xs @ ys) body = sbind (sfor xs body) (\<lambda>_. sfor ys body)"
  by (induction xs) (simp_all add: sbind_assoc)

text \<open>An invariant that each round of the loop keeps, whether or not it raises.\<close>

lemma sfor_invariant:
  assumes "P s" and "\<And>x s. x \<in> set xs \<Longrightarrow> P s \<Longrightarrow> P (snd (body x s))"
  shows "P (snd (sfor xs body s))"
  using assms
proof (induction xs arbitrary: s)
  case (Cons x xs)
  have "P (snd (body x s))" using Cons.prems by simp
  then show ?case using Cons.IH Cons.prems(2)
    by (auto simp: sbind_apply split: prod.splits sum.splits)
qed (simp add: sret_def)

section \<open>Insertion-ordered dictionaries\<close>

type_synonym ('k, 'v) dict = "('k \<times> 'v) list"

definition dict_get :: "('k, 'v) dict \<Rightarrow> 'k \<Rightarrow> 'v option" where
  "dict_get d k = map_of d k"

fun dict_set :: "('k, 'v) dict \<Rightarrow> 'k \<Rightarrow> 'v \<Rightarrow> ('k, 'v) dict" where
  "dict_set [] k v = [(k, v)]"
| "dict_set ((k', v') # d) k v = (if k' = k then (k', v) # d else (k', v') # dict_set d k v)"

definition dict_del :: "('k, 'v) dict \<Rightarrow> 'k \<Rightarrow> ('k, 'v) dict" where
  "dict_del d k = filter (\<lambda>(k', v). k' \<noteq> k) d"

definition dict_keys :: "('k, 'v) dict \<Rightarrow> 'k list" where
  "dict_keys d = map fst d"

definition dict_values :: "('k, 'v) dict \<Rightarrow> 'v list" where
  "dict_values d = map snd d"

definition dict_ok :: "('k, 'v) dict \<Rightarrow> bool" where
  "dict_ok d \<longleftrightarrow> distinct (map fst d)"

text \<open>What the components rely on: lookups, the order of the items, and distinct keys.\<close>

locale ordered_dict =
  fixes get :: "'d \<Rightarrow> 'k \<Rightarrow> 'v option"
    and set_item :: "'d \<Rightarrow> 'k \<Rightarrow> 'v \<Rightarrow> 'd"
    and del :: "'d \<Rightarrow> 'k \<Rightarrow> 'd"
    and items :: "'d \<Rightarrow> ('k \<times> 'v) list"
    and ok :: "'d \<Rightarrow> bool"
  assumes get_items: "get d k = map_of (items d) k"
    and ok_items: "ok d \<Longrightarrow> distinct (map fst (items d))"
    and get_set: "get (set_item d k v) k' = (if k' = k then Some v else get d k')"
    and set_fresh: "get d k = None \<Longrightarrow> items (set_item d k v) = items d @ [(k, v)]"
    and ok_set: "ok d \<Longrightarrow> ok (set_item d k v)"
    and items_del: "items (del d k) = filter (\<lambda>(k', v). k' \<noteq> k) (items d)"
    and ok_del: "ok d \<Longrightarrow> ok (del d k)"
begin

lemma get_del: "get (del d k) k' = (if k' = k then None else get d k')"
proof -
  have "map_of (filter (\<lambda>(k', v). k' \<noteq> k) xs) k' = (if k' = k then None else map_of xs k')"
    for xs :: "('k \<times> 'v) list"
    by (induction xs) auto
  then show ?thesis by (simp add: get_items items_del)
qed

lemma get_Some_iff: "ok d \<Longrightarrow> get d k = Some v \<longleftrightarrow> (k, v) \<in> set (items d)"
  by (simp add: get_items ok_items)

lemma get_None_iff: "get d k = None \<longleftrightarrow> k \<notin> fst ` set (items d)"
  by (simp add: get_items map_of_eq_None_iff)

text \<open>Summing a measure of the values: what a fresh item adds and a deletion removes.\<close>

lemma total_set_fresh:
  fixes f :: "'v \<Rightarrow> int"
  assumes "get d k = None"
  shows "(\<Sum>(k, v)\<leftarrow>items (set_item d k v). f v) = (\<Sum>(k, v)\<leftarrow>items d. f v) + f v"
  using assms by (simp add: set_fresh)

lemma total_del:
  fixes f :: "'v \<Rightarrow> int"
  assumes "ok d" and "get d k = Some v"
  shows "(\<Sum>(k, v)\<leftarrow>items (del d k). f v) = (\<Sum>(k, v)\<leftarrow>items d. f v) - f v"
proof -
  have *: "(\<Sum>(k, v)\<leftarrow>filter (\<lambda>(k', v). k' \<noteq> k) xs. f v) = (\<Sum>(k, v)\<leftarrow>xs. f v) - f v"
    if "distinct (map fst xs)" "map_of xs k = Some v" for xs :: "('k \<times> 'v) list"
    using that
  proof (induction xs)
    case (Cons x xs)
    obtain k1 v1 where x: "x = (k1, v1)" by (cases x)
    show ?case
    proof (cases "k1 = k")
      case True
      then have "filter (\<lambda>(k', v). k' \<noteq> k) xs = xs"
        using Cons.prems x by (force intro: filter_True)
      with True Cons.prems x show ?thesis by simp
    next
      case False
      with Cons x show ?thesis by simp
    qed
  qed simp
  show ?thesis
    using * assms by (simp add: items_del ok_items get_items)
qed

lemma del_absent: "get d k = None \<Longrightarrow> items (del d k) = items d"
  unfolding items_del get_None_iff by (rule filter_True) force

lemma del_set_fresh: "get d k = None \<Longrightarrow> items (del (set_item d k v) k) = items d"
  using del_absent by (simp add: items_del set_fresh)

lemma keys_del: "map fst (items (del d k)) = filter (\<lambda>k'. k' \<noteq> k) (map fst (items d))"
  unfolding items_del filter_map by (rule arg_cong [where f = "map fst"], rule filter_cong) auto

end

lemma map_of_dict_set: "map_of (dict_set d k v) k' = (if k' = k then Some v else map_of d k')"
  by (induction d k v rule: dict_set.induct) auto

lemma dict_set_fresh: "map_of d k = None \<Longrightarrow> dict_set d k v = d @ [(k, v)]"
  by (induction d k v rule: dict_set.induct) (auto split: if_splits)

lemma fst_dict_set: "fst ` set (dict_set d k v) = insert k (fst ` set d)"
  by (induction d k v rule: dict_set.induct) (auto simp: image_iff)

lemma distinct_dict_set: "distinct (map fst d) \<Longrightarrow> distinct (map fst (dict_set d k v))"
  by (induction d k v rule: dict_set.induct) (auto simp: fst_dict_set)

lemma distinct_map_filter_fst: "distinct (map f xs) \<Longrightarrow> distinct (map f (filter P xs))"
  by (induction xs) auto

interpretation py_dict: ordered_dict dict_get dict_set dict_del "\<lambda>d. d" dict_ok
  by unfold_locales
    (auto simp: dict_get_def dict_ok_def dict_del_def map_of_dict_set dict_set_fresh
      distinct_dict_set distinct_map_filter_fst)

lemma dict_ok_Nil [simp, dict_simps]: "dict_ok []"
  by (simp add: dict_ok_def)

lemma dict_get_Nil [simp, dict_simps]: "dict_get [] k = None"
  by (simp add: dict_get_def)

lemmas dict_laws [dict_simps] =
  py_dict.get_set py_dict.get_del py_dict.ok_set py_dict.ok_del

lemma dict_keys_get: "k \<in> set (dict_keys d) \<longleftrightarrow> dict_get d k \<noteq> None"
  by (auto simp: dict_keys_def py_dict.get_None_iff)

end
