(* ===== verification/Floats.thy ===== *)
theory Floats
  imports Prelude
begin

text \<open>
  Python's \<^verbatim>\<open>float\<close>: IEEE 754 binary64 with round-to-nearest, ties to even. A finite float is
  represented by its exact rational value, so that arithmetic is rational arithmetic followed by
  one rounding. The two zeros are identified: no operation of the source tells them apart
  (division by either raises). The operations are the ones the package uses: true division,
  multiplication, addition, the ordering comparisons, \<^verbatim>\<open>round\<close>, \<^verbatim>\<open>int\<close>, \<^verbatim>\<open>max\<close> and \<^verbatim>\<open>sum\<close>.
  The main fact, \<open>fdiv_fmul_fdiv\<close>, is about dividing by a small integer, multiplying the
  quotient by it again and dividing once more, which is what the persistence layer does.
\<close>

section \<open>Rounding\<close>

fun bit_length :: "nat \<Rightarrow> nat" where
  "bit_length n = (if n = 0 then 0 else Suc (bit_length (n div 2)))"

declare bit_length.simps [simp del]

lemma bit_length_bounds: "0 < n \<Longrightarrow> 2 ^ (bit_length n - 1) \<le> n \<and> n < 2 ^ bit_length n \<and> 0 < bit_length n"
proof (induction n rule: bit_length.induct)
  case (1 n)
  show ?case
  proof (cases "n = 1")
    case True
    then show ?thesis by (simp add: bit_length.simps)
  next
    case False
    with "1.prems" have "0 < n div 2" by auto
    with "1.IH" "1.prems" have IH: "2 ^ (bit_length (n div 2) - 1) \<le> n div 2"
      "n div 2 < 2 ^ bit_length (n div 2)" "0 < bit_length (n div 2)" by auto
    have eq: "bit_length n = Suc (bit_length (n div 2))"
      using "1.prems" by (subst bit_length.simps) simp
    from IH(3) obtain k where k: "bit_length (n div 2) = Suc k" by (cases "bit_length (n div 2)") auto
    show ?thesis using IH by (auto simp: eq k)
  qed
qed

text \<open>Floor of the binary logarithm of a positive rational.\<close>

definition log2_floor :: "rat \<Rightarrow> int" where
  "log2_floor x =
     (if 1 \<le> x then int (bit_length (nat \<lfloor>x\<rfloor>)) - 1
      else - int (bit_length (nat (\<lceil>1 / x\<rceil> - 1))))"

lemma log2_floor_bounds:
  assumes "0 < x"
  shows "2 powi log2_floor x \<le> x \<and> x < 2 powi (log2_floor x + 1)"
proof (cases "1 \<le> x")
  case True
  define n where "n = nat \<lfloor>x\<rfloor>"
  from True have n: "0 < n" "of_nat n \<le> x" "x < of_nat n + 1"
    by (auto simp: n_def le_floor_iff) (linarith+)
  from bit_length_bounds [OF n(1)]
  obtain k where k: "bit_length n = Suc k" and b: "2 ^ k \<le> n" "n < 2 ^ Suc k"
    by (cases "bit_length n") auto
  from b(1) have "(2::rat) ^ k \<le> of_nat n"
    by (metis of_nat_le_iff of_nat_numeral of_nat_power)
  moreover from b(2) have "Suc n \<le> 2 ^ Suc k" by simp
  then have "(of_nat (Suc n) :: rat) \<le> 2 ^ Suc k"
    by (metis of_nat_le_iff of_nat_numeral of_nat_power)
  then have "(of_nat n :: rat) + 1 \<le> 2 ^ Suc k" by simp
  ultimately have "2 ^ k \<le> x" "x < 2 ^ Suc k" using n(2,3) by linarith+
  moreover have "log2_floor x = int k"
    using True k by (simp add: log2_floor_def n_def)
  moreover have "(2::rat) powi (int k + 1) = 2 ^ Suc k"
    by (metis of_nat_Suc add.commute power_int_of_nat)
  ultimately show ?thesis by simp
next
  case False
  define c where "c = \<lceil>1 / x\<rceil>"
  from False assms have "1 < 1 / x" by simp
  then have c: "2 \<le> c" "1 / x \<le> of_int c" "of_int (c - 1) < 1 / x"
    unfolding c_def by linarith+
  define n where "n = nat (c - 1)"
  from c have n: "0 < n" "int n = c - 1" by (auto simp: n_def)
  from bit_length_bounds [OF n(1)]
  obtain k where k: "bit_length n = Suc k" and b: "2 ^ k \<le> n" "n < 2 ^ Suc k"
    by (cases "bit_length n") auto
  from b(1) have "(2::rat) ^ k \<le> of_nat n"
    by (metis of_nat_le_iff of_nat_numeral of_nat_power)
  moreover from b(2) have "Suc n \<le> 2 ^ Suc k" by simp
  then have "(of_nat (Suc n) :: rat) \<le> 2 ^ Suc k"
    by (metis of_nat_le_iff of_nat_numeral of_nat_power)
  moreover have "(of_nat n :: rat) = of_int (c - 1)" using n(2) by (metis of_int_of_nat_eq)
  ultimately have "2 ^ k < 1 / x" "1 / x \<le> 2 ^ Suc k" using c by auto
  with assms have "x < 1 / 2 ^ k" "1 / 2 ^ Suc k \<le> x"
    by (auto simp: field_simps)
  moreover have "log2_floor x = - int (Suc k)"
    using False k by (simp add: log2_floor_def n_def c_def)
  moreover have "(2::rat) powi (- int (Suc k)) = 1 / 2 ^ Suc k"
    by (simp only: power_int_minus power_int_of_nat inverse_eq_divide)
  moreover have "- int (Suc k) + 1 = - int k" by simp
  then have "(2::rat) powi (- int (Suc k) + 1) = 1 / 2 ^ k"
    by (simp only: power_int_minus power_int_of_nat inverse_eq_divide)
  ultimately show ?thesis by simp
qed

lemma powi_mono_2: "m \<le> n \<Longrightarrow> (2::rat) powi m \<le> 2 powi n"
  by (simp add: power_int_increasing)

lemma powi_less_2D: "(2::rat) powi m < 2 powi n \<Longrightarrow> m < n"
  by (meson linorder_not_less powi_mono_2)

lemma log2_floor_unique:
  assumes "2 powi e \<le> x" and "x < 2 powi (e + 1)"
  shows "log2_floor x = e"
proof -
  have "0 < x" using assms(1) by (rule less_le_trans [rotated]) simp
  from log2_floor_bounds [OF this] assms
  have "2 powi e < (2::rat) powi (log2_floor x + 1)" "(2::rat) powi log2_floor x < 2 powi (e + 1)"
    by linarith+
  then show ?thesis by (auto dest!: powi_less_2D)
qed

text \<open>Round half to even, on rationals.\<close>

definition round_half_even :: "rat \<Rightarrow> int" where
  "round_half_even x =
     (let f = \<lfloor>x\<rfloor>; d = x - of_int f
      in if d < 1 / 2 then f
         else if 1 / 2 < d then f + 1
         else if even f then f else f + 1)"

lemma round_half_even_of_int [simp]: "round_half_even (of_int k) = k"
  by (simp add: round_half_even_def)

lemma round_half_even_near: "\<bar>x - of_int (round_half_even x)\<bar> \<le> 1 / 2"
proof -
  have "0 \<le> x - of_int \<lfloor>x\<rfloor>" "x - of_int \<lfloor>x\<rfloor> < 1" by linarith+
  then show ?thesis by (auto simp: round_half_even_def Let_def)
qed

lemma round_half_even_tie:
  "\<bar>x - of_int (round_half_even x)\<bar> = 1 / 2 \<Longrightarrow> even (round_half_even x)"
proof -
  have "0 \<le> x - of_int \<lfloor>x\<rfloor>" "x - of_int \<lfloor>x\<rfloor> < 1" by linarith+
  then show "\<bar>x - of_int (round_half_even x)\<bar> = 1 / 2 \<Longrightarrow> even (round_half_even x)"
    by (auto simp: round_half_even_def Let_def split: if_splits)
qed

lemma round_half_even_unique:
  assumes "\<bar>x - of_int k\<bar> \<le> 1 / 2" and "\<bar>x - of_int k\<bar> = 1 / 2 \<Longrightarrow> even k"
  shows "round_half_even x = k"
proof -
  define f where "f = \<lfloor>x\<rfloor>"
  have f: "of_int f \<le> x" "x < of_int f + 1" unfolding f_def by linarith+
  have "k = f \<or> k = f + 1"
  proof -
    have "of_int k \<le> x + 1/2" "x - 1/2 \<le> of_int k" using assms(1) by linarith+
    with f have "(of_int k :: rat) < of_int f + 2" "(of_int f :: rat) - 1 < of_int k" by linarith+
    then have "k < f + 2" "f - 1 < k" by linarith+
    then show ?thesis by linarith
  qed
  then show ?thesis
  proof
    assume k: "k = f"
    then have "x - of_int f \<le> 1/2" using assms(1) unfolding k by linarith
    moreover have "x - of_int f = 1/2 \<Longrightarrow> even f" using assms(2) k by simp
    ultimately show ?thesis by (auto simp: round_half_even_def Let_def k simp flip: f_def)
  next
    assume k: "k = f + 1"
    then have "1/2 \<le> x - of_int f" using assms(1) unfolding k of_int_add of_int_1 by linarith
    moreover have "x - of_int f = 1/2 \<Longrightarrow> even (f + 1)" using assms(2) k by simp
    ultimately show ?thesis by (auto simp: round_half_even_def Let_def k simp flip: f_def)
  qed
qed

text \<open>A number at least as close to \<open>k\<close> as one that rounds to \<open>k\<close> rounds to \<open>k\<close> too.\<close>

lemma round_half_even_closer:
  assumes "round_half_even y = k" and "\<bar>x - of_int k\<bar> \<le> \<bar>y - of_int k\<bar>"
  shows "round_half_even x = k"
proof (rule round_half_even_unique)
  show "\<bar>x - of_int k\<bar> \<le> 1 / 2" using round_half_even_near [of y] assms by simp
  assume "\<bar>x - of_int k\<bar> = 1 / 2"
  then show "even k" using round_half_even_near [of y] round_half_even_tie [of y] assms by simp
qed

lemma round_half_even_nearest: "\<bar>x - of_int (round_half_even x)\<bar> \<le> \<bar>x - of_int j\<bar>"
proof (cases "round_half_even x = j")
  case False
  define k where "k = round_half_even x"
  from False have "1 \<le> \<bar>k - j\<bar>" by (simp add: k_def)
  then have "(1::rat) \<le> \<bar>of_int k - of_int j\<bar>" by (metis of_int_1_le_iff of_int_abs of_int_diff)
  with round_half_even_near [of x] show ?thesis unfolding k_def [symmetric] by linarith
qed simp

lemma round_half_even_mono:
  assumes "x \<le> y" shows "round_half_even x \<le> round_half_even y"
proof (rule ccontr)
  assume "\<not> ?thesis"
  then have "round_half_even y + 1 \<le> round_half_even x" by simp
  then have le: "(of_int (round_half_even y) :: rat) + 1 \<le> of_int (round_half_even x)"
    by (metis of_int_1 of_int_add of_int_le_iff)
  have "of_int (round_half_even x) \<le> x + 1/2" "y - 1/2 \<le> of_int (round_half_even y)"
    using round_half_even_near [of x] round_half_even_near [of y] by linarith+
  with le assms have "x = y" by linarith
  with \<open>\<not> ?thesis\<close> show False by simp
qed

lemma round_half_even_minus [simp]: "round_half_even (- x) = - round_half_even x"
  by (rule round_half_even_unique)
    (use round_half_even_near [of x] round_half_even_tie [of x] in \<open>auto simp: abs_le_iff abs_if split: if_splits\<close>)


definition ulp_exp :: "rat \<Rightarrow> int" where
  "ulp_exp x = max (-1074) (log2_floor \<bar>x\<bar> - 52)"

definition round53 :: "rat \<Rightarrow> rat" where
  "round53 x =
     (if x = 0 then 0
      else let u = 2 powi ulp_exp x in of_int (round_half_even (x / u)) * u)"

definition dyadic53 :: "rat \<Rightarrow> bool" where
  "dyadic53 y \<longleftrightarrow> (\<exists>m e. y = of_int m * 2 powi e \<and> \<bar>m\<bar> \<le> 2 ^ 53 \<and> -1074 \<le> e)"

lemma round53_0 [simp]: "round53 0 = 0"
  by (simp add: round53_def)

lemma powi2_split: "(2::rat) powi (m + n) = 2 powi m * 2 powi n"
  by (simp add: power_int_add)

lemma powi2_multiple:
  assumes "e \<le> f" shows "of_int m * (2::rat) powi f = of_int (m * 2 ^ nat (f - e)) * 2 powi e"
proof -
  have "(2::rat) powi f = 2 powi (f - e) * 2 powi e" by (simp add: powi2_split [symmetric])
  also have "(2::rat) powi (f - e) = of_int (2 ^ nat (f - e))"
    using assms by (simp add: power_int_nonneg_exp)
  finally show ?thesis by simp
qed

lemma ulp_exp_le:
  assumes "x \<noteq> 0" and "\<bar>x\<bar> < 2 powi (53 + e)" and "-1074 \<le> e"
  shows "ulp_exp x \<le> e"
proof -
  have "2 powi log2_floor \<bar>x\<bar> \<le> \<bar>x\<bar>" using log2_floor_bounds [of "\<bar>x\<bar>"] assms(1) by simp
  then have "(2::rat) powi log2_floor \<bar>x\<bar> < 2 powi (53 + e)" using assms(2) by linarith
  then have "log2_floor \<bar>x\<bar> < 53 + e" by (rule powi_less_2D)
  then show ?thesis using assms(3) by (simp add: ulp_exp_def)
qed

lemma round53_multiple:
  assumes "x \<noteq> 0" and "x = of_int j * 2 powi ulp_exp x"
  shows "round53 x = x"
proof -
  have "x / 2 powi ulp_exp x = of_int j" by (subst assms(2)) simp
  then show ?thesis using assms by (simp add: round53_def Let_def)
qed

lemma round53_dyadic: "dyadic53 x \<Longrightarrow> round53 x = x"
proof -
  have strict: "round53 x = x"
    if x: "x = of_int m * 2 powi e" and m: "\<bar>m\<bar> < 2 ^ 53" and e: "-1074 \<le> e" for m e x
  proof (cases "x = 0")
    case False
    have "of_int \<bar>m\<bar> < (2 ^ 53 :: rat)" using m by (metis of_int_less_iff of_int_numeral of_int_power)
    then have "\<bar>x\<bar> < 2 ^ 53 * 2 powi e" by (simp add: x abs_mult power_int_abs)
    then have "\<bar>x\<bar> < 2 powi (53 + e)" by (simp add: powi2_split)
    then have "ulp_exp x \<le> e" using False e by (intro ulp_exp_le)
    from trans [OF x powi2_multiple [OF this]] show ?thesis by (rule round53_multiple [OF False])
  qed simp
  assume "dyadic53 x"
  then obtain m e where x: "x = of_int m * 2 powi e" "\<bar>m\<bar> \<le> 2 ^ 53" "-1074 \<le> e"
    by (auto simp: dyadic53_def)
  show ?thesis
  proof (cases "\<bar>m\<bar> < 2 ^ 53")
    case True with strict x show ?thesis by blast
  next
    case False
    with x(2) have "m = sgn m * 2 ^ 53" by (simp add: abs_if sgn_if split: if_splits)
    then have "x = of_int (sgn m * 2 ^ 52) * 2 powi (e + 1)"
      unfolding x(1) by (subst (asm) eq_commute) (simp add: powi2_split sgn_if split: if_splits)
    moreover have "\<bar>sgn m * 2 ^ 52\<bar> < (2::int) ^ 53" by (simp add: abs_mult sgn_if)
    ultimately show ?thesis using x(3) by (intro strict [of _ _ "e + 1"]) auto
  qed
qed


lemma round53_form:
  assumes "x \<noteq> 0"
  obtains k where "round53 x = of_int k * 2 powi ulp_exp x" and "\<bar>k\<bar> \<le> 2 ^ 53"
    and "k = round_half_even (x / 2 powi ulp_exp x)"
    and "\<bar>x\<bar> < 2 ^ 53 * 2 powi ulp_exp x"
    and "-1074 < ulp_exp x \<Longrightarrow> 2 ^ 52 * 2 powi ulp_exp x \<le> \<bar>x\<bar>"
proof
  define u :: rat where "u = 2 powi ulp_exp x"
  have u: "0 < u" by (simp add: u_def)
  have lb: "2 powi log2_floor \<bar>x\<bar> \<le> \<bar>x\<bar>" "\<bar>x\<bar> < 2 powi (log2_floor \<bar>x\<bar> + 1)"
    using log2_floor_bounds [of "\<bar>x\<bar>"] assms by auto
  have "(2::rat) powi (log2_floor \<bar>x\<bar> + 1) \<le> 2 powi (53 + ulp_exp x)"
    by (rule powi_mono_2) (simp add: ulp_exp_def)
  with lb(2) show hi: "\<bar>x\<bar> < 2 ^ 53 * 2 powi ulp_exp x" by (simp add: powi2_split)
  show "round53 x = of_int (round_half_even (x / 2 powi ulp_exp x)) * 2 powi ulp_exp x"
    using assms by (simp add: round53_def Let_def)
  from hi u have "\<bar>x / u\<bar> \<le> 2 ^ 53" by (simp add: u_def [symmetric] field_simps)
  then have "x / u \<le> of_int (2 ^ 53)" "of_int (- (2 ^ 53)) \<le> x / u"
    unfolding of_int_minus of_int_power of_int_numeral by linarith+
  then have "round_half_even (x / u) \<le> 2 ^ 53" "- (2 ^ 53) \<le> round_half_even (x / u)"
    using round_half_even_mono [of "x / u" "of_int (2 ^ 53)"]
      round_half_even_mono [of "of_int (- (2 ^ 53))" "x / u"]
    unfolding round_half_even_of_int by auto
  then show "\<bar>round_half_even (x / 2 powi ulp_exp x)\<bar> \<le> 2 ^ 53" by (simp add: u_def)
  assume "-1074 < ulp_exp x"
  then have "log2_floor \<bar>x\<bar> = 52 + ulp_exp x" by (auto simp: ulp_exp_def)
  with lb(1) show "2 ^ 52 * 2 powi ulp_exp x \<le> \<bar>x\<bar>" by (simp add: powi2_split)
qed simp

lemma ulp_exp_ge: "-1074 \<le> ulp_exp x"
  by (simp add: ulp_exp_def)

lemma dyadic53_round53: "dyadic53 (round53 x)"
proof (cases "x = 0")
  case True
  then show ?thesis unfolding dyadic53_def by (intro exI [of _ 0]) simp
next
  case False
  then obtain k where "round53 x = of_int k * 2 powi ulp_exp x" "\<bar>k\<bar> \<le> 2 ^ 53"
    by (rule round53_form)
  then show ?thesis using ulp_exp_ge unfolding dyadic53_def by blast
qed

lemma round53_idem [simp]: "round53 (round53 x) = round53 x"
  by (rule round53_dyadic [OF dyadic53_round53])

text \<open>Rounding picks a nearest representable number.\<close>

lemma round53_nearest:
  assumes "dyadic53 z" shows "\<bar>round53 x - x\<bar> \<le> \<bar>z - x\<bar>"
proof (cases "x = 0")
  case False
  define u :: rat where "u = 2 powi ulp_exp x"
  have u: "0 < u" by (simp add: u_def)
  have r: "round53 x = of_int (round_half_even (x / u)) * u"
    using False by (simp add: round53_def Let_def u_def)
  have grid: "\<bar>round53 x - x\<bar> \<le> \<bar>of_int j * u - x\<bar>" for j
  proof -
    have *: "\<bar>of_int i * u - x\<bar> = u * \<bar>x / u - of_int i\<bar>" for i
    proof -
      have "of_int i * u - x = - (u * (x / u - of_int i))" using u by (simp add: field_simps)
      then show ?thesis using u by (simp add: abs_mult)
    qed
    show ?thesis unfolding r * using round_half_even_nearest [of "x / u" j] u by simp
  qed
  from assms obtain m f where z: "z = of_int m * 2 powi f" "\<bar>m\<bar> \<le> 2 ^ 53" "-1074 \<le> f"
    by (auto simp: dyadic53_def)
  show ?thesis
  proof (cases "ulp_exp x \<le> f")
    case True
    from grid show ?thesis unfolding z(1) powi2_multiple [OF True] u_def .
  next
    case False
    then have "-1074 < ulp_exp x" using z(3) by simp
    with \<open>x \<noteq> 0\<close> have big: "2 ^ 52 * u \<le> \<bar>x\<bar>" unfolding u_def by (metis round53_form)
    have "of_int \<bar>m\<bar> \<le> (2 ^ 53 :: rat)" using z(2) by (metis of_int_le_iff of_int_numeral of_int_power)
    then have "\<bar>z\<bar> \<le> 2 ^ 53 * 2 powi f" by (simp add: z(1) abs_mult power_int_abs)
    also have "\<dots> = 2 powi (53 + f)" by (simp add: powi2_split)
    also have "\<dots> \<le> 2 powi (52 + ulp_exp x)" using False by (intro powi_mono_2) simp
    also have "\<dots> = 2 ^ 52 * u" by (simp add: powi2_split u_def)
    finally have "\<bar>z\<bar> \<le> 2 ^ 52 * u" .
    then have "\<bar>of_int (sgn (if 0 < x then 1 else -1) * 2 ^ 52) * u - x\<bar> \<le> \<bar>z - x\<bar>"
      using big \<open>x \<noteq> 0\<close> by (auto simp: abs_if split: if_splits)
    with grid show ?thesis by (rule order_trans)
  qed
qed simp

lemma round53_mono: "x \<le> y \<Longrightarrow> round53 x \<le> round53 y"
proof (rule ccontr)
  assume "x \<le> y" and gt: "\<not> round53 x \<le> round53 y"
  have "\<bar>round53 x - x\<bar> \<le> \<bar>round53 y - x\<bar>" "\<bar>round53 y - y\<bar> \<le> \<bar>round53 x - y\<bar>"
    by (rule round53_nearest [OF dyadic53_round53])+
  with gt \<open>x \<le> y\<close> have "x = y" by linarith
  with gt show False by simp
qed

lemma ulp_exp_normal:
  assumes "2 ^ 52 * 2 powi e < \<bar>y\<bar>" and "\<bar>y\<bar> < 2 ^ 53 * 2 powi e" and "-1074 \<le> e"
  shows "ulp_exp y = e"
proof -
  have "log2_floor \<bar>y\<bar> = 52 + e" using assms(1,2) by (intro log2_floor_unique) (simp_all add: powi2_split)
  then show ?thesis using assms(3) by (simp add: ulp_exp_def)
qed

lemma dyadic53_power_times:
  assumes "\<bar>k\<bar> = 2 ^ j" and "\<bar>n\<bar> \<le> 2 ^ 53" and "-1074 \<le> e"
  shows "dyadic53 (of_int k * 2 powi e * of_int n)"
proof -
  have "k = sgn k * 2 ^ j" using assms(1) by (simp add: sgn_if abs_if split: if_splits)
  then have "of_int k = (of_int (sgn k) * 2 powi int j :: rat)"
    by (metis of_int_mult of_int_numeral of_int_power power_int_of_nat)
  then have "of_int k * 2 powi e * of_int n = (of_int (sgn k * n) * 2 powi (int j + e) :: rat)"
    by (simp add: powi2_split)
  moreover have "\<bar>sgn k * n\<bar> \<le> 2 ^ 53" using assms(1,2) by (simp add: abs_mult sgn_if)
  ultimately show ?thesis
    unfolding dyadic53_def using assms(3) by (intro exI [of _ "sgn k * n"] exI [of _ "int j + e"]) simp
qed

text \<open>A quotient that rounds to a small significand is subnormal.\<close>

lemma small_significand_ulp:
  assumes "x \<noteq> 0" and "\<bar>round_half_even (x / 2 powi ulp_exp x)\<bar> < 2 ^ 52"
  shows "ulp_exp x = -1074"
proof (rule ccontr)
  let ?u = "2 powi ulp_exp x :: rat"
  assume "ulp_exp x \<noteq> -1074"
  then have "-1074 < ulp_exp x" using ulp_exp_ge [of x] by linarith
  then have "2 ^ 52 * ?u \<le> \<bar>x\<bar>" using assms(1) by (metis round53_form)
  moreover have "0 < ?u" by simp
  ultimately have "of_int (2 ^ 52) \<le> \<bar>x / ?u\<bar>" by (simp add: field_simps)
  then have "of_int (2 ^ 52) \<le> x / ?u \<or> x / ?u \<le> of_int (- (2 ^ 52))" by linarith
  then have "2 ^ 52 \<le> round_half_even (x / ?u) \<or> round_half_even (x / ?u) \<le> - (2 ^ 52)"
    by (metis round_half_even_mono round_half_even_of_int)
  with assms(2) show False by linarith
qed

text \<open>
  Dividing by a small integer, multiplying by it again and dividing once more loses nothing
  after the first division, although the product need not be the original number.
\<close>

lemma div_mul_div_round:
  assumes a: "dyadic53 a" and n: "0 < n" "n < 2 ^ 53"
  defines "q \<equiv> round53 (a / of_int n)"
  shows "round53 (round53 (q * of_int n) / of_int n) = q"
proof (cases "a = 0")
  case False
  define r :: rat where "r = of_int n"
  define x where "x = a / r"
  define p where "p = round53 (q * r)"
  define u :: rat where "u = 2 powi ulp_exp x"
  have pos: "0 < r" "0 < u" using n by (simp_all add: r_def u_def)
  have x0: "x \<noteq> 0" using False pos by (simp add: x_def)
  obtain k where k: "q = of_int k * u" "\<bar>k\<bar> \<le> 2 ^ 53" "k = round_half_even (x / u)"
    and hi: "\<bar>x\<bar> < 2 ^ 53 * u"
    using round53_form [OF x0] unfolding u_def q_def x_def r_def by metis
  have "\<bar>p - q * r\<bar> \<le> \<bar>a - q * r\<bar>" unfolding p_def by (rule round53_nearest [OF a])
  moreover have "p - q * r = r * u * (p / r / u - of_int k)" "a - q * r = r * u * (x / u - of_int k)"
    using pos by (simp_all add: k(1) x_def field_simps)
  ultimately have "r * u * \<bar>p / r / u - of_int k\<bar> \<le> r * u * \<bar>x / u - of_int k\<bar>"
    using pos by (simp add: abs_mult)
  then have closer: "\<bar>p / r / u - of_int k\<bar> \<le> \<bar>x / u - of_int k\<bar>" using pos by simp
  have kk: "round_half_even (p / r / u) = k"
    using round_half_even_closer [OF k(3) [symmetric] closer] .
  have near: "\<bar>p / r / u - of_int k\<bar> \<le> 1 / 2" 
    using closer round_half_even_near [of "x / u"] k(3) by simp
  have same_ulp: ?thesis if "p / r \<noteq> 0 \<Longrightarrow> ulp_exp (p / r) = ulp_exp x"
  proof (cases "p / r = 0")
    case True
    then have "k = 0" using kk round_half_even_of_int [of 0] unfolding True by simp
    with True k(1) show ?thesis unfolding p_def r_def by simp
  next
    case False
    with that kk k(1) have "round53 (p / r) = q" by (simp add: round53_def Let_def u_def)
    then show ?thesis by (simp add: p_def r_def)
  qed
  have Y: "\<bar>p / r\<bar> = \<bar>p / r / u\<bar> * u" using pos by (simp add: abs_mult)
  consider (pow) "\<bar>k\<bar> = 2 ^ 52 \<or> \<bar>k\<bar> = 2 ^ 53" | (normal) "2 ^ 52 < \<bar>k\<bar>" "\<bar>k\<bar> < 2 ^ 53"
    | (small) "\<bar>k\<bar> < 2 ^ 52"
    using k(2) by linarith
  then show ?thesis
  proof cases
    case pow
    then obtain j where j: "\<bar>k\<bar> = 2 ^ j" by blast
    have "dyadic53 (q * r)"
      using dyadic53_power_times [OF j _ ulp_exp_ge [of x], of n] n by (simp add: k(1) r_def u_def)
    then have "round53 (q * r) = q * r" by (rule round53_dyadic)
    then show ?thesis using pos by (simp add: r_def [symmetric]) (simp add: q_def)
  next
    case normal
    then have "2 ^ 52 + 1 \<le> \<bar>k\<bar>" "\<bar>k\<bar> \<le> 2 ^ 53 - 1" by linarith+
    then have "(of_int (2 ^ 52 + 1) :: rat) \<le> of_int \<bar>k\<bar>" "(of_int \<bar>k\<bar> :: rat) \<le> of_int (2 ^ 53 - 1)"
      by (simp_all only: of_int_le_iff)
    then have "2 ^ 52 < \<bar>p / r / u\<bar>" "\<bar>p / r / u\<bar> < 2 ^ 53"
      using near unfolding of_int_abs of_int_add of_int_diff of_int_power of_int_numeral of_int_1
      by linarith+
    then have "2 ^ 52 * u < \<bar>p / r\<bar>" "\<bar>p / r\<bar> < 2 ^ 53 * u"
      unfolding Y using pos(2) by (simp_all only: mult_less_cancel_right_pos)
    then show ?thesis using ulp_exp_ge [of x] by (intro same_ulp ulp_exp_normal) (simp_all add: u_def)
  next
    case small
    then have ulp: "ulp_exp x = -1074" by (intro small_significand_ulp [OF x0]) (simp add: k(3) u_def)
    have "(of_int \<bar>k\<bar> :: rat) \<le> of_int (2 ^ 52)"
      using small by (simp only: of_int_le_iff)
    moreover have "(2::rat) ^ 52 + 1 < 2 ^ 53" by simp
    ultimately have "\<bar>p / r / u\<bar> < 2 ^ 53"
      using near unfolding of_int_abs of_int_power of_int_numeral by linarith
    then have "\<bar>p / r\<bar> < 2 ^ 53 * u"
      unfolding Y using pos(2) by (simp only: mult_less_cancel_right_pos)
    with ulp have "\<bar>p / r\<bar> < 2 powi (53 + - 1074)" by (simp only: powi2_split u_def) simp
    then have "p / r \<noteq> 0 \<Longrightarrow> ulp_exp (p / r) \<le> -1074" by (intro ulp_exp_le) auto
    with \<open>ulp_exp x = -1074\<close> ulp_exp_ge [of "p / r"] show ?thesis by (intro same_ulp) linarith
  qed
qed (simp add: q_def)


section \<open>Floats and their operations\<close>

datatype pyfloat = NaN | PInf | NInf | Fin rat

text \<open>Rounding a rational to a float: overflow gives an infinity.\<close>

definition to_float :: "rat \<Rightarrow> pyfloat" where
  "to_float x =
     (let y = round53 x
      in if 2 ^ 1024 \<le> y then PInf else if y \<le> - (2 ^ 1024) then NInf else Fin y)"

fun finite_float :: "pyfloat \<Rightarrow> bool" where
  "finite_float (Fin _) = True"
| "finite_float _ = False"

text \<open>The values a float variable can hold.\<close>

fun float_ok :: "pyfloat \<Rightarrow> bool" where
  "float_ok (Fin x) \<longleftrightarrow> round53 x = x \<and> \<bar>x\<bar> < 2 ^ 1024"
| "float_ok _ = True"

lemma float_ok_to_float [simp]: "float_ok (to_float x)"
  by (auto simp: to_float_def Let_def)

text \<open>Comparisons: every comparison with a NaN is false.\<close>

fun fgt :: "pyfloat \<Rightarrow> pyfloat \<Rightarrow> bool" where
  "fgt (Fin x) (Fin y) \<longleftrightarrow> y < x"
| "fgt PInf (Fin _) = True"
| "fgt PInf NInf = True"
| "fgt (Fin _) NInf = True"
| "fgt _ _ = False"

fun fle :: "pyfloat \<Rightarrow> pyfloat \<Rightarrow> bool" where
  "fle x y \<longleftrightarrow> x \<noteq> NaN \<and> y \<noteq> NaN \<and> \<not> fgt x y"

definition inf_of_sign :: "rat \<Rightarrow> pyfloat" where
  "inf_of_sign s = (if 0 < s then PInf else if s < 0 then NInf else NaN)"

lemma not_finite_inf_of_sign [simp]: "\<not> finite_float (inf_of_sign s)" "inf_of_sign s \<noteq> Fin x"
  by (simp_all add: inf_of_sign_def)

fun sign_of :: "pyfloat \<Rightarrow> rat" where
  "sign_of (Fin x) = sgn x"
| "sign_of PInf = 1"
| "sign_of NInf = -1"
| "sign_of NaN = 0"

fun fadd :: "pyfloat \<Rightarrow> pyfloat \<Rightarrow> pyfloat" where
  "fadd (Fin x) (Fin y) = to_float (x + y)"
| "fadd PInf (Fin _) = PInf"
| "fadd PInf PInf = PInf"
| "fadd (Fin _) PInf = PInf"
| "fadd NInf (Fin _) = NInf"
| "fadd NInf NInf = NInf"
| "fadd (Fin _) NInf = NInf"
| "fadd _ _ = NaN"

fun fneg :: "pyfloat \<Rightarrow> pyfloat" where
  "fneg NaN = NaN"
| "fneg PInf = NInf"
| "fneg NInf = PInf"
| "fneg (Fin x) = Fin (- x)"

definition fsub :: "pyfloat \<Rightarrow> pyfloat \<Rightarrow> pyfloat" where
  "fsub x y = fadd x (fneg y)"

fun fmul :: "pyfloat \<Rightarrow> pyfloat \<Rightarrow> pyfloat" where
  "fmul NaN _ = NaN"
| "fmul _ NaN = NaN"
| "fmul (Fin x) (Fin y) = to_float (x * y)"
| "fmul x y = inf_of_sign (sign_of x * sign_of y)"

text \<open>True division: a zero divisor raises whatever the dividend is.\<close>

fun fquot :: "pyfloat \<Rightarrow> pyfloat \<Rightarrow> pyfloat" where
  "fquot NaN _ = NaN"
| "fquot _ NaN = NaN"
| "fquot (Fin a) (Fin b) = to_float (a / b)"
| "fquot (Fin a) _ = Fin 0"
| "fquot x (Fin b) = inf_of_sign (sign_of x * (if 0 \<le> b then 1 else -1))"
| "fquot _ _ = NaN"

fun fdiv :: "pyfloat \<Rightarrow> pyfloat \<Rightarrow> pyfloat result" where
  "fdiv x y = (if y = Fin 0 then Inl ZeroDivisionError else Inr (fquot x y))"

text \<open>Conversions: \<^verbatim>\<open>float(n)\<close> for an int, \<^verbatim>\<open>round(x)\<close> and \<^verbatim>\<open>int(x)\<close>.\<close>

definition float_of_int :: "int \<Rightarrow> pyfloat result" where
  "float_of_int n =
     (case to_float (of_int n) of Fin x \<Rightarrow> Inr (Fin x) | _ \<Rightarrow> Inl OverflowError)"

fun py_round :: "pyfloat \<Rightarrow> int result" where
  "py_round (Fin x) = Inr (round_half_even x)"
| "py_round NaN = Inl ValueError"
| "py_round _ = Inl OverflowError"

fun py_int :: "pyfloat \<Rightarrow> int result" where
  "py_int (Fin x) = Inr (if 0 \<le> x then \<lfloor>x\<rfloor> else \<lceil>x\<rceil>)"
| "py_int NaN = Inl ValueError"
| "py_int _ = Inl OverflowError"

text \<open>
  \<^verbatim>\<open>max\<close> keeps the first of the largest elements; \<^verbatim>\<open>sum\<close> adds from the left, starting at the
  integer 0, with one rounding per addition (the interpreter the package is tested with,
  CPython 3.11, uses no compensated summation).
\<close>

fun py_max :: "pyfloat list \<Rightarrow> pyfloat result" where
  "py_max [] = Inl ValueError"
| "py_max (x # xs) = Inr (foldl (\<lambda>m y. if fgt y m then y else m) x xs)"

definition py_sum :: "pyfloat list \<Rightarrow> pyfloat" where
  "py_sum xs = foldl fadd (Fin 0) xs"

text \<open>
  Rounding a concrete number: the significand \<open>m\<close> and the exponent \<open>- k\<close> are given and
  checked, instead of being searched for.
\<close>

lemma round53_eqI:
  assumes "2 ^ 52 \<le> \<bar>x\<bar> * 2 ^ k" and "\<bar>x\<bar> * 2 ^ k < 2 ^ 53" and "k \<le> 1074"
    and "\<bar>x * 2 ^ k - of_int m\<bar> \<le> 1 / 2" and "\<bar>x * 2 ^ k - of_int m\<bar> = 1 / 2 \<Longrightarrow> even m"
  shows "round53 x = of_int m / 2 ^ k"
proof -
  have inv: "(2::rat) powi (- int k) = 1 / 2 ^ k" by (simp add: power_int_minus inverse_eq_divide)
  have "log2_floor \<bar>x\<bar> = 52 - int k"
  proof (rule log2_floor_unique)
    have "(2::rat) powi (52 - int k) = 2 ^ 52 / 2 ^ k" "(2::rat) powi (52 - int k + 1) = 2 ^ 53 / 2 ^ k"
      using inv powi2_split [of 52 "- int k"] powi2_split [of 53 "- int k"] by simp_all
    then show "2 powi (52 - int k) \<le> \<bar>x\<bar>" "\<bar>x\<bar> < 2 powi (52 - int k + 1)"
      using assms(1,2) by (simp_all only:) (simp_all add: divide_le_eq less_divide_eq)
  qed
  then have u: "ulp_exp x = - int k" using assms(3) by (simp add: ulp_exp_def)
  have "x \<noteq> 0" using assms(1) by auto
  moreover have "round_half_even (x * 2 ^ k) = m" using assms(4,5) by (rule round_half_even_unique)
  ultimately show ?thesis by (simp add: round53_def u inv Let_def)
qed

lemma to_float_Fin: "round53 x = y \<Longrightarrow> \<bar>y\<bar> < 2 ^ 1024 \<Longrightarrow> to_float x = Fin y"
  by (auto simp: to_float_def Let_def)

lemma to_float_dyadic: "dyadic53 x \<Longrightarrow> \<bar>x\<bar> < 2 ^ 1024 \<Longrightarrow> to_float x = Fin x"
  by (rule to_float_Fin [OF round53_dyadic])

lemma dyadic53_I:
  assumes "x * 2 ^ k = of_int m" and "\<bar>m\<bar> \<le> 2 ^ 53" and "k \<le> 1074"
  shows "dyadic53 x"
proof -
  have "x = of_int m * 2 powi (- int k)"
    using assms(1) by (simp add: power_int_minus field_simps)
  with assms(2,3) show ?thesis unfolding dyadic53_def
    by (intro exI [of _ m] exI [of _ "- int k"]) simp
qed

lemma dyadic53_of_int: "\<bar>n\<bar> \<le> 2 ^ 53 \<Longrightarrow> dyadic53 (of_int n)"
  by (rule dyadic53_I [of _ 0]) simp_all


lemma float_of_int_exact: "\<bar>n\<bar> \<le> 2 ^ 53 \<Longrightarrow> float_of_int n = Inr (Fin (of_int n))"
proof -
  assume n: "\<bar>n\<bar> \<le> 2 ^ 53"
  then have "(of_int \<bar>n\<bar> :: rat) \<le> of_int (2 ^ 53)" by (simp only: of_int_le_iff)
  moreover have "(of_int (2 ^ 53) :: rat) < 2 ^ 1024" by simp
  ultimately have "\<bar>of_int n\<bar> < (2 ^ 1024 :: rat)" unfolding of_int_abs by (rule le_less_trans)
  with dyadic53_of_int [OF n] have "to_float (of_int n) = Fin (of_int n)"
    by (rule to_float_dyadic)
  then show ?thesis by (simp add: float_of_int_def)
qed

lemma float_of_int_Inr: "float_of_int n = Inr f \<Longrightarrow> \<exists>x. f = Fin x \<and> float_ok f"
proof -
  assume "float_of_int n = Inr f"
  then obtain x where "to_float (of_int n) = Fin x" "f = Fin x"
    by (auto simp: float_of_int_def split: pyfloat.splits)
  then show ?thesis by (metis float_ok_to_float)
qed

lemma fdiv_nonzero: "y \<noteq> 0 \<Longrightarrow> fdiv (Fin x) (Fin y) = Inr (to_float (x / y))"
  by simp

lemma to_float_FinD: "to_float x = Fin y \<Longrightarrow> y = round53 x \<and> \<bar>y\<bar> < 2 ^ 1024"
  by (auto simp: to_float_def Let_def split: if_splits)

lemma float_ok_dyadic: "float_ok (Fin x) \<Longrightarrow> dyadic53 x"
  by (metis dyadic53_round53 float_ok.simps(1))

text \<open>Dividing, multiplying back and dividing again gives the first quotient.\<close>

lemma fdiv_fmul_fdiv:
  assumes ok: "float_ok a" and n: "0 < n" "n < 2 ^ 53"
    and s: "fdiv a (Fin (of_int n)) = Inr s"
    and fin: "finite_float (fmul s (Fin (of_int n)))"
  shows "fdiv (fmul s (Fin (of_int n))) (Fin (of_int n)) = Inr s"
proof -
  have n0: "(of_int n :: rat) \<noteq> 0" using n(1) by simp
  obtain y where y: "s = Fin y" using fin n0 by (cases s) auto
  obtain x where x: "a = Fin x" using s n0 y by (cases a) (auto split: if_splits)
  from s x y n0 have sf: "to_float (x / of_int n) = Fin y" by simp
  obtain p where p: "to_float (y * of_int n) = Fin p"
    using fin y by (cases "to_float (y * of_int n)") auto
  from to_float_FinD [OF sf] to_float_FinD [OF p]
  have eqs: "y = round53 (x / of_int n)" "p = round53 (y * of_int n)" "\<bar>y\<bar> < 2 ^ 1024" by auto
  have "dyadic53 x" using ok x by (simp add: float_ok_dyadic)
  from div_mul_div_round [OF this n] eqs have "round53 (p / of_int n) = y" by simp
  then have "to_float (p / of_int n) = Fin y" using eqs(3) by (rule to_float_Fin)
  with n0 p y show ?thesis by simp
qed

text \<open>The maximum of finite readings is one of them, and none is larger.\<close>

lemma foldl_fmax_Fin:
  "foldl (\<lambda>m y. if fgt y m then y else m) (Fin x) (map Fin xs) = Fin (Max (insert x (set xs)))"
proof (induction xs arbitrary: x)
  case (Cons y ys)
  have "foldl (\<lambda>m y. if fgt y m then y else m) (Fin x) (map Fin (y # ys)) =
      foldl (\<lambda>m y. if fgt y m then y else m) (Fin (max x y)) (map Fin ys)"
    by (simp add: max_def)
  also have "\<dots> = Fin (Max (insert (max x y) (set ys)))" by (rule Cons.IH)
  also have "Max (insert (max x y) (set ys)) = Max (insert x (set (y # ys)))"
    by (cases "ys = []") (simp_all add: Max_insert max.assoc)
  finally show ?case .
qed simp

lemma py_max_Fin: "xs \<noteq> [] \<Longrightarrow> py_max (map Fin xs) = Inr (Fin (Max (set xs)))"
  by (cases xs) (simp_all add: foldl_fmax_Fin)

lemma fgt_irrefl [simp]: "\<not> fgt x x"
  by (cases x) simp_all

lemma fgt_trans: "fgt x y \<Longrightarrow> fgt y z \<Longrightarrow> fgt x z"
  by (cases x; cases y; cases z) simp_all

lemma fgt_NaN [simp]: "\<not> fgt NaN y" "\<not> fgt x NaN"
  by (cases y; simp) (cases x; simp)

end
