(* ===== verification/PyText.thy ===== *)
theory PyText
  imports Floats "HOL-Library.Sublist"
begin

text \<open>
  The string operations the package uses: \<^verbatim>\<open>strip\<close>, \<^verbatim>\<open>split\<close>, \<^verbatim>\<open>lower\<close>, the substring test, and
  the conversions \<^verbatim>\<open>int(s)\<close> and \<^verbatim>\<open>float(s)\<close> with CPython's grammar (surrounding whitespace, a
  sign, single underscores between digits, \<^verbatim>\<open>inf\<close> and \<^verbatim>\<open>nan\<close>). A \<open>char\<close> stands for a code
  point below 256. Decimal printing is the inverse that the round-trip lemmas are about.
\<close>

section \<open>Character classes\<close>

definition ord_of :: "char \<Rightarrow> nat" where
  "ord_of c = of_char c"

definition is_space :: "char \<Rightarrow> bool" where
  "is_space c \<longleftrightarrow> ord_of c \<in> {9, 10, 11, 12, 13, 28, 29, 30, 31, 32, 133, 160}"

definition is_digit :: "char \<Rightarrow> bool" where
  "is_digit c \<longleftrightarrow> 48 \<le> ord_of c \<and> ord_of c \<le> 57"

definition digit_value :: "char \<Rightarrow> nat" where
  "digit_value c = ord_of c - 48"

definition lower_char :: "char \<Rightarrow> char" where
  "lower_char c =
     (if 65 \<le> ord_of c \<and> ord_of c \<le> 90
         \<or> 192 \<le> ord_of c \<and> ord_of c \<le> 222 \<and> ord_of c \<noteq> 215
      then char_of (ord_of c + 32) else c)"

definition py_lower :: "string \<Rightarrow> string" where
  "py_lower s = map lower_char s"

section \<open>Whitespace\<close>

definition py_strip :: "string \<Rightarrow> string" where
  "py_strip s = rev (dropWhile is_space (rev (dropWhile is_space s)))"

text \<open>\<^verbatim>\<open>s.split()\<close>: the maximal runs of non-space characters.\<close>

fun split_from :: "string \<Rightarrow> string \<Rightarrow> string list" where
  "split_from word [] = (if word = [] then [] else [word])"
| "split_from word (c # cs) =
     (if is_space c then (if word = [] then [] else [word]) @ split_from [] cs
      else split_from (word @ [c]) cs)"

definition py_split :: "string \<Rightarrow> string list" where
  "py_split s = split_from [] s"

lemma split_from_word:
  assumes "\<forall>c \<in> set w. \<not> is_space c"
  shows "split_from v (w @ s) = split_from (v @ w) s"
  using assms by (induction w arbitrary: v) auto

lemma py_split_single: "w \<noteq> [] \<Longrightarrow> \<forall>c \<in> set w. \<not> is_space c \<Longrightarrow> py_split w = [w]"
  using split_from_word [of w "[]" "[]"] by (simp add: py_split_def)

lemma py_split_Cons:
  assumes "w \<noteq> []" and "\<forall>c \<in> set w. \<not> is_space c" and "is_space c"
  shows "py_split (w @ c # s) = w # py_split s"
  using split_from_word [of w "[]" "c # s"] assms by (simp add: py_split_def)

lemma py_strip_id:
  assumes "s \<noteq> []" and "\<not> is_space (hd s)" and "\<not> is_space (last s)"
  shows "py_strip s = s"
proof -
  have "dropWhile is_space s = s" using assms(1,2) by (cases s) auto
  moreover have "dropWhile is_space (rev s) = rev s"
    using assms(1,3) by (cases "rev s") (auto simp: hd_rev)
  ultimately show ?thesis by (simp add: py_strip_def)
qed

lemma py_strip_append_space:
  assumes "s \<noteq> []" and "\<not> is_space (hd s)" and "\<not> is_space (last s)" and "is_space c"
  shows "py_strip (s @ [c]) = s"
proof -
  have "dropWhile is_space (s @ [c]) = s @ [c]" using assms(1,2) by (cases s) auto
  moreover have "dropWhile is_space (rev s) = rev s"
    using assms(1,3) by (cases "rev s") (auto simp: hd_rev)
  ultimately show ?thesis using assms(4) by (simp add: py_strip_def)
qed

section \<open>Substrings\<close>

fun py_contains :: "string \<Rightarrow> string \<Rightarrow> bool" where
  "py_contains needle [] \<longleftrightarrow> needle = []"
| "py_contains needle (c # cs) \<longleftrightarrow> prefix needle (c # cs) \<or> py_contains needle cs"

lemma py_contains_iff: "py_contains needle hay \<longleftrightarrow> sublist needle hay"
  by (induction hay) (auto simp: sublist_Cons_right)

section \<open>Integer literals\<close>

fun digits_value :: "nat \<Rightarrow> string \<Rightarrow> nat" where
  "digits_value acc [] = acc"
| "digits_value acc (c # cs) = digits_value (10 * acc + digit_value c) cs"

text \<open>Underscores are allowed between two digits only; they are dropped before conversion.\<close>

fun underscores_ok :: "bool \<Rightarrow> string \<Rightarrow> bool" where
  "underscores_ok after_digit [] = True"
| "underscores_ok after_digit (c # cs) =
     (if c = CHR ''_'' then after_digit \<and> cs \<noteq> [] \<and> is_digit (hd cs) \<and> underscores_ok False cs
      else underscores_ok (is_digit c) cs)"

definition drop_underscores :: "string \<Rightarrow> string" where
  "drop_underscores s = filter (\<lambda>c. c \<noteq> CHR ''_'') s"

fun split_sign :: "string \<Rightarrow> bool \<times> string" where
  "split_sign (c # cs) =
     (if c = CHR ''-'' then (True, cs) else if c = CHR ''+'' then (False, cs) else (False, c # cs))"
| "split_sign [] = (False, [])"

text \<open>CPython refuses more than 4300 digits (\<^verbatim>\<open>sys.int_info.default_max_str_digits\<close>).\<close>

definition max_str_digits :: nat where
  "max_str_digits = 4300"

definition int_of_str :: "string \<Rightarrow> int result" where
  "int_of_str s =
     (let (neg, body) = split_sign (py_strip s); ds = drop_underscores body
      in if underscores_ok False body \<and> ds \<noteq> [] \<and> list_all is_digit ds
            \<and> length ds \<le> max_str_digits
         then Inr ((if neg then -1 else 1) * int (digits_value 0 ds))
         else Inl ValueError)"

lemma int_of_str_error: "int_of_str s = Inl e \<Longrightarrow> e = ValueError"
  by (auto simp: int_of_str_def Let_def split: prod.splits if_splits)

section \<open>Float literals\<close>

definition pow10 :: "int \<Rightarrow> rat" where
  "pow10 e = (if 0 \<le> e then 10 ^ nat e else 1 / 10 ^ nat (- e))"

definition parse_exponent :: "string \<Rightarrow> int option" where
  "parse_exponent s =
     (case s of
        [] \<Rightarrow> Some 0
      | c # t \<Rightarrow>
          if c = CHR ''e'' \<or> c = CHR ''E''
          then (let (neg, ds) = split_sign t
                in if ds \<noteq> [] \<and> list_all is_digit ds
                   then Some ((if neg then -1 else 1) * int (digits_value 0 ds)) else None)
          else None)"

definition parse_decimal :: "string \<Rightarrow> rat option" where
  "parse_decimal s =
     (let ip = takeWhile is_digit s; r = dropWhile is_digit s;
          (fp, r') = (case r of
              c # t \<Rightarrow> if c = CHR ''.'' then (takeWhile is_digit t, dropWhile is_digit t) else ([], r)
            | [] \<Rightarrow> ([], []))
      in if ip @ fp = [] then None
         else map_option (\<lambda>e. of_nat (digits_value 0 (ip @ fp)) * pow10 (e - int (length fp)))
                (parse_exponent r'))"

definition float_of_str :: "string \<Rightarrow> pyfloat result" where
  "float_of_str s =
     (let (neg, body) = split_sign (py_strip s); t = py_lower body
      in if t = ''inf'' \<or> t = ''infinity'' then Inr (if neg then NInf else PInf)
         else if t = ''nan'' then Inr NaN
         else if \<not> underscores_ok False body then Inl ValueError
         else (case parse_decimal (drop_underscores body) of
                 None \<Rightarrow> Inl ValueError
               | Some x \<Rightarrow> Inr (to_float (if neg then - x else x))))"

lemma float_of_str_error: "float_of_str s = Inl e \<Longrightarrow> e = ValueError"
  by (auto simp: float_of_str_def Let_def split: prod.splits if_splits option.splits)

section \<open>Decimal printing\<close>

definition digit_char :: "nat \<Rightarrow> char" where
  "digit_char d = char_of (48 + d)"

fun show_nat :: "nat \<Rightarrow> string" where
  "show_nat n = (if n < 10 then [digit_char n] else show_nat (n div 10) @ [digit_char (n mod 10)])"

declare show_nat.simps [simp del]

lemma ord_digit_char: "d < 10 \<Longrightarrow> ord_of (digit_char d) = 48 + d"
  by (simp add: ord_of_def digit_char_def)

lemma digit_char_facts:
  assumes "d < 10"
  shows "is_digit (digit_char d)" "digit_value (digit_char d) = d" "\<not> is_space (digit_char d)"
    "digit_char d \<noteq> CHR ''_''" "digit_char d \<noteq> CHR ''-''" "digit_char d \<noteq> CHR ''+''"
    "digit_char d \<noteq> CHR ''.''"
proof -
  note o = ord_digit_char [OF assms]
  show "is_digit (digit_char d)" "digit_value (digit_char d) = d" "\<not> is_space (digit_char d)"
    using assms by (auto simp: is_digit_def digit_value_def is_space_def o)
  have ne: "digit_char d \<noteq> c" if "of_char c < (48::nat)" for c
    using that o by (auto simp: ord_of_def)
  show "digit_char d \<noteq> CHR ''-''" "digit_char d \<noteq> CHR ''+''" "digit_char d \<noteq> CHR ''.''"
    by (rule ne, simp)+
  have "of_char (CHR ''_'') > (57::nat)" by simp
  then show "digit_char d \<noteq> CHR ''_''" using o assms by (auto simp: ord_of_def)
qed

lemma digits_value_append: "digits_value a (s @ t) = digits_value (digits_value a s) t"
  by (induction a s rule: digits_value.induct) auto

lemma show_nat_digits: "\<forall>c \<in> set (show_nat n). \<exists>d < 10. c = digit_char d"
proof (induction n rule: show_nat.induct)
  case (1 n)
  then show ?case by (subst show_nat.simps) (auto intro: exI [of _ "n mod 10"])
qed

lemma show_nat_nonempty [simp]: "show_nat n \<noteq> []"
  by (subst show_nat.simps) simp

lemma digits_value_show_nat: "digits_value 0 (show_nat n) = n"
proof (induction n rule: show_nat.induct)
  case (1 n)
  then show ?case
    by (subst show_nat.simps) (auto simp: digits_value_append digit_char_facts)
qed

lemma show_nat_all:
  "c \<in> set (show_nat n) \<Longrightarrow>
     is_digit c \<and> \<not> is_space c \<and> c \<noteq> CHR ''_'' \<and> c \<noteq> CHR ''-'' \<and> c \<noteq> CHR ''+'' \<and> c \<noteq> CHR ''.''"
  using show_nat_digits digit_char_facts by metis

lemma underscores_ok_none: "CHR ''_'' \<notin> set s \<Longrightarrow> underscores_ok b s"
  by (induction s arbitrary: b) auto

lemma drop_underscores_none: "CHR ''_'' \<notin> set s \<Longrightarrow> drop_underscores s = s"
  by (auto simp: drop_underscores_def intro!: filter_True)

lemma show_nat_length: "n < 10 ^ k \<Longrightarrow> 0 < k \<Longrightarrow> length (show_nat n) \<le> k"
proof (induction n arbitrary: k rule: show_nat.induct)
  case (1 n)
  show ?case
  proof (cases "n < 10")
    case True
    with "1.prems" show ?thesis by (subst show_nat.simps) simp
  next
    case False
    with "1.prems" have "k \<noteq> 1" by auto
    with "1.prems"(2) obtain j where k: "k = Suc j" "0 < j" by (cases k) auto
    have "n div 10 < 10 ^ j" using "1.prems"(1) k by (simp add: less_mult_imp_div_less mult.commute)
    from "1.IH" [OF False this k(2)] False k show ?thesis by (subst show_nat.simps) simp
  qed
qed

lemma py_strip_nospace: "\<forall>c \<in> set s. \<not> is_space c \<Longrightarrow> py_strip s = s"
  using py_strip_id [of s] by (cases "s = []") (simp_all add: py_strip_def)

lemma split_sign_none: "\<forall>c \<in> set s. c \<noteq> CHR ''-'' \<and> c \<noteq> CHR ''+'' \<Longrightarrow> split_sign s = (False, s)"
  by (cases s) auto

lemma int_of_str_show_nat:
  assumes "n < 10 ^ 4300" shows "int_of_str (show_nat n) = Inr (int n)"
proof -
  have "py_strip (show_nat n) = show_nat n"
    by (rule py_strip_nospace) (auto dest: show_nat_all)
  moreover have "split_sign (show_nat n) = (False, show_nat n)"
    by (rule split_sign_none) (auto dest: show_nat_all)
  moreover have us: "CHR ''_'' \<notin> set (show_nat n)" by (auto dest: show_nat_all)
  moreover have "list_all is_digit (show_nat n)" by (auto simp: list_all_iff dest: show_nat_all)
  moreover have "length (show_nat n) \<le> max_str_digits"
    unfolding max_str_digits_def using show_nat_length [OF assms] by simp
  ultimately show ?thesis
    by (simp add: int_of_str_def underscores_ok_none drop_underscores_none digits_value_show_nat)
qed

text \<open>The definitions to unfold when a concrete string is evaluated.\<close>

lemmas text_eval =
  ord_of_def is_space_def is_digit_def digit_value_def lower_char_def py_lower_def
  py_strip_def py_split_def drop_underscores_def max_str_digits_def int_of_str_def
  pow10_def parse_exponent_def parse_decimal_def float_of_str_def Let_def

end
