(* ===== verification/Thermal.thy ===== *)
theory Thermal
  imports PyText
begin

text \<open>
  \<^verbatim>\<open>src/python/msp/thermal.py\<close>, the part that decides: the frozen sample
  \<^verbatim>\<open>ThermalReading\<close>, the monitor \<^verbatim>\<open>ThermalMonitor\<close> with its pluggable reader, and the replaying
  reader \<^verbatim>\<open>ScriptedThermalReader\<close>. A reader is a program over a world state: it may raise and
  it may change the state (the scripted reader advances its index). The locale
  \<open>temperature_source\<close> says what a monitor needs of a reader, \<open>scheduled_source\<close> adds
  readers whose \<open>n\<close>-th answer is known in advance; the scripted reader interprets both.
\<close>

section \<open>Samples and monitors\<close>

record thermal_reading =
  temperature_c :: pyfloat
  timestamp :: pyfloat

type_synonym 's reader = "('s, pyfloat) prog"
type_synonym 's clock = "'s \<Rightarrow> pyfloat \<times> 's"

record 's thermal_monitor =
  mon_reader :: "'s reader"
  freeze_threshold_c :: pyfloat
  freeze_ratio :: pyfloat

definition default_reader :: "'s reader" where
  "default_reader = sret (Fin 25)"

definition default_threshold :: pyfloat where
  "default_threshold = Fin 75"

definition default_freeze_ratio :: pyfloat where
  "default_freeze_ratio = to_float (1 / 5)"

lemma default_freeze_ratio_eq: "default_freeze_ratio = Fin (3602879701896397 / 18014398509481984)"
  unfolding default_freeze_ratio_def
  by (rule to_float_Fin, rule trans [OF round53_eqI [of _ 55 "7205759403792794"]]) simp_all

definition monitor_init ::
  "'s reader option \<Rightarrow> pyfloat \<Rightarrow> pyfloat \<Rightarrow> 's thermal_monitor result" where
  "monitor_init rd threshold ratio =
     (if \<not> (fgt ratio (Fin 0) \<and> fle ratio (Fin 1)) then Inl ValueError
      else Inr \<lparr>mon_reader = (case rd of None \<Rightarrow> default_reader | Some r \<Rightarrow> r),
                freeze_threshold_c = threshold, freeze_ratio = ratio\<rparr>)"

text \<open>The clock is \<^verbatim>\<open>time.monotonic\<close>; it is read after the temperature.\<close>

definition monitor_read ::
  "'s clock \<Rightarrow> 's thermal_monitor \<Rightarrow> ('s, thermal_reading) prog" where
  "monitor_read clock m =
     sbind (mon_reader m) (\<lambda>t s. let (now, s') = clock s
       in (Inr \<lparr>temperature_c = t, timestamp = now\<rparr>, s'))"

text \<open>\<^verbatim>\<open>reading or self.read()\<close>: a sample is always truthy.\<close>

definition reading_or_read ::
  "'s clock \<Rightarrow> 's thermal_monitor \<Rightarrow> thermal_reading option \<Rightarrow> ('s, thermal_reading) prog" where
  "reading_or_read clock m reading =
     (case reading of Some r \<Rightarrow> sret r | None \<Rightarrow> monitor_read clock m)"

definition update_ratio ::
  "'s clock \<Rightarrow> 's thermal_monitor \<Rightarrow> thermal_reading option \<Rightarrow> ('s, pyfloat) prog" where
  "update_ratio clock m reading =
     sbind (reading_or_read clock m reading)
       (\<lambda>r. sret (if fgt (temperature_c r) (freeze_threshold_c m) then freeze_ratio m else Fin 1))"

definition is_throttling ::
  "'s clock \<Rightarrow> 's thermal_monitor \<Rightarrow> thermal_reading option \<Rightarrow> ('s, bool) prog" where
  "is_throttling clock m reading =
     sbind (reading_or_read clock m reading)
       (\<lambda>r. sret (fgt (temperature_c r) (freeze_threshold_c m)))"

text \<open>\<open>n\<close> throttling decisions in a row, each with a sample of its own.\<close>

primrec throttle_decisions ::
  "nat \<Rightarrow> 's clock \<Rightarrow> 's thermal_monitor \<Rightarrow> ('s, bool list) prog" where
  "throttle_decisions 0 clock m = sret []"
| "throttle_decisions (Suc n) clock m =
     sbind (is_throttling clock m None)
       (\<lambda>b. sbind (throttle_decisions n clock m) (\<lambda>bs. sret (b # bs)))"

section \<open>The scripted reader\<close>

record scripted_reader =
  script :: "pyfloat list"
  script_idx :: nat

definition scripted_init :: "pyfloat list \<Rightarrow> scripted_reader result" where
  "scripted_init xs =
     (if xs = [] then Inl ValueError else Inr \<lparr>script = xs, script_idx = 0\<rparr>)"

definition scripted_call :: "scripted_reader reader" where
  "scripted_call = (\<lambda>r.
     if script r = [] then (Inl IndexError, r)
     else (Inr (script r ! min (script_idx r) (length (script r) - 1)),
           r\<lparr>script_idx := script_idx r + 1\<rparr>))"

section \<open>What a monitor needs of its reader\<close>

locale temperature_source =
  fixes rd :: "'s reader"
    and clock :: "'s clock"
    and inv :: "'s \<Rightarrow> bool"
    and temp :: "'s \<Rightarrow> pyfloat"
  assumes rd_value: "inv s \<Longrightarrow> fst (rd s) = Inr (temp s)"
    and rd_inv: "inv s \<Longrightarrow> inv (snd (rd s))"
    and clock_inv: "inv s \<Longrightarrow> inv (snd (clock s))"
begin

lemma rd_run: "inv s \<Longrightarrow> rd s = (Inr (temp s), snd (rd s))"
  by (metis rd_value prod.collapse)

lemma monitor_read_run:
  assumes "inv s" and "mon_reader m = rd"
  shows "monitor_read clock m s =
    (Inr \<lparr>temperature_c = temp s, timestamp = fst (clock (snd (rd s)))\<rparr>, snd (clock (snd (rd s))))"
  using rd_value [OF assms(1)] assms(2)
  by (cases "rd s") (simp add: monitor_read_def sbind_def Let_def split_beta)

lemma is_throttling_run:
  assumes "inv s" and "mon_reader m = rd"
  shows "is_throttling clock m None s =
    (Inr (fgt (temp s) (freeze_threshold_c m)), snd (clock (snd (rd s))))"
  using monitor_read_run [OF assms]
  by (simp add: is_throttling_def reading_or_read_def sbind_def sret_def)

lemma update_ratio_run:
  assumes "inv s" and "mon_reader m = rd"
  shows "update_ratio clock m None s =
    (Inr (if fgt (temp s) (freeze_threshold_c m) then freeze_ratio m else Fin 1),
     snd (clock (snd (rd s))))"
  using monitor_read_run [OF assms]
  by (simp add: update_ratio_def reading_or_read_def sbind_def sret_def)

lemma step_inv: "inv s \<Longrightarrow> inv (snd (clock (snd (rd s))))"
  by (intro clock_inv rd_inv)

end

text \<open>A source whose answers follow a schedule: reading moves one position on.\<close>

locale scheduled_source = temperature_source rd clock inv "\<lambda>s. sched s (pos s)"
  for rd :: "'s reader" and clock :: "'s clock" and inv :: "'s \<Rightarrow> bool"
    and sched :: "'s \<Rightarrow> nat \<Rightarrow> pyfloat" and pos :: "'s \<Rightarrow> nat" +
  assumes rd_sched: "inv s \<Longrightarrow> sched (snd (rd s)) = sched s"
    and rd_pos: "inv s \<Longrightarrow> pos (snd (rd s)) = Suc (pos s)"
    and clock_sched: "inv s \<Longrightarrow> sched (snd (clock s)) = sched s"
    and clock_pos: "inv s \<Longrightarrow> pos (snd (clock s)) = pos s"
begin

lemma throttle_decisions_run:
  assumes "inv s" and "mon_reader m = rd"
  shows "\<exists>s'. throttle_decisions n clock m s =
      (Inr (map (\<lambda>i. fgt (sched s (pos s + i)) (freeze_threshold_c m)) [0..<n]), s')
    \<and> inv s' \<and> sched s' = sched s \<and> pos s' = pos s + n"
  using assms(1)
proof (induction n arbitrary: s)
  case 0
  then show ?case by (simp add: sret_def)
next
  case (Suc n)
  define t where "t = snd (clock (snd (rd s)))"
  have t: "inv t" "sched t = sched s" "pos t = Suc (pos s)"
    using Suc.prems by (simp_all add: t_def step_inv rd_inv rd_sched rd_pos clock_sched clock_pos)
  obtain s' where s': "throttle_decisions n clock m t =
      (Inr (map (\<lambda>i. fgt (sched t (pos t + i)) (freeze_threshold_c m)) [0..<n]), s')"
    "inv s'" "sched s' = sched t" "pos s' = pos t + n"
    using Suc.IH [OF t(1)] by blast
  have "map (\<lambda>i. fgt (sched s (pos s + i)) (freeze_threshold_c m)) [0..<Suc n] =
      fgt (sched s (pos s)) (freeze_threshold_c m) #
      map (\<lambda>i. fgt (sched s (Suc (pos s) + i)) (freeze_threshold_c m)) [0..<n]"
    by (subst upt_conv_Cons) (simp_all add: map_Suc_upt [symmetric] del: upt_Suc map_Suc_upt)
  with is_throttling_run [OF Suc.prems assms(2)] s' t show ?case
    by (simp add: sbind_def sret_def t_def [symmetric])
qed

end

section \<open>The scripted reader as a source\<close>

definition scripted_ok :: "scripted_reader \<Rightarrow> bool" where
  "scripted_ok r \<longleftrightarrow> script r \<noteq> []"

definition scripted_temp :: "scripted_reader \<Rightarrow> nat \<Rightarrow> pyfloat" where
  "scripted_temp r k = script r ! min k (length (script r) - 1)"

text \<open>A clock that leaves the reader alone, whatever time it shows.\<close>

interpretation scripted: scheduled_source scripted_call "\<lambda>r. (now, r)" scripted_ok
    scripted_temp script_idx
  for now :: pyfloat
  by unfold_locales (auto simp: scripted_call_def scripted_ok_def scripted_temp_def fun_eq_iff)

interpretation default_source: temperature_source default_reader "\<lambda>s. (now, s)" "\<lambda>_. True" "\<lambda>_. Fin 25"
  for now :: pyfloat
  by unfold_locales (auto simp: default_reader_def sret_def)

lemma scripted_init_ok: "scripted_init xs = Inr r \<Longrightarrow> scripted_ok r \<and> script r = xs \<and> script_idx r = 0"
  by (auto simp: scripted_init_def scripted_ok_def split: if_splits)

section \<open>Properties\<close>

text \<open>
  The constructor of the monitor accepts exactly the finite freeze ratios in (0, 1], and
  raises a ValueError for every other float, NaN and the infinities included.
\<close>

lemma monitor_init_ratio:
  "monitor_init rd threshold ratio =
     (case ratio of
        Fin x \<Rightarrow> if 0 < x \<and> x \<le> 1
                 then Inr \<lparr>mon_reader = case_option default_reader id rd,
                           freeze_threshold_c = threshold, freeze_ratio = Fin x\<rparr>
                 else Inl ValueError
      | _ \<Rightarrow> Inl ValueError)"
  by (cases ratio; cases rd) (auto simp: monitor_init_def)

text \<open>
  Any number of throttling checks against a scripted reader: the \<open>i\<close>-th check compares
  the \<open>i\<close>-th temperature of the script with the threshold, or the last one once the script is
  used up; no check raises.
\<close>

lemma scripted_checks:
  assumes "scripted_init xs = Inr r" and "mon_reader m = scripted_call"
  shows "fst (throttle_decisions n (\<lambda>r. (now, r)) m r) =
    Inr (map (\<lambda>i. fgt (xs ! min i (length xs - 1)) (freeze_threshold_c m)) [0..<n])"
  using scripted.throttle_decisions_run [of r m n now] scripted_init_ok [OF assms(1)] assms(2)
  by (auto simp: scripted_temp_def)

lemma scripted_checks_example:
  "fst (throttle_decisions 4 (\<lambda>r. (Fin 0, r))
      \<lparr>mon_reader = scripted_call, freeze_threshold_c = Fin 75, freeze_ratio = Fin (1 / 4)\<rparr>
      \<lparr>script = [Fin 60, Fin 80, Fin 90], script_idx = 0\<rparr>) = Inr [False, True, True, True]"
  using scripted_checks [of "[Fin 60, Fin 80, Fin 90]"
      "\<lparr>script = [Fin 60, Fin 80, Fin 90], script_idx = 0\<rparr>"
      "\<lparr>mon_reader = scripted_call, freeze_threshold_c = Fin 75, freeze_ratio = Fin (1 / 4)\<rparr>"
      4 "Fin 0"]
  by (simp add: scripted_init_def upt_rec)

end
