(* ===== verification/PluginLayer.thy ===== *)
theory PluginLayer
  imports Thermal
begin

text \<open>
  \<^verbatim>\<open>src/python/msp/plugin_layer.py\<close>: the adapter layer over a frozen linear layer. What PyTorch
  computes on tensor data is a parameter of the model (the record \<open>torch_ops\<close> over an abstract
  type of tensor values); the layer's own logic is modelled in full: construction and the
  initial parameters, the routing gate and the forward pass, the gradient hooks that
  \<^verbatim>\<open>gate_gradients\<close> registers and \<^verbatim>\<open>clear_gradient_gate\<close> removes, what a hook does to a gradient,
  and the byte count. A parameter carries its hooks, in registration order, under the handle
  ids that \<^verbatim>\<open>register_hook\<close> hands out.
\<close>

section \<open>Tensors, parameters and layers\<close>

record dtype =
  dt_name :: string
  itemsize :: nat

text \<open>The gradient of a two-dimensional parameter, row by row.\<close>

type_synonym gradient = "pyfloat list list"

text \<open>A hook installed by \<^verbatim>\<open>gate_gradients\<close> (stride, number of rows, monitor), or another's.\<close>

datatype 's grad_hook =
    Gate int nat "'s thermal_monitor"
  | Foreign "gradient \<Rightarrow> gradient"

record ('s, 'd) parameter =
  p_shape :: "nat \<times> nat"
  p_dtype :: dtype
  p_data :: 'd
  requires_grad :: bool
  p_hooks :: "(nat \<times> 's grad_hook) list"

record ('s, 'd) linear =
  weight :: "('s, 'd) parameter"
  bias :: "('s, 'd) parameter option"

datatype which_param = ParamA | ParamB

record ('s, 'd) plugin_layer =
  base_layer :: "('s, 'd) linear"
  rank :: int
  matrix_A :: "('s, 'd) parameter"
  matrix_B :: "('s, 'd) parameter"
  scaling :: pyfloat
  routing_gate_enabled :: bool
  gate_handles :: "(which_param \<times> nat) list"

text \<open>
  What the layer asks of PyTorch; operations that check shapes can raise. Random initial values are
  drawn from the default generator: \<open>rng\<close> is its state, as a number, which a draw takes and leaves
  behind changed.
\<close>

type_synonym rng = nat

record ('s, 'd) torch_ops =
  t_empty :: "nat \<times> nat \<Rightarrow> dtype \<Rightarrow> 'd"
  t_zeros :: "nat \<times> nat \<Rightarrow> dtype \<Rightarrow> 'd"
  t_kaiming_uniform :: "rng \<Rightarrow> 'd \<Rightarrow> 'd \<times> rng"
  t_zero_fill :: "'d \<Rightarrow> 'd"
  t_base :: "('s, 'd) linear \<Rightarrow> 'd \<Rightarrow> 'd result"
  t_dtype :: "'d \<Rightarrow> dtype"
  t_to :: "dtype \<Rightarrow> 'd \<Rightarrow> 'd"
  t_transpose :: "'d \<Rightarrow> 'd"
  t_matmul :: "'d \<Rightarrow> 'd \<Rightarrow> 'd result"
  t_scale :: "'d \<Rightarrow> pyfloat \<Rightarrow> 'd"
  t_add :: "'d \<Rightarrow> 'd \<Rightarrow> 'd result"
  t_on_cuda :: "'d \<Rightarrow> bool"
  t_in_stream :: "'d result \<Rightarrow> 'd result"

section \<open>Construction\<close>

definition new_parameter :: "nat \<times> nat \<Rightarrow> dtype \<Rightarrow> 'd \<Rightarrow> ('s, 'd) parameter" where
  "new_parameter shape dt d =
     \<lparr>p_shape = shape, p_dtype = dt, p_data = d, requires_grad = True, p_hooks = []\<rparr>"

definition freeze_linear :: "('s, 'd) linear \<Rightarrow> ('s, 'd) linear" where
  "freeze_linear l =
     l\<lparr>weight := (weight l)\<lparr>requires_grad := False\<rparr>,
       bias := map_option (\<lambda>b. b\<lparr>requires_grad := False\<rparr>) (bias l)\<rparr>"

definition reset_parameters ::
  "('s, 'd) torch_ops \<Rightarrow> ('s, 'd) plugin_layer \<Rightarrow> rng \<Rightarrow> ('s, 'd) plugin_layer \<times> rng" where
  "reset_parameters ops l g =
     (let (a, g) = t_kaiming_uniform ops g (p_data (matrix_A l))
      in (l\<lparr>matrix_A := (matrix_A l)\<lparr>p_data := a\<rparr>,
            matrix_B := (matrix_B l)\<lparr>p_data := t_zero_fill ops (p_data (matrix_B l))\<rparr>\<rparr>, g))"

text \<open>
  The constructor runs on the generator; each construction draws its own first matrix. Linear
  layers are values here: the constructor writes \<^verbatim>\<open>requires_grad\<close> of the object it is given, so
  after it returned, \<open>base_layer\<close> of the result is what that object has become, for all who hold
  it. No code of the repository reads the flag, and on an object that is frozen already, as all
  bases of the end-to-end program are, the write changes nothing (\<open>layer_init_base\<close>).
\<close>

definition layer_init ::
  "('s, 'd) torch_ops \<Rightarrow> ('s, 'd) linear \<Rightarrow> int \<Rightarrow> pyfloat \<Rightarrow> dtype option \<Rightarrow>
   (rng, ('s, 'd) plugin_layer) prog" where
  "layer_init ops base r alpha dt g =
     (if r \<le> 0 then (Inl ValueError, g)
      else
        (let base = freeze_linear base;
             (out_f, in_f) = p_shape (weight base);
             adapter_dtype = (case dt of Some d \<Rightarrow> d | None \<Rightarrow> p_dtype (weight base));
             A = new_parameter (nat r, in_f) adapter_dtype (t_empty ops (nat r, in_f) adapter_dtype);
             B = new_parameter (out_f, nat r) adapter_dtype (t_zeros ops (out_f, nat r) adapter_dtype)
         in case rbind (float_of_int r) (fdiv alpha) of
              Inl e \<Rightarrow> (Inl e, g)
            | Inr sc \<Rightarrow>
                (let (l, g) = reset_parameters ops
                   \<lparr>base_layer = base, rank = r, matrix_A = A, matrix_B = B, scaling = sc,
                     routing_gate_enabled = True, gate_handles = []\<rparr> g
                 in (Inr l, g))))"

section \<open>The forward pass\<close>

definition forward ::
  "('s, 'd) torch_ops \<Rightarrow> ('s, 'd) plugin_layer \<Rightarrow> 'd \<Rightarrow> 'd result" where
  "forward ops l x =
     rbind (t_base ops (base_layer l) x)
       (\<lambda>base_out.
          if \<not> routing_gate_enabled l then Inr base_out
          else
            (let plugin_in = t_to ops (p_dtype (matrix_A l)) x
             in rbind (t_matmul ops plugin_in (t_transpose ops (p_data (matrix_A l))))
                  (\<lambda>h. rbind (t_matmul ops h (t_transpose ops (p_data (matrix_B l))))
                    (\<lambda>y. let adapter_out = t_scale ops y (scaling l)
                         in t_add ops base_out (t_to ops (t_dtype ops base_out) adapter_out)))))"

definition forward_sync ::
  "('s, 'd) torch_ops \<Rightarrow> ('s, 'd) plugin_layer \<Rightarrow> 'd \<Rightarrow> 'd result" where
  "forward_sync ops l x =
     (if t_on_cuda ops x then t_in_stream ops (forward ops l x) else forward ops l x)"

text \<open>Awaiting the executor's future gives the result, or raises the exception, of the call.\<close>

definition forward_async ::
  "('s, 'd) torch_ops \<Rightarrow> ('s, 'd) plugin_layer \<Rightarrow> 'd \<Rightarrow> 'd result" where
  "forward_async ops l x = forward_sync ops l x"

section \<open>Gradient gating\<close>

text \<open>
  The operations work on the layer and on the counter of hook handles, which PyTorch keeps for
  the whole process.
\<close>

type_synonym ('s, 'd) gating = "('s, 'd) plugin_layer \<times> nat"

definition hooks_of :: "which_param \<Rightarrow> ('s, 'd) plugin_layer \<Rightarrow> (nat \<times> 's grad_hook) list" where
  "hooks_of w l = p_hooks (case w of ParamA \<Rightarrow> matrix_A l | ParamB \<Rightarrow> matrix_B l)"

definition set_hooks ::
  "which_param \<Rightarrow> (nat \<times> 's grad_hook) list \<Rightarrow> ('s, 'd) plugin_layer \<Rightarrow> ('s, 'd) plugin_layer" where
  "set_hooks w hs l =
     (case w of
        ParamA \<Rightarrow> l\<lparr>matrix_A := (matrix_A l)\<lparr>p_hooks := hs\<rparr>\<rparr>
      | ParamB \<Rightarrow> l\<lparr>matrix_B := (matrix_B l)\<lparr>p_hooks := hs\<rparr>\<rparr>)"

definition remove_handle :: "which_param \<times> nat \<Rightarrow> ('s, 'd) plugin_layer \<Rightarrow> ('s, 'd) plugin_layer" where
  "remove_handle h l =
     set_hooks (fst h) (filter (\<lambda>(i, _). i \<noteq> snd h) (hooks_of (fst h) l)) l"

definition clear_gradient_gate :: "('s, 'd) plugin_layer \<Rightarrow> ('s, 'd) plugin_layer" where
  "clear_gradient_gate l = (fold remove_handle (gate_handles l) l)\<lparr>gate_handles := []\<rparr>"

text \<open>\<^verbatim>\<open>handles.append(param.register_hook(hook))\<close>\<close>

definition register_gate ::
  "which_param \<Rightarrow> 's grad_hook \<Rightarrow> ('s, 'd) gating \<Rightarrow> ('s, 'd) gating" where
  "register_gate w hk = (\<lambda>(l, next_id).
     ((set_hooks w (hooks_of w l @ [(next_id, hk)]) l)
        \<lparr>gate_handles := gate_handles l @ [(w, next_id)]\<rparr>, next_id + 1))"

definition gate_stride :: "'s thermal_monitor \<Rightarrow> int result" where
  "gate_stride m = rbind (fdiv (Fin 1) (freeze_ratio m)) (\<lambda>q. rbind (py_round q) (\<lambda>n. Inr (max 1 n)))"

definition gate_gradients :: "'s thermal_monitor \<Rightarrow> (('s, 'd) gating, unit) prog" where
  "gate_gradients m =
     sbind (supd (\<lambda>(l, i). (clear_gradient_gate l, i)))
       (\<lambda>_ st. case gate_stride m of
           Inl e \<Rightarrow> (Inl e, st)
         | Inr stride \<Rightarrow>
             sbind (supd (\<lambda>(l, i). register_gate ParamA (Gate stride (fst (p_shape (matrix_A l))) m) (l, i)))
               (\<lambda>_. supd (\<lambda>(l, i). register_gate ParamB (Gate stride (fst (p_shape (matrix_B l))) m) (l, i)))
               st)"

text \<open>
  \<^verbatim>\<open>mask[::stride] = True\<close> over \<open>n\<close> rows, and the product of a gradient with the mask: an
  element is multiplied by 1 or by 0. A gradient has the shape of its parameter; the product
  of other shapes is an error.
\<close>

definition gate_mask :: "int \<Rightarrow> nat \<Rightarrow> bool list" where
  "gate_mask stride n = map (\<lambda>i. int i mod stride = 0) [0..<n]"

definition mask_row :: "bool \<Rightarrow> pyfloat list \<Rightarrow> pyfloat list" where
  "mask_row b row = map (\<lambda>v. fmul v (Fin (if b then 1 else 0))) row"

fun run_hook :: "'s clock \<Rightarrow> 's grad_hook \<Rightarrow> gradient \<Rightarrow> ('s, gradient) prog" where
  "run_hook clock (Gate stride n m) grad =
     sbind (is_throttling clock m None)
       (\<lambda>hot. if \<not> hot then sret grad
              else if length grad \<noteq> n then sraise RuntimeError
              else sret (map2 mask_row (gate_mask stride n) grad))"
| "run_hook clock (Foreign f) grad = sret (f grad)"

text \<open>The gradient that reaches a parameter: its hooks run in registration order.\<close>

primrec run_hooks :: "'s clock \<Rightarrow> (nat \<times> 's grad_hook) list \<Rightarrow> gradient \<Rightarrow> ('s, gradient) prog" where
  "run_hooks clock [] grad = sret grad"
| "run_hooks clock (h # hs) grad = sbind (run_hook clock (snd h) grad) (run_hooks clock hs)"

section \<open>Bytes\<close>

definition param_bytes :: "('s, 'd) parameter \<Rightarrow> int" where
  "param_bytes p = int (fst (p_shape p) * snd (p_shape p) * itemsize (p_dtype p))"

definition parameter_bytes :: "('s, 'd) plugin_layer \<Rightarrow> int" where
  "parameter_bytes l = (\<Sum>p\<leftarrow>[matrix_A l, matrix_B l]. param_bytes p)"

lemma freeze_linear_idem [simp]: "freeze_linear (freeze_linear b) = freeze_linear b"
  by (simp add: freeze_linear_def option.map_comp comp_def)

lemma freeze_linear_shape [simp]:
  "p_shape (weight (freeze_linear b)) = p_shape (weight b)"
  "p_dtype (weight (freeze_linear b)) = p_dtype (weight b)"
  by (simp_all add: freeze_linear_def)

text \<open>What the constructor returns, in one equation over the matrix it drew.\<close>

definition built_layer ::
  "('s, 'd) torch_ops \<Rightarrow> ('s, 'd) linear \<Rightarrow> int \<Rightarrow> dtype option \<Rightarrow> pyfloat \<Rightarrow> rng \<Rightarrow> ('s, 'd) plugin_layer" where
  "built_layer ops base r dt sc g =
     (let (out_f, in_f) = p_shape (weight base);
          d = (case dt of Some d \<Rightarrow> d | None \<Rightarrow> p_dtype (weight base))
      in \<lparr>base_layer = freeze_linear base, rank = r,
          matrix_A = new_parameter (nat r, in_f) d (fst (t_kaiming_uniform ops g (t_empty ops (nat r, in_f) d))),
          matrix_B = new_parameter (out_f, nat r) d (t_zero_fill ops (t_zeros ops (out_f, nat r) d)),
          scaling = sc, routing_gate_enabled = True, gate_handles = []\<rparr>)"

lemma layer_init_cases:
  "fst (layer_init ops base r alpha dt g) =
     (if r \<le> 0 then Inl ValueError
      else rbind (float_of_int r) (\<lambda>rf. rbind (fdiv alpha rf) (\<lambda>sc. Inr (built_layer ops base r dt sc g))))"
proof -
  obtain m n where "p_shape (weight base) = (m, n)" by (metis surj_pair)
  then show ?thesis
    by (cases dt) (simp_all add: layer_init_def built_layer_def reset_parameters_def new_parameter_def Let_def
        split_beta rbind_def split: sum.split)
qed

lemma layer_init_built:
  assumes "layer_init ops base r alpha dt g = (Inr l, g')"
  shows "0 < r \<and> (\<exists>rf sc. float_of_int r = Inr rf \<and> fdiv alpha rf = Inr sc \<and> l = built_layer ops base r dt sc g)"
proof -
  have run: "fst (layer_init ops base r alpha dt g) = Inr l" using assms by simp
  then have r: "0 < r" by (cases "r \<le> 0") (simp_all add: layer_init_cases)
  with run have "rbind (float_of_int r) (\<lambda>rf. rbind (fdiv alpha rf)
      (\<lambda>sc. Inr (built_layer ops base r dt sc g))) = Inr l"
    by (simp add: layer_init_cases)
  with r show ?thesis unfolding rbind_Inr_iff by blast
qed

lemma layer_init_returns:
  assumes "0 < r" and "float_of_int r = Inr rf" and "fdiv alpha rf = Inr sc"
  shows "\<exists>g'. layer_init ops base r alpha dt g = (Inr (built_layer ops base r dt sc g), g')"
  using layer_init_cases [of ops base r alpha dt g] assms
  by (cases "layer_init ops base r alpha dt g") (simp del: fdiv.simps)

lemma built_layer_fields:
  "base_layer (built_layer ops base r dt sc g) = freeze_linear base" "rank (built_layer ops base r dt sc g) = r"
  "scaling (built_layer ops base r dt sc g) = sc" "routing_gate_enabled (built_layer ops base r dt sc g)"
  "gate_handles (built_layer ops base r dt sc g) = []" "hooks_of w (built_layer ops base r dt sc g) = []"
  "p_shape (matrix_A (built_layer ops base r dt sc g)) = (nat r, snd (p_shape (weight base)))"
  "p_shape (matrix_B (built_layer ops base r dt sc g)) = (fst (p_shape (weight base)), nat r)"
  "p_dtype (matrix_A (built_layer ops base r dt sc g)) = case_option (p_dtype (weight base)) id dt"
  "p_dtype (matrix_B (built_layer ops base r dt sc g)) = case_option (p_dtype (weight base)) id dt"
  "requires_grad (matrix_A (built_layer ops base r dt sc g))" "requires_grad (matrix_B (built_layer ops base r dt sc g))"
  "p_hooks (matrix_A (built_layer ops base r dt sc g)) = []" "p_hooks (matrix_B (built_layer ops base r dt sc g)) = []"
  by (simp_all add: built_layer_def Let_def split_beta new_parameter_def hooks_of_def split: option.split which_param.split)

text \<open>An error of the constructor comes before the draw.\<close>

lemma layer_init_error: "layer_init ops base r alpha dt g = (Inl e, g') \<Longrightarrow> g' = g"
  by (auto simp: layer_init_def Let_def split_beta split: if_splits sum.splits)

lemma layer_init_base:
  assumes "layer_init ops base r alpha dt g = (Inr l, g')"
  shows "base_layer l = freeze_linear base" "freeze_linear base = base \<Longrightarrow> base_layer l = base"
  using layer_init_built [OF assms] by (auto simp: built_layer_fields)

section \<open>Lemmas about hooks\<close>

lemma hooks_of_set_hooks [simp]:
  "hooks_of w (set_hooks v hs l) = (if w = v then hs else hooks_of w l)"
  by (cases w; cases v) (simp_all add: hooks_of_def set_hooks_def)

lemma hooks_of_none:
  "(\<forall>w. hooks_of w l = []) \<longleftrightarrow> p_hooks (matrix_A l) = [] \<and> p_hooks (matrix_B l) = []"
  by (metis hooks_of_def which_param.case(1) which_param.case(2) which_param.exhaust)

lemma gate_handles_set_hooks [simp]: "gate_handles (set_hooks w hs l) = gate_handles l"
  by (cases w) (simp_all add: set_hooks_def)

lemma hooks_of_handles [simp]: "hooks_of w (l\<lparr>gate_handles := hs\<rparr>) = hooks_of w l"
  by (simp add: hooks_of_def split: which_param.split)

text \<open>Everything of a layer but its hooks.\<close>

definition unhooked :: "('s, 'd) plugin_layer \<Rightarrow> ('s, 'd) plugin_layer" where
  "unhooked l = (set_hooks ParamA [] (set_hooks ParamB [] l))\<lparr>gate_handles := []\<rparr>"

lemma unhooked_set_hooks [simp]: "unhooked (set_hooks w hs l) = unhooked l"
  by (cases w) (simp_all add: unhooked_def set_hooks_def)

lemma unhooked_handles [simp]: "unhooked (l\<lparr>gate_handles := hs\<rparr>) = unhooked l"
  by (simp add: unhooked_def set_hooks_def)

lemma unhooked_fields:
  assumes "unhooked l = unhooked l'"
  shows "base_layer l = base_layer l'" "rank l = rank l'" "scaling l = scaling l'"
    "routing_gate_enabled l = routing_gate_enabled l'" "parameter_bytes l = parameter_bytes l'"
    "p_shape (matrix_A l) = p_shape (matrix_A l')" "p_shape (matrix_B l) = p_shape (matrix_B l')"
    "p_data (matrix_A l) = p_data (matrix_A l')" "p_data (matrix_B l) = p_data (matrix_B l')"
proof -
  have A: "matrix_A (unhooked x) = (matrix_A x)\<lparr>p_hooks := []\<rparr>"
    and B: "matrix_B (unhooked x) = (matrix_B x)\<lparr>p_hooks := []\<rparr>"
    and R: "base_layer (unhooked x) = base_layer x" "rank (unhooked x) = rank x"
      "scaling (unhooked x) = scaling x" "routing_gate_enabled (unhooked x) = routing_gate_enabled x"
    for x :: "('s, 'd) plugin_layer"
    by (simp_all add: unhooked_def set_hooks_def)
  show "base_layer l = base_layer l'" "rank l = rank l'" "scaling l = scaling l'"
    "routing_gate_enabled l = routing_gate_enabled l'"
    using R [of l] R [of l'] assms by simp_all
  have AA: "(matrix_A l)\<lparr>p_hooks := []\<rparr> = (matrix_A l')\<lparr>p_hooks := []\<rparr>"
    using A [of l] A [of l'] assms by simp
  have BB: "(matrix_B l)\<lparr>p_hooks := []\<rparr> = (matrix_B l')\<lparr>p_hooks := []\<rparr>"
    using B [of l] B [of l'] assms by simp
  show "p_shape (matrix_A l) = p_shape (matrix_A l')" "p_data (matrix_A l) = p_data (matrix_A l')"
    using arg_cong [OF AA, of p_shape] arg_cong [OF AA, of p_data] by simp_all
  show "p_shape (matrix_B l) = p_shape (matrix_B l')" "p_data (matrix_B l) = p_data (matrix_B l')"
    using arg_cong [OF BB, of p_shape] arg_cong [OF BB, of p_data] by simp_all
  show "parameter_bytes l = parameter_bytes l'"
    using arg_cong [OF AA, of param_bytes] arg_cong [OF BB, of param_bytes]
    by (simp add: parameter_bytes_def param_bytes_def)
qed

lemma fold_remove_handle:
  "hooks_of w (fold remove_handle hs l) = filter (\<lambda>(i, _). (w, i) \<notin> set hs) (hooks_of w l) \<and>
   unhooked (fold remove_handle hs l) = unhooked l"
proof (induction hs arbitrary: l)
  case (Cons h hs)
  have "hooks_of w (remove_handle h l) =
      filter (\<lambda>(i, _). (w, i) \<noteq> h) (hooks_of w l)"
    by (cases h) (auto simp: remove_handle_def intro!: filter_cong)
  moreover have "unhooked (remove_handle h l) = unhooked l"
    by (simp add: remove_handle_def)
  ultimately show ?case using Cons.IH [of "remove_handle h l"]
    by (auto simp: case_prod_unfold conj_commute intro!: filter_cong)
qed simp

text \<open>The hooks that are not the layer's own.\<close>

definition foreign_hooks :: "which_param \<Rightarrow> ('s, 'd) plugin_layer \<Rightarrow> (nat \<times> 's grad_hook) list" where
  "foreign_hooks w l = filter (\<lambda>(i, _). (w, i) \<notin> set (gate_handles l)) (hooks_of w l)"

lemma clear_gradient_gate_facts [simp]:
  "hooks_of w (clear_gradient_gate l) = foreign_hooks w l"
  "gate_handles (clear_gradient_gate l) = []"
  "unhooked (clear_gradient_gate l) = unhooked l"
  by (simp_all add: clear_gradient_gate_def fold_remove_handle foreign_hooks_def)

lemma foreign_clear [simp]: "foreign_hooks w (clear_gradient_gate l) = foreign_hooks w l"
  by (simp add: foreign_hooks_def [of w "clear_gradient_gate l"])

lemma plugin_layer_eqI:
  assumes "unhooked l = unhooked l'" and "\<And>w. hooks_of w l = hooks_of w l'"
    and "gate_handles l = gate_handles l'"
  shows "l = l'"
proof -
  have rebuild: "x = (set_hooks ParamA (hooks_of ParamA x)
      (set_hooks ParamB (hooks_of ParamB x) (unhooked x)))\<lparr>gate_handles := gate_handles x\<rparr>"
    for x :: "('s, 'd) plugin_layer"
    by (simp add: unhooked_def set_hooks_def hooks_of_def)
  show ?thesis using rebuild [of l] rebuild [of l'] assms by simp
qed

text \<open>Handle ids in use are below the counter.\<close>

definition ids_below :: "nat \<Rightarrow> ('s, 'd) plugin_layer \<Rightarrow> bool" where
  "ids_below n l \<longleftrightarrow> (\<forall>w. \<forall>h \<in> set (hooks_of w l). fst h < n)"

lemma gate_gradients_run:
  assumes "gate_stride m = Inr k"
  shows "\<exists>l'. gate_gradients m (l, n) = (Inr (), (l', n + 2)) \<and>
    hooks_of ParamA l' = foreign_hooks ParamA l @ [(n, Gate k (fst (p_shape (matrix_A l))) m)] \<and>
    hooks_of ParamB l' = foreign_hooks ParamB l @ [(n + 1, Gate k (fst (p_shape (matrix_B l))) m)] \<and>
    gate_handles l' = [(ParamA, n), (ParamB, n + 1)] \<and> unhooked l' = unhooked l"
proof -
  define c where "c = clear_gradient_gate l"
  have sh: "p_shape (matrix_A c) = p_shape (matrix_A l)" "p_shape (matrix_B c) = p_shape (matrix_B l)"
    by (rule unhooked_fields, simp add: c_def)+
  define ga where "ga = register_gate ParamA (Gate k (fst (p_shape (matrix_A l))) m) (c, n)"
  have B: "matrix_B (fst ga) = matrix_B c"
    by (simp add: ga_def register_gate_def set_hooks_def)
  define l' where "l' = fst (register_gate ParamB (Gate k (fst (p_shape (matrix_B l))) m) ga)"
  have "gate_gradients m (l, n) = (Inr (), (l', n + 2))"
    using assms sh B
    by (simp add: gate_gradients_def sbind_def supd_def l'_def c_def [symmetric] case_prod_unfold)
      (simp add: ga_def register_gate_def)
  then show ?thesis
    by (intro exI [of _ l'])
      (auto simp: l'_def ga_def register_gate_def c_def)
qed

lemma gate_gradients_error:
  "gate_stride m = Inl e \<Longrightarrow> gate_gradients m (l, n) = (Inl e, (clear_gradient_gate l, n))"
  by (simp add: gate_gradients_def sbind_def supd_def)

text \<open>Once gated with fresh handles, a layer's other hooks are what they were.\<close>

lemma foreign_after_gate:
  assumes "gate_stride m = Inr k" and "ids_below n l" and "gate_gradients m (l, n) = (Inr (), (l', n'))"
  shows "foreign_hooks w l' = foreign_hooks w l"
proof -
  obtain l2 where l2: "gate_gradients m (l, n) = (Inr (), (l2, n + 2))"
    "hooks_of ParamA l2 = foreign_hooks ParamA l @ [(n, Gate k (fst (p_shape (matrix_A l))) m)]"
    "hooks_of ParamB l2 = foreign_hooks ParamB l @ [(n + 1, Gate k (fst (p_shape (matrix_B l))) m)]"
    "gate_handles l2 = [(ParamA, n), (ParamB, n + 1)]"
    using gate_gradients_run [OF assms(1), of l n] by blast
  then have [simp]: "l2 = l'" using assms(3) by simp
  have "\<forall>h \<in> set (foreign_hooks v l). fst h < n" for v
    using assms(2) by (fastforce simp: foreign_hooks_def ids_below_def)
  then have "filter (\<lambda>(i, _). i \<noteq> n) (foreign_hooks v l) = foreign_hooks v l"
    "filter (\<lambda>(i, _). i \<noteq> n + 1) (foreign_hooks v l) = foreign_hooks v l" for v
    by (force intro!: filter_True)+
  then show ?thesis using l2(2-4)
    by (cases w) (simp_all add: foreign_hooks_def [of _ l'])
qed

section \<open>Lemmas about masks\<close>

lemma length_gate_mask [simp]: "length (gate_mask k n) = n"
  by (simp add: gate_mask_def)

lemma nth_gate_mask: "i < n \<Longrightarrow> gate_mask k n ! i \<longleftrightarrow> k dvd int i"
  by (simp add: gate_mask_def dvd_eq_mod_eq_0)

lemma gate_mask_Suc: "gate_mask k (Suc n) = gate_mask k n @ [k dvd int n]"
  by (simp add: gate_mask_def dvd_eq_mod_eq_0)

lemma ceiling_div_Suc:
  assumes "0 < (k::int)" and "0 \<le> n"
  shows "(n + 1 + k - 1) div k = (n + k - 1) div k + (if k dvd n then 1 else 0)"
proof (cases "k dvd n")
  case True
  then obtain q where q: "n = k * q" by (rule dvdE)
  have "(k * q + k) div k = q + 1" using assms(1) by simp
  moreover have "(k * q + (k - 1)) div k = q" using assms(1) by simp
  ultimately show ?thesis using True q by (simp add: algebra_simps)
next
  case False
  define q r where "q = n div k" and "r = n mod k"
  have "r \<noteq> 0" using False by (simp add: r_def dvd_eq_mod_eq_0)
  then have n: "n = k * q + r" and r: "0 < r" "r < k"
    using pos_mod_sign [OF assms(1), of n] pos_mod_bound [OF assms(1), of n]
    by (simp_all add: q_def r_def)
  have *: "(k * q + t) div k = q + 1" if "k \<le> t" "t < 2 * k" for t
  proof -
    have "(k * q + t) div k = q + t div k" using assms(1) by simp
    also have "t div k = (t - k) div k + 1" using assms(1) div_add_self1 [of k "t - k"] by simp
    also have "(t - k) div k = 0" using that by (intro div_pos_pos_trivial) simp_all
    finally show ?thesis by simp
  qed
  have "(n + 1 + k - 1) div k = q + 1" "(n + k - 1) div k = q + 1"
    using *[of "r + k"] *[of "r + k - 1"] r by (simp_all add: n algebra_simps)
  with False show ?thesis by simp
qed

lemma gate_mask_count:
  assumes "0 < k"
  shows "int (length (filter (\<lambda>b. b) (gate_mask k n))) = (int n + k - 1) div k"
proof (induction n)
  case 0
  have "(k - 1) div k = 0" using assms by (intro div_pos_pos_trivial) simp_all
  then show ?case by (simp add: gate_mask_def)
next
  case (Suc n)
  have "int (length (filter (\<lambda>b. b) (gate_mask k (Suc n)))) =
      (int n + k - 1) div k + (if k dvd int n then 1 else 0)"
    using Suc by (simp add: gate_mask_Suc)
  also have "\<dots> = (int n + 1 + k - 1) div k"
    using ceiling_div_Suc [OF assms, of "int n"] by simp
  finally show ?case by (simp add: algebra_simps)
qed

lemma fmul_one: "float_ok v \<Longrightarrow> fmul v (Fin 1) = v"
proof (cases v)
  case (Fin x)
  assume "float_ok v"
  with Fin have "to_float x = Fin x" by (intro to_float_Fin) auto
  with Fin show ?thesis by simp
qed (simp_all add: inf_of_sign_def)

lemma fmul_zero: "fmul v (Fin 0) = (if finite_float v then Fin 0 else NaN)"
proof -
  have "to_float 0 = Fin 0" by (rule to_float_Fin) simp_all
  then show ?thesis by (cases v) (simp_all add: inf_of_sign_def)
qed

lemma mask_row_True: "\<forall>v \<in> set row. float_ok v \<Longrightarrow> mask_row True row = row"
  by (auto simp: mask_row_def fmul_one intro: map_idI)

lemma mask_row_False:
  "mask_row False row = map (\<lambda>v. if finite_float v then Fin 0 else NaN) row"
  by (simp add: mask_row_def fmul_zero)

lemma gate_stride_pos: "gate_stride m = Inr k \<Longrightarrow> 1 \<le> k"
  by (auto simp: gate_stride_def rbind_Inr_iff)

text \<open>The stride of a finite ratio whose reciprocal rounds to \<open>y\<close>.\<close>

lemma gate_stride_eq:
  assumes "freeze_ratio m = Fin x" and "x \<noteq> 0" and "round53 (1 / x) = y" and "\<bar>y\<bar> < 2 ^ 1024"
  shows "gate_stride m = Inr (max 1 (round_half_even y))"
  using assms to_float_Fin [OF assms(3,4)] by (simp add: gate_stride_def)

section \<open>An example layer\<close>

text \<open>
  Rational matrices with their shape stand for tensors: an instance of the tensor operations
  for which their documented behaviour can be checked.
\<close>

type_synonym matrix = "(nat \<times> nat) \<times> (nat \<Rightarrow> nat \<Rightarrow> rat)"

fun rat_of_float :: "pyfloat \<Rightarrow> rat" where
  "rat_of_float (Fin q) = q"
| "rat_of_float _ = 0"

definition example_dtype :: dtype where
  "example_dtype = \<lparr>dt_name = ''float32'', itemsize = 4\<rparr>"

definition example_matmul :: "matrix \<Rightarrow> matrix \<Rightarrow> matrix result" where
  "example_matmul a b =
     (if snd (fst a) \<noteq> fst (fst b) then Inl RuntimeError
      else Inr ((fst (fst a), snd (fst b)),
                \<lambda>i j. \<Sum>k < snd (fst a). snd a i k * snd b k j))"

definition example_add :: "matrix \<Rightarrow> matrix \<Rightarrow> matrix result" where
  "example_add a b =
     (if fst a \<noteq> fst b then Inl RuntimeError
      else Inr (fst a, \<lambda>i j. snd a i j + snd b i j))"

definition example_transpose :: "matrix \<Rightarrow> matrix" where
  "example_transpose a = (prod.swap (fst a), \<lambda>i j. snd a j i)"

definition example_ops :: "(scripted_reader, matrix) torch_ops" where
  "example_ops =
     \<lparr>t_empty = (\<lambda>sh dt. (sh, \<lambda>_ _. 7)), t_zeros = (\<lambda>sh dt. (sh, \<lambda>_ _. 0)),
      t_kaiming_uniform = (\<lambda>g a. ((fst a, \<lambda>i j. 1 / (1 + of_nat (g + i) + of_nat j)), g + 1)),
      t_zero_fill = (\<lambda>a. (fst a, \<lambda>_ _. 0)),
      t_base = (\<lambda>lin x. rbind (example_matmul x (example_transpose (p_data (weight lin))))
                  (\<lambda>y. Inr ((fst (fst x), fst (p_shape (weight lin))), snd y))),
      t_dtype = (\<lambda>_. example_dtype), t_to = (\<lambda>_ a. a), t_transpose = example_transpose,
      t_matmul = example_matmul, t_scale = (\<lambda>a c. (fst a, \<lambda>i j. snd a i j * rat_of_float c)),
      t_add = example_add, t_on_cuda = (\<lambda>_. False), t_in_stream = (\<lambda>c. c)\<rparr>"

definition example_linear :: "(scripted_reader, matrix) linear" where
  "example_linear =
     \<lparr>weight = new_parameter (3, 4) example_dtype ((3, 4), \<lambda>i j. of_nat (i + 2 * j)), bias = None\<rparr>"

definition example_layer :: "(scripted_reader, matrix) plugin_layer" where
  "example_layer =
     \<lparr>base_layer = freeze_linear example_linear, rank = 6,
      matrix_A = new_parameter (6, 4) example_dtype ((6, 4), \<lambda>i j. 1 / (1 + of_nat i + of_nat j)),
      matrix_B = new_parameter (3, 6) example_dtype ((3, 6), \<lambda>_ _. 0),
      scaling = Fin 2, routing_gate_enabled = True, gate_handles = []\<rparr>"

lemma example_layer_init: "layer_init example_ops example_linear 6 (Fin 12) None 0 = (Inr example_layer, 1)"
proof -
  have "float_of_int 6 = Inr (Fin 6)" using float_of_int_exact [of 6] by simp
  moreover have "to_float 2 = Fin 2"
    using to_float_dyadic [OF dyadic53_of_int [of 2]] by simp
  ultimately show ?thesis
    by (simp add: layer_init_def example_layer_def example_linear_def freeze_linear_def
        new_parameter_def example_ops_def reset_parameters_def)
qed

definition example_monitor :: "scripted_reader thermal_monitor" where
  "example_monitor =
     \<lparr>mon_reader = scripted_call, freeze_threshold_c = Fin 75, freeze_ratio = default_freeze_ratio\<rparr>"

definition example_hot :: scripted_reader where
  "example_hot = \<lparr>script = [Fin 80], script_idx = 0\<rparr>"

lemma example_is_hot:
  "is_throttling (\<lambda>r. (Fin 0, r)) example_monitor None example_hot =
     (Inr True, \<lparr>script = [Fin 80], script_idx = 1\<rparr>)"
  by (simp add: is_throttling_def reading_or_read_def monitor_read_def sbind_def sret_def
      example_monitor_def example_hot_def scripted_call_def)

lemma default_stride:
  assumes "freeze_ratio m = default_freeze_ratio"
  shows "gate_stride m = Inr 5"
proof -
  have "round53 (1 / (3602879701896397 / 18014398509481984)) = 5"
    by (rule trans [OF round53_eqI [of _ 50 "5 * 2 ^ 50"]]) simp_all
  moreover have "round_half_even 5 = 5" using round_half_even_of_int [of 5] by simp
  ultimately show ?thesis
    using gate_stride_eq [OF assms [unfolded default_freeze_ratio_eq], of 5] by simp
qed

lemma example_stride: "gate_stride example_monitor = Inr 5"
  by (rule default_stride) (simp add: example_monitor_def)

lemma example_layer_facts:
  "hooks_of w example_layer = []" "foreign_hooks w example_layer = []"
  "p_shape (matrix_A example_layer) = (6, 4)" "p_shape (matrix_B example_layer) = (3, 6)"
  "scaling example_layer = Fin 2"
  by (cases w; simp add: hooks_of_def foreign_hooks_def example_layer_def new_parameter_def)+

section \<open>Properties of gating\<close>

text \<open>
  With the default freeze ratio of 0.2, which no float represents exactly, the stride is
  exactly 5 and a hot matrix of n rows keeps exactly n/5 of them, rounded up: updates drop by
  80 per cent when n is a multiple of 5.
\<close>

lemma default_ratio_stride:
  assumes "freeze_ratio m = default_freeze_ratio"
  shows "gate_stride m = Inr 5 \<and>
    int (length (filter (\<lambda>b. b) (gate_mask 5 n))) = (int n + 4) div 5"
  using default_stride [OF assms] gate_mask_count [of 5 n] by simp

lemma default_ratio_stride_example:
  "gate_stride example_monitor = Inr 5 \<and> int (length (filter (\<lambda>b. b) (gate_mask 5 16))) = 4"
proof -
  have "freeze_ratio example_monitor = default_freeze_ratio" by (simp add: example_monitor_def)
  from default_ratio_stride [OF this, of 16] show ?thesis by simp
qed

text \<open>
  Arming the gate leaves exactly one gate hook of the layer on each matrix, behind the hooks
  of others, whatever was armed before: the earlier gate hooks are gone, the others are kept in
  their order, nothing else of the layer changes, and the two new handles are recorded.
\<close>

lemma gating_installs_one_hook:
  assumes "gate_stride m = Inr k"
  shows "\<exists>l'. gate_gradients m (l, n) = (Inr (), (l', n + 2)) \<and>
    hooks_of ParamA l' = foreign_hooks ParamA l @ [(n, Gate k (fst (p_shape (matrix_A l))) m)] \<and>
    hooks_of ParamB l' = foreign_hooks ParamB l @ [(n + 1, Gate k (fst (p_shape (matrix_B l))) m)] \<and>
    gate_handles l' = [(ParamA, n), (ParamB, n + 1)] \<and> unhooked l' = unhooked l"
  using gate_gradients_run [OF assms] .

lemma gating_installs_one_hook_example:
  "\<exists>l'. gate_gradients example_monitor (example_layer, 7) = (Inr (), (l', 9)) \<and>
     hooks_of ParamA l' = [(7, Gate 5 6 example_monitor)] \<and>
     hooks_of ParamB l' = [(8, Gate 5 3 example_monitor)]"
  using gating_installs_one_hook [OF example_stride, of example_layer 7] example_layer_facts by auto

text \<open>
  Disarming after arming gives back the layer that disarming alone would have given: with
  handle ids that were fresh, no hook of the layer stays behind and no hook of another is lost.
\<close>

lemma gate_then_clear:
  assumes "ids_below n l" and "gate_gradients m (l, n) = (Inr (), (l', n'))"
  shows "clear_gradient_gate l' = clear_gradient_gate l"
proof (rule plugin_layer_eqI)
  obtain k where k: "gate_stride m = Inr k"
    using assms(2) gate_gradients_error [of m _ l n] by (cases "gate_stride m") auto
  show "hooks_of w (clear_gradient_gate l') = hooks_of w (clear_gradient_gate l)" for w
    using foreign_after_gate [OF k assms] by simp
  show "unhooked (clear_gradient_gate l') = unhooked (clear_gradient_gate l)"
    using gate_gradients_run [OF k, of l n] assms(2) by auto
qed simp

lemma gate_then_clear_example:
  "\<exists>l'. gate_gradients example_monitor (example_layer, 7) = (Inr (), (l', 9)) \<and>
     clear_gradient_gate l' = clear_gradient_gate example_layer"
proof -
  obtain l' where l': "gate_gradients example_monitor (example_layer, 7) = (Inr (), (l', 9))"
    using gate_gradients_run [OF example_stride, of example_layer 7] by auto
  have "ids_below 7 example_layer" by (simp add: ids_below_def example_layer_facts)
  from gate_then_clear [OF this l'] l' show ?thesis by blast
qed

text \<open>
  C31. A gate hook under a hot reading: the rows whose index is a multiple of the stride keep
  their gradient, and every finite element of the other rows becomes 0.
\<close>

theorem hot_gate_freezes_rows:
  assumes "is_throttling clock m None s = (Inr True, s')" and "length grad = n"
    and "\<forall>row \<in> set grad. \<forall>v \<in> set row. float_ok v \<and> finite_float v"
  shows "\<exists>g. run_hook clock (Gate k n m) grad s = (Inr g, s') \<and> length g = n \<and>
    (\<forall>i < n. g ! i = (if k dvd int i then grad ! i else map (\<lambda>_. Fin 0) (grad ! i)))"
proof (intro exI conjI)
  let ?g = "map2 mask_row (gate_mask k n) grad"
  show "run_hook clock (Gate k n m) grad s = (Inr ?g, s')"
    using assms(1,2) by (simp add: sbind_def sret_def)
  show "length ?g = n" using assms(2) by simp
  show "\<forall>i < n. ?g ! i = (if k dvd int i then grad ! i else map (\<lambda>_. Fin 0) (grad ! i))"
  proof (intro allI impI)
    fix i assume i: "i < n"
    then have "grad ! i \<in> set grad" using assms(2) by simp
    with assms(3) have ok: "\<forall>v \<in> set (grad ! i). float_ok v \<and> finite_float v" by blast
    then have "mask_row True (grad ! i) = grad ! i" by (intro mask_row_True) blast
    moreover have "mask_row False (grad ! i) = map (\<lambda>_. Fin 0) (grad ! i)"
      using ok by (simp add: mask_row_False)
    ultimately show "?g ! i = (if k dvd int i then grad ! i else map (\<lambda>_. Fin 0) (grad ! i))"
      using i assms(2) by (cases "k dvd int i") (simp_all add: nth_gate_mask)
  qed
qed

theorem hot_gate_freezes_rows_witness:
  "\<exists>g. fst (run_hook (\<lambda>r. (Fin 0, r)) (Gate 2 3 example_monitor)
           [[Fin 1, Fin 2], [Fin 3, Fin 4], [Fin 5, Fin 6]] example_hot) = Inr g \<and>
       g ! 0 = [Fin 1, Fin 2] \<and> g ! 1 = [Fin 0, Fin 0] \<and> g ! 2 = [Fin 5, Fin 6]"
proof -
  have ok: "float_ok (Fin (of_int n))" if "\<bar>n\<bar> < 10" for n
  proof -
    have "\<bar>n\<bar> \<le> 2 ^ 53" using that by simp
    from float_of_int_Inr [OF float_of_int_exact [OF this]] show ?thesis by simp
  qed
  have "\<forall>row \<in> set [[Fin 1, Fin 2], [Fin 3, Fin 4], [Fin 5, Fin 6]]. \<forall>v \<in> set row.
      float_ok v \<and> finite_float v"
    using ok [of 1] ok [of 2] ok [of 3] ok [of 4] ok [of 5] ok [of 6] by simp
  from hot_gate_freezes_rows [OF example_is_hot _ this, of 3 2]
  obtain g where "run_hook (\<lambda>r. (Fin 0, r)) (Gate 2 3 example_monitor)
      [[Fin 1, Fin 2], [Fin 3, Fin 4], [Fin 5, Fin 6]] example_hot =
        (Inr g, \<lparr>script = [Fin 80], script_idx = 1\<rparr>)"
    and "\<forall>i < 3. g ! i = (if 2 dvd int i then [[Fin 1, Fin 2], [Fin 3, Fin 4], [Fin 5, Fin 6]] ! i
      else map (\<lambda>_. Fin 0) ([[Fin 1, Fin 2], [Fin 3, Fin 4], [Fin 5, Fin 6]] ! i))"
    by auto
  then show ?thesis by (intro exI [of _ g]) auto
qed

text \<open>
  A frozen row is multiplied by 0, not cleared: a gradient element that is infinite or NaN
  becomes NaN there.
\<close>

lemma frozen_nonfinite_is_nan:
  assumes "is_throttling clock m None s = (Inr True, s')" and "length grad = n"
    and "i < n" and "\<not> k dvd int i" and "j < length (grad ! i)" and "\<not> finite_float (grad ! i ! j)"
  shows "\<exists>g. run_hook clock (Gate k n m) grad s = (Inr g, s') \<and> g ! i ! j = NaN"
proof -
  let ?g = "map2 mask_row (gate_mask k n) grad"
  have "run_hook clock (Gate k n m) grad s = (Inr ?g, s')"
    using assms(1,2) by (simp add: sbind_def sret_def)
  moreover have "?g ! i = mask_row False (grad ! i)"
    using assms(2-4) by (simp add: nth_gate_mask)
  then have "?g ! i ! j = NaN" using assms(5,6) by (simp add: mask_row_False)
  ultimately show ?thesis by blast
qed

lemma frozen_nonfinite_is_nan_example:
  "\<exists>g. run_hook (\<lambda>r. (Fin 0, r)) (Gate 5 2 example_monitor) [[Fin 1], [PInf]] example_hot =
         (Inr g, \<lparr>script = [Fin 80], script_idx = 1\<rparr>) \<and> g ! 1 ! 0 = NaN"
  using frozen_nonfinite_is_nan [OF example_is_hot, of "[[Fin 1], [PInf]]" 2 1 5 0] by simp

text \<open>
  Freeze ratios of 0.7 and more freeze nothing: the stride is 1 and every row stays active,
  however hot the device is.
\<close>

lemma large_ratio_freezes_nothing:
  assumes "freeze_ratio m = Fin x" and "7 / 10 \<le> x" and "x \<le> 1"
  shows "gate_stride m = Inr 1 \<and> gate_mask 1 n = replicate n True"
proof
  define y where "y = round53 (1 / x)"
  have x: "1 \<le> 1 / x" "1 / x \<le> 10 / 7" using assms(2,3) by (simp_all add: field_simps)
  have "round53 1 = 1" using round53_dyadic [OF dyadic53_of_int [of 1]] by simp
  with round53_mono [OF x(1)] have lo: "1 \<le> y" by (simp add: y_def)
  have "dyadic53 (23 / 16)" by (rule dyadic53_I [of _ 4 23]) simp_all
  then have "round53 (23 / 16) = 23 / 16" by (rule round53_dyadic)
  with round53_mono [of "1 / x" "23 / 16"] x(2) have hi: "y \<le> 23 / 16" by (simp add: y_def)
  have "\<lfloor>y\<rfloor> = 1" using lo hi by (simp add: floor_eq_iff)
  then have "round_half_even y = 1" using hi by (simp add: round_half_even_def Let_def)
  moreover have "\<bar>y\<bar> < 2 ^ 1024" 
  proof -
    have "\<bar>y\<bar> \<le> 2" using lo hi by simp
    also have "(2::rat) < 2 ^ 1024" by simp
    finally show ?thesis .
  qed
  ultimately show "gate_stride m = Inr 1"
    using gate_stride_eq [OF assms(1) _ y_def [symmetric]] assms(2) by simp
  show "gate_mask 1 n = replicate n True"
    by (rule nth_equalityI) (simp_all add: nth_gate_mask)
qed

lemma large_ratio_freezes_nothing_example:
  "gate_stride (example_monitor\<lparr>freeze_ratio := Fin (3 / 4)\<rparr>) = Inr 1 \<and>
   gate_mask 1 4 = replicate 4 True"
  using large_ratio_freezes_nothing [of "example_monitor\<lparr>freeze_ratio := Fin (3 / 4)\<rparr>" "3 / 4" 4]
  by simp

text \<open>
  Arming the gate raises an OverflowError for a freeze ratio below the reciprocal of the
  largest float, although the monitor's constructor accepts it; the old hooks are removed
  before the error.
\<close>

lemma tiny_ratio_overflows:
  assumes "freeze_ratio m = Fin x" and "0 < x" and "x \<le> 1 / 2 ^ 1024"
  shows "gate_gradients m (l, n) = (Inl OverflowError, (clear_gradient_gate l, n))"
proof (rule gate_gradients_error)
  have "2 ^ 1024 \<le> 1 / x" using assms(2,3) by (simp add: field_simps)
  moreover have "dyadic53 (2 ^ 1024)"
    unfolding dyadic53_def by (intro exI [of _ 1] exI [of _ 1024]) simp
  then have "round53 (2 ^ 1024) = 2 ^ 1024" by (rule round53_dyadic)
  ultimately have "2 ^ 1024 \<le> round53 (1 / x)" using round53_mono [of "2 ^ 1024" "1 / x"] by simp
  then have "to_float (1 / x) = PInf" by (simp add: to_float_def)
  then show "gate_stride m = Inl OverflowError"
    using assms(1,2) by (simp add: gate_stride_def)
qed

lemma tiny_ratio_overflows_example:
  "fst (gate_gradients (example_monitor\<lparr>freeze_ratio := Fin (1 / 2 ^ 1024)\<rparr>) (example_layer, 0)) =
     Inl OverflowError"
proof -
  have "freeze_ratio (example_monitor\<lparr>freeze_ratio := x\<rparr>) = x" for x by simp
  from tiny_ratio_overflows [OF this, of "1 / 2 ^ 1024" example_layer 0] show ?thesis by simp
qed

section \<open>Properties of the layer\<close>

text \<open>
  Construction raises a ValueError for a rank that is not positive; otherwise, for ranks a
  float can represent, it yields trainable matrices of shapes (rank, in) and (out, rank) in the
  base layer's type unless another is given, an open routing gate, no hooks, a frozen base
  layer, and a byte count of rank times (in + out) elements.
\<close>

lemma layer_construction:
  assumes "\<bar>r\<bar> \<le> 2 ^ 53"
  shows "case fst (layer_init ops base r alpha dt g) of
      Inl e \<Rightarrow> e = ValueError \<and> r \<le> 0
    | Inr l \<Rightarrow> 0 < r \<and> rank l = r \<and> fdiv alpha (Fin (of_int r)) = Inr (scaling l) \<and>
        p_shape (matrix_A l) = (nat r, snd (p_shape (weight base))) \<and>
        p_shape (matrix_B l) = (fst (p_shape (weight base)), nat r) \<and>
        p_dtype (matrix_A l) = case_option (p_dtype (weight base)) id dt \<and>
        p_dtype (matrix_B l) = p_dtype (matrix_A l) \<and>
        requires_grad (matrix_A l) \<and> requires_grad (matrix_B l) \<and>
        \<not> requires_grad (weight (base_layer l)) \<and>
        pred_option (\<lambda>b. \<not> requires_grad b) (bias (base_layer l)) \<and>
        routing_gate_enabled l \<and> gate_handles l = [] \<and> (\<forall>w. hooks_of w l = []) \<and>
        parameter_bytes l = r * int ((fst (p_shape (weight base)) + snd (p_shape (weight base))) *
          itemsize (p_dtype (matrix_A l)))"
proof (cases "r \<le> 0")
  case False
  then have fr: "float_of_int r = Inr (Fin (of_int r))" "(of_int r :: rat) \<noteq> 0"
    using assms by (simp_all add: float_of_int_exact)
  obtain sc where sc: "fdiv alpha (Fin (of_int r)) = Inr sc" using fr(2) by simp
  from False show ?thesis
    unfolding layer_init_cases
    by (cases "bias base")
      (auto simp: fr sc built_layer_fields freeze_linear_def parameter_bytes_def param_bytes_def algebra_simps
        simp del: fdiv.simps)
qed (simp add: layer_init_def)

lemma layer_construction_example:
  "fdiv (Fin 12) (Fin 6) = Inr (scaling example_layer) \<and> parameter_bytes example_layer = 168 \<and>
   \<not> requires_grad (weight (base_layer example_layer))"
proof -
  have lin: "weight example_linear = new_parameter (3, 4) example_dtype ((3, 4), \<lambda>i j. of_nat (i + 2 * j))"
    by (simp add: example_linear_def)
  have "p_dtype (matrix_A example_layer) = example_dtype"
    by (simp add: example_layer_def new_parameter_def)
  with layer_construction [where r = 6 and ops = example_ops and base = example_linear
      and alpha = "Fin 12" and dt = None and g = 0, unfolded example_layer_init fst_conv lin sum.case]
  show ?thesis by (simp add: new_parameter_def example_dtype_def del: fdiv.simps)
qed

text \<open>With the routing gate closed, the layer computes exactly its base layer, errors included.\<close>

lemma closed_gate_is_base:
  "\<not> routing_gate_enabled l \<Longrightarrow> forward ops l x = t_base ops (base_layer l) x"
  by (cases "t_base ops (base_layer l) x") (simp_all add: forward_def)

text \<open>
  Documented behaviour of the tensor operations, on shapes, all-zero tensors and tensors whose
  elements are finite; tensors are compared by value, so the two zeros are equal.
\<close>

definition torch_laws ::
  "('s, 'd) torch_ops \<Rightarrow> ('d \<Rightarrow> nat \<times> nat) \<Rightarrow> ('d \<Rightarrow> bool) \<Rightarrow> ('d \<Rightarrow> bool) \<Rightarrow> bool" where
  "torch_laws ops shp fin zero \<longleftrightarrow>
     (\<forall>sh dt. shp (t_empty ops sh dt) = sh \<and> shp (t_zeros ops sh dt) = sh) \<and>
     (\<forall>g d. shp (fst (t_kaiming_uniform ops g d)) = shp d) \<and>
     (\<forall>d. shp (t_zero_fill ops d) = shp d \<and> zero (t_zero_fill ops d)) \<and>
     (\<forall>d. shp (t_transpose ops d) = prod.swap (shp d) \<and> (zero d \<longrightarrow> zero (t_transpose ops d))) \<and>
     (\<forall>d dt. shp (t_to ops dt d) = shp d \<and> (zero d \<longrightarrow> zero (t_to ops dt d))) \<and>
     (\<forall>d c. shp (t_scale ops d c) = shp d \<and> (zero d \<and> finite_float c \<longrightarrow> zero (t_scale ops d c))) \<and>
     (\<forall>a b. snd (shp a) = fst (shp b) \<longrightarrow>
        (\<exists>y. t_matmul ops a b = Inr y \<and> shp y = (fst (shp a), snd (shp b)) \<and>
             (fin a \<and> zero b \<longrightarrow> zero y))) \<and>
     (\<forall>b z. zero z \<and> shp z = shp b \<longrightarrow> t_add ops b z = Inr b) \<and>
     (\<forall>lin x y. t_base ops lin x = Inr y \<longrightarrow> shp y = (fst (shp x), fst (p_shape (weight lin))))"

text \<open>
  C36. A freshly constructed layer computes exactly its base layer, although its gate is open and
  whatever the random initial value of the first matrix is, as long as the input times that
  matrix has finite elements: the second matrix starts at zero.
\<close>

theorem fresh_layer_is_base:
  assumes laws: "torch_laws ops shp fin zero"
    and init: "layer_init ops base r alpha dt g = (Inr l, g')"
    and sc: "finite_float (scaling l)"
    and x: "shp x = (batch, snd (p_shape (weight base)))"
    and b: "t_base ops (base_layer l) x = Inr b"
    and hid: "\<And>h. t_matmul ops (t_to ops (p_dtype (matrix_A l)) x)
        (t_transpose ops (p_data (matrix_A l))) = Inr h \<Longrightarrow> fin h"
  shows "forward ops l x = Inr b"
proof -
  note L = laws [unfolded torch_laws_def]
  have shapes: "shp (p_data (matrix_A l)) = (nat r, snd (p_shape (weight base)))"
    "shp (p_data (matrix_B l)) = (fst (p_shape (weight base)), nat r)"
    "zero (p_data (matrix_B l))" "p_shape (weight (base_layer l)) = p_shape (weight base)"
    "routing_gate_enabled l"
    using layer_init_built [OF init] L
    by (auto simp: built_layer_def Let_def split_beta new_parameter_def)
  let ?A = "t_transpose ops (p_data (matrix_A l))" and ?B = "t_transpose ops (p_data (matrix_B l))"
  let ?x = "t_to ops (p_dtype (matrix_A l)) x"
  have shx: "shp ?x = (batch, snd (p_shape (weight base)))" using L x by simp
  have shA: "shp ?A = (snd (p_shape (weight base)), nat r)" using L shapes(1) by simp
  have shB: "shp ?B = (nat r, fst (p_shape (weight base)))" "zero ?B" using L shapes(2,3) by simp_all
  have mm: "snd (shp a) = fst (shp c) \<Longrightarrow>
      \<exists>y. t_matmul ops a c = Inr y \<and> shp y = (fst (shp a), snd (shp c)) \<and> (fin a \<and> zero c \<longrightarrow> zero y)"
    for a c using L by blast
  obtain h where h: "t_matmul ops ?x ?A = Inr h" "shp h = (batch, nat r)"
    using mm [of ?x ?A] shx shA by auto
  obtain y where y: "t_matmul ops h ?B = Inr y" "shp y = (batch, fst (p_shape (weight base)))" "zero y"
    using mm [of h ?B] h shB hid [OF h(1)] by auto
  let ?z = "t_to ops (t_dtype ops b) (t_scale ops y (scaling l))"
  have z: "zero ?z" "shp ?z = (batch, fst (p_shape (weight base)))" using L y sc by simp_all
  have "shp b = (batch, fst (p_shape (weight base)))" using L b x shapes(4) by auto
  with z have "t_add ops b ?z = Inr b" using L by simp
  with b h(1) y(1) shapes(5) show ?thesis by (simp add: forward_def Let_def)
qed

lemma example_torch_laws:
  "torch_laws example_ops fst (\<lambda>_. True) (\<lambda>a. snd a = (\<lambda>_ _. 0))"
proof -
  have add: "example_add b z = Inr b" if "snd z = (\<lambda>_ _. 0)" "fst z = fst b" for b z
    using that by (simp add: example_add_def)
  have mm: "\<exists>y. example_matmul a b = Inr y \<and> fst y = (fst (fst a), snd (fst b)) \<and>
      (snd b = (\<lambda>_ _. 0) \<longrightarrow> snd y = (\<lambda>_ _. 0))" if "snd (fst a) = fst (fst b)" for a b
    using that by (simp add: example_matmul_def)
  show ?thesis
    unfolding torch_laws_def
    by (intro conjI allI impI)
      (auto simp: example_ops_def add example_transpose_def rbind_Inr_iff dest!: mm)
qed

theorem fresh_layer_is_base_witness:
  "\<exists>b. t_base example_ops (base_layer example_layer) ((2, 4), \<lambda>_ _. 1) = Inr b \<and>
       forward example_ops example_layer ((2, 4), \<lambda>_ _. 1) = Inr b"
proof -
  obtain b where b: "t_base example_ops (base_layer example_layer) ((2, 4), \<lambda>_ _. 1) = Inr b"
    by (simp add: example_ops_def example_layer_def freeze_linear_def
        example_linear_def new_parameter_def example_matmul_def example_transpose_def)
  have "finite_float (scaling example_layer)" by (simp add: example_layer_facts)
  from fresh_layer_is_base [OF example_torch_laws example_layer_init this _ b, of 2] b
  show ?thesis by (simp add: example_linear_def new_parameter_def)
qed

text \<open>
  The asynchronous call returns what the plain forward pass returns, on CUDA as elsewhere,
  provided that running a computation on a stream and waiting for it does not change its
  result.
\<close>

lemma async_forward_agrees:
  "(\<And>c. t_in_stream ops c = c) \<Longrightarrow> forward_async ops l x = forward ops l x"
  by (simp add: forward_async_def forward_sync_def)

end
