(* ===== verification/Elora.thy ===== *)
theory Elora
  imports Prelude "HOL-Library.Word" "HOL-Library.Multiset"
begin

text \<open>
  \<^verbatim>\<open>src/cpp/elora_allocator.cpp\<close> and its binding \<^verbatim>\<open>src/cpp/bindings.cpp\<close>: the allocator that
  binds memory blocks to the adapter that owns them. The host's \<^verbatim>\<open>malloc\<close> is a parameter, a
  function of the heap that answers an address or 0; the heap records the live blocks and the
  addresses that were freed while not live. Adapter ids are 32-bit and sizes 64-bit machine
  words; the binding rejects Python integers that do not fit them. What a client may rely on is
  the locale \<open>block_allocator\<close>.
\<close>

section \<open>The host heap\<close>

record host_heap =
  live :: "(64 word \<times> 64 word) list"
  bad_frees :: "64 word list"

type_synonym malloc = "host_heap \<Rightarrow> 64 word \<Rightarrow> 64 word"

text \<open>Documented behaviour of \<^verbatim>\<open>malloc\<close>: null, or an address that is not in use.\<close>

definition malloc_ok :: "malloc \<Rightarrow> bool" where
  "malloc_ok malloc \<longleftrightarrow> (\<forall>h n. malloc h n = 0 \<or> malloc h n \<notin> fst ` set (live h))"

definition raw_allocate :: "malloc \<Rightarrow> 64 word \<Rightarrow> host_heap \<Rightarrow> 64 word \<times> host_heap" where
  "raw_allocate malloc n h =
     (let p = malloc h n in (p, if p = 0 then h else h\<lparr>live := (p, n) # live h\<rparr>))"

definition raw_free :: "64 word \<Rightarrow> host_heap \<Rightarrow> host_heap" where
  "raw_free p h =
     (if p = 0 then h
      else if p \<in> fst ` set (live h) then h\<lparr>live := filter (\<lambda>(q, _). q \<noteq> p) (live h)\<rparr>
      else h\<lparr>bad_frees := bad_frees h @ [p]\<rparr>)"

section \<open>The allocator\<close>

record block =
  ptr :: "64 word"
  block_size :: "64 word"

record elora =
  dependency_tree :: "(32 word, block list) dict"

type_synonym native = "elora \<times> host_heap"

definition elora_init :: elora where
  "elora_init = \<lparr>dependency_tree = []\<rparr>"

text \<open>\<^verbatim>\<open>dependency_tree_[adapter_id]\<close>, which is empty for a new key.\<close>

definition blocks_of :: "elora \<Rightarrow> 32 word \<Rightarrow> block list" where
  "blocks_of e k = (case dict_get (dependency_tree e) k of None \<Rightarrow> [] | Some bs \<Rightarrow> bs)"

definition allocate_kv_context ::
  "malloc \<Rightarrow> 32 word \<Rightarrow> 64 word \<Rightarrow> native \<Rightarrow> 64 word \<times> native" where
  "allocate_kv_context malloc k n = (\<lambda>(e, h).
     if n = 0 then (0, (e, h))
     else
       (let (p, h') = raw_allocate malloc n h
        in if p = 0 then (0, (e, h'))
           else (p, (e\<lparr>dependency_tree :=
                   dict_set (dependency_tree e) k (blocks_of e k @ [\<lparr>ptr = p, block_size = n\<rparr>])\<rparr>, h'))))"

definition free_blocks :: "block list \<Rightarrow> host_heap \<Rightarrow> host_heap" where
  "free_blocks bs h = fold (\<lambda>b. raw_free (ptr b)) bs h"

definition execute_dependency_eviction :: "32 word \<Rightarrow> native \<Rightarrow> native" where
  "execute_dependency_eviction k = (\<lambda>(e, h).
     case dict_get (dependency_tree e) k of
       None \<Rightarrow> (e, h)
     | Some bs \<Rightarrow> (e\<lparr>dependency_tree := dict_del (dependency_tree e) k\<rparr>, free_blocks bs h))"

definition bytes_resident_for :: "elora \<Rightarrow> 32 word \<Rightarrow> 64 word" where
  "bytes_resident_for e k =
     (case dict_get (dependency_tree e) k of
        None \<Rightarrow> 0
      | Some bs \<Rightarrow> fold (\<lambda>b total. total + block_size b) bs 0)"

definition resident_adapter_count :: "elora \<Rightarrow> nat" where
  "resident_adapter_count e = length (dependency_tree e)"

definition elora_destroy :: "native \<Rightarrow> native" where
  "elora_destroy = (\<lambda>(e, h).
     (e\<lparr>dependency_tree := []\<rparr>, fold (\<lambda>(_, bs). free_blocks bs) (dependency_tree e) h))"

section \<open>The Python binding\<close>

text \<open>A Python integer that the C++ parameter type cannot hold is a TypeError.\<close>

definition to_cint :: "int \<Rightarrow> 32 word result" where
  "to_cint i = (if - (2 ^ 31) \<le> i \<and> i < 2 ^ 31 then Inr (word_of_int i) else Inl TypeError)"

definition to_size_t :: "int \<Rightarrow> 64 word result" where
  "to_size_t i = (if 0 \<le> i \<and> i < 2 ^ 64 then Inr (word_of_int i) else Inl TypeError)"

definition native_allocate :: "malloc \<Rightarrow> int \<Rightarrow> int \<Rightarrow> (native, int option) prog" where
  "native_allocate malloc i n s =
     (case rbind (to_cint i) (\<lambda>k. rbind (to_size_t n) (\<lambda>w. Inr (k, w))) of
        Inl err \<Rightarrow> (Inl err, s)
      | Inr (k, w) \<Rightarrow>
          (let (p, s') = allocate_kv_context malloc k w s
           in (Inr (if p = 0 then None else Some (uint p)), s')))"

definition native_evict :: "int \<Rightarrow> (native, unit) prog" where
  "native_evict i s =
     (case to_cint i of
        Inl err \<Rightarrow> (Inl err, s)
      | Inr k \<Rightarrow> (Inr (), execute_dependency_eviction k s))"

section \<open>Well-formed allocators\<close>

definition owned :: "elora \<Rightarrow> block list" where
  "owned e = concat (map snd (dependency_tree e))"

definition owned_ptrs :: "elora \<Rightarrow> 64 word set" where
  "owned_ptrs e = ptr ` set (owned e)"

text \<open>
  Every block the tree lists is live in the heap with its size, no two blocks share an address,
  and nothing was freed that was not live.
\<close>

definition elora_ok :: "native \<Rightarrow> bool" where
  "elora_ok = (\<lambda>(e, h).
     dict_ok (dependency_tree e) \<and> (\<forall>(k, bs) \<in> set (dependency_tree e). bs \<noteq> []) \<and>
     distinct (map ptr (owned e)) \<and>
     (\<forall>b \<in> set (owned e). ptr b \<noteq> 0 \<and> (ptr b, block_size b) \<in> set (live h)) \<and>
     distinct (map fst (live h)) \<and> bad_frees h = [])"

text \<open>The live blocks that are not the allocator's.\<close>

definition other_blocks :: "native \<Rightarrow> (64 word \<times> 64 word) list" where
  "other_blocks = (\<lambda>(e, h). filter (\<lambda>(q, _). q \<notin> owned_ptrs e) (live h))"

lemma owned_update:
  assumes "dict_ok (dependency_tree e)"
  shows "mset (owned (e\<lparr>dependency_tree := dict_set (dependency_tree e) k (blocks_of e k @ [b])\<rparr>)) =
    mset (owned e) + {#b#}"
proof -
  have "mset (concat (map snd (dict_set d k ((case map_of d k of None \<Rightarrow> [] | Some bs \<Rightarrow> bs) @ [b])))) =
      mset (concat (map snd d)) + {#b#}" for d :: "(32 word, block list) dict"
    by (induction d) (auto split: option.splits)
  from this [of "dependency_tree e"] show ?thesis
    by (simp add: owned_def blocks_of_def dict_get_def)
qed

lemma owned_delete:
  assumes "dict_ok (dependency_tree e)" and "dict_get (dependency_tree e) k = Some bs"
  shows "mset (owned e) = mset (owned (e\<lparr>dependency_tree := dict_del (dependency_tree e) k\<rparr>)) + mset bs"
proof -
  have "mset (concat (map snd d)) = mset (concat (map snd (filter (\<lambda>(k', v). k' \<noteq> k) d))) + mset bs"
    if "distinct (map fst d)" "map_of d k = Some bs" for d :: "(32 word, block list) dict"
    using that
  proof (induction d)
    case (Cons x d)
    obtain k1 v1 where x: "x = (k1, v1)" by (cases x)
    show ?case
    proof (cases "k1 = k")
      case True
      then have "filter (\<lambda>(k', v). k' \<noteq> k) d = d"
        using Cons.prems x by (force intro: filter_True)
      with True Cons.prems x show ?thesis by simp
    qed (use Cons x in simp)
  qed simp
  with assms show ?thesis by (simp add: owned_def dict_ok_def dict_get_def dict_del_def)
qed

lemma owned_ptrs_mset: "owned_ptrs e = ptr ` set_mset (mset (owned e))"
  by (simp add: owned_ptrs_def)

lemma free_blocks_live:
  assumes "distinct (map ptr bs)" and "\<forall>b \<in> set bs. ptr b \<noteq> 0 \<and> ptr b \<in> fst ` set (live h)"
  shows "live (free_blocks bs h) = filter (\<lambda>(q, _). q \<notin> ptr ` set bs) (live h) \<and>
    bad_frees (free_blocks bs h) = bad_frees h"
  using assms
proof (induction bs arbitrary: h)
  case (Cons b bs)
  let ?h = "raw_free (ptr b) h"
  have h: "live ?h = filter (\<lambda>(q, _). q \<noteq> ptr b) (live h)" "bad_frees ?h = bad_frees h"
    using Cons.prems by (simp_all add: raw_free_def)
  have "\<forall>b' \<in> set bs. ptr b' \<noteq> 0 \<and> ptr b' \<in> fst ` set (live ?h)"
  proof
    fix b' assume "b' \<in> set bs"
    then have "ptr b' \<noteq> ptr b" "ptr b' \<noteq> 0" "ptr b' \<in> fst ` set (live h)"
      using Cons.prems by (auto simp: image_iff)
    then show "ptr b' \<noteq> 0 \<and> ptr b' \<in> fst ` set (live ?h)" by (auto simp: h image_iff)
  qed
  with Cons.IH [of ?h] Cons.prems have
    "live (free_blocks bs ?h) = filter (\<lambda>(q, _). q \<notin> ptr ` set bs) (live ?h) \<and>
     bad_frees (free_blocks bs ?h) = bad_frees ?h" by simp
  with h show ?case
    unfolding free_blocks_def fold_simps o_apply by (auto simp: filter_filter intro!: filter_cong)
qed (simp add: free_blocks_def)

text \<open>The parts of the invariant, in the form the operations need.\<close>

lemma elora_okD:
  assumes "elora_ok (e, h)"
  shows "dict_ok (dependency_tree e)" "distinct (map ptr (owned e))" "distinct (map fst (live h))"
    "bad_frees h = []" "\<forall>b \<in> set (owned e). ptr b \<noteq> 0 \<and> (ptr b, block_size b) \<in> set (live h)"
    "\<forall>b \<in> set (owned e). ptr b \<noteq> 0 \<and> ptr b \<in> fst ` set (live h)"
    "\<And>k bs. dict_get (dependency_tree e) k = Some bs \<Longrightarrow> bs \<noteq> []"
proof -
  show "dict_ok (dependency_tree e)" "distinct (map ptr (owned e))" "distinct (map fst (live h))"
    "bad_frees h = []" "\<forall>b \<in> set (owned e). ptr b \<noteq> 0 \<and> (ptr b, block_size b) \<in> set (live h)"
    using assms by (simp_all add: elora_ok_def)
  then show "\<forall>b \<in> set (owned e). ptr b \<noteq> 0 \<and> ptr b \<in> fst ` set (live h)"
    by (metis fst_conv image_eqI)
  show "bs \<noteq> []" if "dict_get (dependency_tree e) k = Some bs" for k bs
    using assms that by (auto simp: elora_ok_def py_dict.get_Some_iff)
qed

lemma elora_init_ok: "distinct (map fst (live h)) \<Longrightarrow> bad_frees h = [] \<Longrightarrow> elora_ok (elora_init, h)"
  by (simp add: elora_ok_def elora_init_def owned_def)

subsection \<open>Allocation\<close>

lemma allocate_null:
  assumes "allocate_kv_context malloc k n (e, h) = (0, s')"
  shows "s' = (e, h)"
  using assms by (auto simp: allocate_kv_context_def raw_allocate_def Let_def split: if_splits)

lemma allocate_success:
  assumes "allocate_kv_context malloc k n (e, h) = (p, s')" and "p \<noteq> 0"
  shows "n \<noteq> 0 \<and> p = malloc h n \<and>
    s' = (e\<lparr>dependency_tree := dict_set (dependency_tree e) k (blocks_of e k @ [\<lparr>ptr = p, block_size = n\<rparr>])\<rparr>,
          h\<lparr>live := (p, n) # live h\<rparr>)"
  using assms by (auto simp: allocate_kv_context_def raw_allocate_def Let_def split: if_splits)

lemma allocate_ok:
  assumes m: "malloc_ok malloc" and ok: "elora_ok (e, h)"
    and a: "allocate_kv_context malloc k n (e, h) = (p, s')"
  shows "elora_ok s'" and "other_blocks s' = other_blocks (e, h)"
proof -
  have "elora_ok s' \<and> other_blocks s' = other_blocks (e, h)"
  proof (cases "p = 0")
    case True
    with a ok allocate_null show ?thesis by blast
  next
    case False
    note s' = allocate_success [OF a False]
    let ?e = "e\<lparr>dependency_tree := dict_set (dependency_tree e) k (blocks_of e k @ [\<lparr>ptr = p, block_size = n\<rparr>])\<rparr>"
    note D = elora_okD [OF ok]
    have fresh: "p \<notin> fst ` set (live h)" using m s' False by (auto simp: malloc_ok_def)
    have ms: "mset (owned ?e) = mset (owned e) + {#\<lparr>ptr = p, block_size = n\<rparr>#}"
      by (rule owned_update [OF D(1)])
    then have set: "set (owned ?e) = insert \<lparr>ptr = p, block_size = n\<rparr> (set (owned e))"
      by (metis add_mset_add_single set_mset_add_mset_insert set_mset_mset)
    have "mset (map ptr (owned ?e)) = mset (p # map ptr (owned e))" using ms by simp
    moreover have "distinct (p # map ptr (owned e))" using D(2,6) fresh by auto
    ultimately have dist: "distinct (map ptr (owned ?e))" by (metis mset_eq_imp_distinct_iff)
    have ne: "\<forall>(k', bs) \<in> set (dict_set (dependency_tree e) k
        (blocks_of e k @ [\<lparr>ptr = p, block_size = n\<rparr>])). bs \<noteq> []"
    proof (intro ballI, clarify)
      fix k' assume "(k', []) \<in> set (dict_set (dependency_tree e) k
        (blocks_of e k @ [\<lparr>ptr = p, block_size = n\<rparr>]))"
      then have "dict_get (dict_set (dependency_tree e) k
        (blocks_of e k @ [\<lparr>ptr = p, block_size = n\<rparr>])) k' = Some []"
        using D(1) by (simp add: py_dict.get_Some_iff py_dict.ok_set)
      then show False using D(7) by (auto simp: py_dict.get_set split: if_splits)
    qed
    have live': "distinct (map fst (live (h\<lparr>live := (p, n) # live h\<rparr>)))" using D(3) fresh by simp
    have blocks': "\<forall>b \<in> set (owned ?e). ptr b \<noteq> 0 \<and>
        (ptr b, block_size b) \<in> set (live (h\<lparr>live := (p, n) # live h\<rparr>))"
      unfolding set using D(5) False by auto
    have "elora_ok (?e, h\<lparr>live := (p, n) # live h\<rparr>)"
      unfolding elora_ok_def using dist ne live' blocks' D(1,4) by (simp add: py_dict.ok_set)
    moreover have "other_blocks (?e, h\<lparr>live := (p, n) # live h\<rparr>) = other_blocks (e, h)"
      unfolding other_blocks_def owned_ptrs_def prod.case set using fresh
      by (force intro!: filter_cong)
    ultimately show ?thesis using s' by simp
  qed
  then show "elora_ok s'" "other_blocks s' = other_blocks (e, h)" by simp_all
qed

lemma allocate_blocks:
  assumes "allocate_kv_context malloc k n (e, h) = (p, (e', h'))"
  shows "blocks_of e' k' =
    (if p \<noteq> 0 \<and> k' = k then blocks_of e k @ [\<lparr>ptr = p, block_size = n\<rparr>] else blocks_of e k')"
proof (cases "p = 0")
  case True
  with assms allocate_null show ?thesis by (metis prod.inject)
next
  case False
  with allocate_success [OF assms] show ?thesis by (auto simp: blocks_of_def py_dict.get_set)
qed

subsection \<open>Eviction\<close>

lemma evict_absent: "dict_get (dependency_tree e) k = None \<Longrightarrow> execute_dependency_eviction k (e, h) = (e, h)"
  by (simp add: execute_dependency_eviction_def)

lemma evict_ok:
  assumes ok: "elora_ok (e, h)"
  shows "elora_ok (execute_dependency_eviction k (e, h)) \<and>
    other_blocks (execute_dependency_eviction k (e, h)) = other_blocks (e, h)"
proof (cases "dict_get (dependency_tree e) k")
  case None
  with ok show ?thesis by (simp add: evict_absent)
next
  case (Some bs)
  note D = elora_okD [OF ok]
  let ?e = "e\<lparr>dependency_tree := dict_del (dependency_tree e) k\<rparr>"
  have ms: "mset (owned e) = mset (owned ?e) + mset bs" by (rule owned_delete [OF D(1) Some])
  then have set: "set (owned e) = set (owned ?e) \<union> set bs" by (metis set_mset_mset set_mset_union)
  have "mset (map ptr (owned e)) = mset (map ptr (owned ?e @ bs))" using ms by simp
  then have dist: "distinct (map ptr (owned ?e @ bs))" using D(2) by (metis mset_eq_imp_distinct_iff)
  have fr: "live (free_blocks bs h) = filter (\<lambda>(q, _). q \<notin> ptr ` set bs) (live h)"
    "bad_frees (free_blocks bs h) = bad_frees h"
    using free_blocks_live [of bs h] dist D(6) by (simp_all add: set)
  have live': "\<forall>b \<in> set (owned ?e). ptr b \<noteq> 0 \<and> (ptr b, block_size b) \<in> set (live (free_blocks bs h))"
    using D(5) dist by (fastforce simp: set fr)
  have ne: "\<forall>(k', cs) \<in> set (dict_del (dependency_tree e) k). cs \<noteq> []"
    using ok by (auto simp: elora_ok_def dict_del_def)
  have "elora_ok (?e, free_blocks bs h)"
    unfolding elora_ok_def using live' ne dist D(1,3,4) fr
    by (simp add: py_dict.ok_del distinct_map_filter_fst)
  moreover have "other_blocks (?e, free_blocks bs h) = other_blocks (e, h)"
    unfolding other_blocks_def owned_ptrs_def prod.case set fr filter_filter
    by (force intro!: filter_cong)
  ultimately show ?thesis using Some by (simp add: execute_dependency_eviction_def)
qed

lemma evict_blocks:
  "blocks_of (fst (execute_dependency_eviction k (e, h))) k' = (if k' = k then [] else blocks_of e k')"
  by (auto simp: execute_dependency_eviction_def blocks_of_def py_dict.get_del split: option.split)

subsection \<open>Destruction\<close>

lemma fold_free_blocks: "fold (\<lambda>(_, bs). free_blocks bs) d h = free_blocks (concat (map snd d)) h"
  by (induction d arbitrary: h) (auto simp: free_blocks_def)

lemma destroy_frees_owned:
  assumes "elora_ok (e, h)"
  shows "elora_destroy (e, h) = (elora_init, free_blocks (owned e) h)"
    and "live (free_blocks (owned e) h) = other_blocks (e, h)"
    and "bad_frees (free_blocks (owned e) h) = []"
proof -
  note D = elora_okD [OF assms]
  show "elora_destroy (e, h) = (elora_init, free_blocks (owned e) h)"
    by (simp add: elora_destroy_def fold_free_blocks owned_def elora_init_def)
  show "live (free_blocks (owned e) h) = other_blocks (e, h)"
    and "bad_frees (free_blocks (owned e) h) = []"
    using free_blocks_live [OF D(2,6)] D(4) by (simp_all add: other_blocks_def owned_ptrs_def)
qed

subsection \<open>Byte counts\<close>

lemma bytes_resident_sum: "bytes_resident_for e k = sum_list (map block_size (blocks_of e k))"
proof -
  have "fold (\<lambda>b total. total + block_size b) bs t = t + sum_list (map block_size bs)" for bs :: "block list" and t
    by (induction bs arbitrary: t) (simp_all add: add.assoc)
  then show ?thesis by (auto simp: bytes_resident_for_def blocks_of_def split: option.split)
qed

lemma uint_sum_list:
  assumes "(\<Sum>w\<leftarrow>ws. uint w) < 2 ^ 64"
  shows "uint (sum_list (ws :: 64 word list)) = (\<Sum>w\<leftarrow>ws. uint w)"
  using assms
proof (induction ws)
  case (Cons w ws)
  have nonneg: "0 \<le> (\<Sum>w\<leftarrow>ws. uint w)" by (rule sum_list_nonneg) auto
  have "(\<Sum>w\<leftarrow>ws. uint w) < 2 ^ 64"
    using Cons.prems uint_ge_0 [of w] unfolding list.map sum_list.Cons by linarith
  then have "uint (sum_list ws) = (\<Sum>w\<leftarrow>ws. uint w)" by (rule Cons.IH)
  moreover have "(uint w + (\<Sum>w\<leftarrow>ws. uint w)) mod 2 ^ 64 = uint w + (\<Sum>w\<leftarrow>ws. uint w)"
    using Cons.prems nonneg uint_ge_0 [of w] by (intro mod_pos_pos_trivial) simp_all
  ultimately show ?case by (simp add: uint_word_ariths)
qed simp

section \<open>The contract of a block allocator\<close>

text \<open>
  What the adapter manager relies on: an allocation is recorded under its key or leaves the
  records alone, an eviction empties its key, other keys and the memory of others are not
  touched.
\<close>

locale block_allocator =
  fixes alloc :: "'k \<Rightarrow> 'n \<Rightarrow> 's \<Rightarrow> bool \<times> 's"
    and evict :: "'k \<Rightarrow> 's \<Rightarrow> 's"
    and sizes :: "'k \<Rightarrow> 's \<Rightarrow> 'n list"
    and rest :: "'s \<Rightarrow> 'r"
    and ok :: "'s \<Rightarrow> bool"
  assumes alloc_ok: "ok s \<Longrightarrow> alloc k n s = (b, s') \<Longrightarrow> ok s'"
    and alloc_rest: "ok s \<Longrightarrow> alloc k n s = (b, s') \<Longrightarrow> rest s' = rest s"
    and alloc_sizes: "alloc k n s = (b, s') \<Longrightarrow>
      sizes k' s' = (if b \<and> k' = k then sizes k s @ [n] else sizes k' s)"
    and evict_ok: "ok s \<Longrightarrow> ok (evict k s)"
    and evict_rest: "ok s \<Longrightarrow> rest (evict k s) = rest s"
    and evict_sizes: "sizes k' (evict k s) = (if k' = k then [] else sizes k' s)"

text \<open>Allocating several blocks for one key, until one fails.\<close>

primrec alloc_all :: "('k \<Rightarrow> 'n \<Rightarrow> 's \<Rightarrow> bool \<times> 's) \<Rightarrow> 'k \<Rightarrow> 'n list \<Rightarrow> 's \<Rightarrow> bool \<times> 's" where
  "alloc_all alloc k [] s = (True, s)"
| "alloc_all alloc k (n # ns) s =
     (case alloc k n s of (True, s') \<Rightarrow> alloc_all alloc k ns s' | (False, s') \<Rightarrow> (False, s'))"

context block_allocator
begin

lemma alloc_all_ok:
  "ok s \<Longrightarrow> alloc_all alloc k ns s = (b, s') \<Longrightarrow> ok s' \<and> rest s' = rest s"
proof (induction ns arbitrary: s)
  case (Cons n ns)
  obtain b1 s1 where s1: "alloc k n s = (b1, s1)" by fastforce
  with Cons show ?case using alloc_ok [OF Cons.prems(1) s1] alloc_rest [OF Cons.prems(1) s1]
    by (cases b1) auto
qed simp

lemma alloc_all_sizes:
  "alloc_all alloc k ns s = (b, s') \<Longrightarrow>
   (b \<longrightarrow> sizes k s' = sizes k s @ ns) \<and> (\<forall>k'. k' \<noteq> k \<longrightarrow> sizes k' s' = sizes k' s)"
proof (induction ns arbitrary: s)
  case (Cons n ns)
  obtain b1 s1 where s1: "alloc k n s = (b1, s1)" by fastforce
  with Cons show ?case using alloc_sizes [OF s1] by (cases b1) auto
qed simp

text \<open>A failed sequence rolled back by an eviction leaves the records as they were.\<close>

lemma rollback:
  assumes "ok s" and "sizes k s = []" and "alloc_all alloc k ns s = (b, s')"
  shows "ok (evict k s')" "rest (evict k s') = rest s" "sizes k' (evict k s') = sizes k' s"
  using alloc_all_ok [OF assms(1,3)] alloc_all_sizes [OF assms(3)] assms(2)
  by (auto simp: evict_ok evict_rest evict_sizes)

end

definition alloc_step :: "malloc \<Rightarrow> 32 word \<Rightarrow> 64 word \<Rightarrow> native \<Rightarrow> bool \<times> native" where
  "alloc_step malloc k n s = (case allocate_kv_context malloc k n s of (p, s') \<Rightarrow> (p \<noteq> 0, s'))"

definition sizes_of :: "32 word \<Rightarrow> native \<Rightarrow> 64 word list" where
  "sizes_of k s = map block_size (blocks_of (fst s) k)"

interpretation el: block_allocator "alloc_step malloc" execute_dependency_eviction sizes_of
  other_blocks "\<lambda>s. malloc_ok malloc \<and> elora_ok s" for malloc
proof unfold_locales
  fix k :: "32 word" and n :: "64 word" and s b s'
  assume a: "alloc_step malloc k n s = (b, s')"
  obtain e h where s: "s = (e, h)" by fastforce
  obtain p where p: "allocate_kv_context malloc k n (e, h) = (p, s')" "b \<longleftrightarrow> p \<noteq> 0"
    using a by (auto simp: alloc_step_def s split: prod.splits)
  show "sizes_of k' s' = (if b \<and> k' = k then sizes_of k s @ [n] else sizes_of k' s)" for k'
    using allocate_blocks [of malloc k n e h p "fst s'" "snd s'"] p by (simp add: sizes_of_def s)
  assume "malloc_ok malloc \<and> elora_ok s"
  then show "malloc_ok malloc \<and> elora_ok s'" "other_blocks s' = other_blocks s"
    using allocate_ok [OF _ _ p(1)] by (simp_all add: s)
next
  fix k k' :: "32 word" and s :: native
  obtain e h where s: "s = (e, h)" by fastforce
  show "sizes_of k' (execute_dependency_eviction k s) = (if k' = k then [] else sizes_of k' s)"
    using evict_blocks by (simp add: sizes_of_def s)
  assume "malloc_ok malloc \<and> elora_ok s"
  then show "malloc_ok malloc \<and> elora_ok (execute_dependency_eviction k s)"
    "other_blocks (execute_dependency_eviction k s) = other_blocks s"
    using evict_ok by (simp_all add: s)
qed

section \<open>Sequences of binding calls\<close>

datatype native_request = Allocate int int | Evict int

fun native_request_step :: "malloc \<Rightarrow> native_request \<Rightarrow> native \<Rightarrow> native" where
  "native_request_step malloc (Allocate i n) s = snd (native_allocate malloc i n s)"
| "native_request_step malloc (Evict i) s = snd (native_evict i s)"

lemma native_allocate_cases:
  "(fst (native_allocate malloc i n s) = Inl TypeError \<and> snd (native_allocate malloc i n s) = s) \<or>
   (\<exists>b s'. alloc_step malloc (word_of_int i) (word_of_int n) s = (b, s') \<and>
      snd (native_allocate malloc i n s) = s')"
  by (auto simp: native_allocate_def alloc_step_def to_cint_def to_size_t_def rbind_def
      split: prod.splits)

lemma native_request_step_ok:
  assumes "malloc_ok malloc" and "elora_ok s"
  shows "elora_ok (native_request_step malloc r s) \<and>
    other_blocks (native_request_step malloc r s) = other_blocks s"
proof (cases r)
  case (Allocate i n)
  from native_allocate_cases [of malloc i n s] show ?thesis
  proof
    assume "\<exists>b s'. alloc_step malloc (word_of_int i) (word_of_int n) s = (b, s') \<and>
      snd (native_allocate malloc i n s) = s'"
    then obtain b s' where s': "alloc_step malloc (word_of_int i) (word_of_int n) s = (b, s')"
      "snd (native_allocate malloc i n s) = s'" by blast
    show ?thesis
      using el.alloc_ok [OF _ s'(1)] el.alloc_rest [OF _ s'(1)] assms by (simp add: Allocate s'(2))
  qed (use Allocate assms in simp)
next
  case (Evict i)
  then show ?thesis
    using el.evict_ok [of malloc s] el.evict_rest [of malloc s] assms
    by (simp add: native_evict_def to_cint_def)
qed

lemma native_run_ok:
  assumes "malloc_ok malloc" and "elora_ok s"
  shows "elora_ok (fold (native_request_step malloc) rs s) \<and>
    other_blocks (fold (native_request_step malloc) rs s) = other_blocks s"
  using assms(2)
proof (induction rs arbitrary: s)
  case (Cons r rs)
  with native_request_step_ok [OF assms(1) Cons.prems, of r] show ?case by simp
qed simp

text \<open>An example host: addresses count up from the largest one in use.\<close>

definition example_malloc :: malloc where
  "example_malloc h n =
     (let p = fold (\<lambda>(q, _) m. max q m) (live h) 0 in if p + 1 = 0 then 0 else p + 1)"

lemma example_malloc_ok: "malloc_ok example_malloc"
  unfolding malloc_ok_def
proof (intro allI)
  fix h :: host_heap and n
  let ?m = "fold (\<lambda>(q, _) m. max q m) (live h) 0"
  have mono: "m \<le> fold (\<lambda>(q, _) m. max q m) xs m \<and> (\<forall>q \<in> fst ` set xs. q \<le> fold (\<lambda>(q, _) m. max q m) xs m)"
    for xs :: "(64 word \<times> 64 word) list" and m :: "64 word"
  proof (induction xs arbitrary: m)
    case (Cons x xs)
    show ?case using Cons [of "max (fst x) m"] by (auto simp: case_prod_unfold)
  qed simp
  show "example_malloc h n = 0 \<or> example_malloc h n \<notin> fst ` set (live h)"
  proof (cases "?m + 1 = 0")
    case False
    then have "?m < ?m + 1"
      using unatSuc [of ?m] by (simp add: word_less_nat_alt add.commute)
    moreover have "\<forall>q \<in> fst ` set (live h). q \<le> ?m" using mono by blast
    ultimately show ?thesis by (auto simp: example_malloc_def Let_def)
  qed (simp add: example_malloc_def)
qed

text \<open>
  C25. Whatever sequence of calls Python makes, with whatever integers: destroying the allocator
  at the end leaves the heap with exactly the blocks that were live before it was created, and
  no address was ever freed twice or without being allocated.
\<close>

theorem allocator_never_leaks:
  assumes "malloc_ok malloc" and "distinct (map fst (live h))" and "bad_frees h = []"
    and "(e, h') = fold (native_request_step malloc) calls (elora_init, h)"
  shows "live (snd (elora_destroy (e, h'))) = live h \<and> bad_frees (snd (elora_destroy (e, h'))) = [] \<and>
    bad_frees h' = []"
proof -
  have "elora_ok (e, h') \<and> other_blocks (e, h') = other_blocks (elora_init, h)"
    using native_run_ok [OF assms(1) elora_init_ok [OF assms(2,3)]] assms(4) by simp
  moreover have "other_blocks (elora_init, h) = live h"
    by (simp add: other_blocks_def owned_ptrs_def owned_def elora_init_def)
  ultimately show ?thesis
    using destroy_frees_owned elora_okD(4) by (metis snd_conv)
qed

definition example_requests :: "native_request list" where
  "example_requests =
     [Allocate 1 64, Allocate 2 32, Allocate 1 16, Evict 2, Allocate 5000000000 1, Evict 7]"

theorem allocator_never_leaks_witness:
  "live (snd (elora_destroy (fold (native_request_step example_malloc) example_requests
      (elora_init, \<lparr>live = [(9, 4)], bad_frees = []\<rparr>)))) = [(9, 4)]"
proof -
  obtain e h' where "(e, h') = fold (native_request_step example_malloc) example_requests
      (elora_init, \<lparr>live = [(9, 4)], bad_frees = []\<rparr>)" by (metis surj_pair)
  with allocator_never_leaks [OF example_malloc_ok _ _ this] show ?thesis by simp
qed

end
