(* ===== verification/AdapterManager.thy ===== *)
theory AdapterManager
  imports PluginLayer Elora
begin

text \<open>
  \<^verbatim>\<open>src/python/msp/adapter_manager.py\<close>: the registry of resident adapters with its byte budget,
  and its mirror in the native allocator when the extension is present. Layers are objects that
  the caller and several adapters may share, so an adapter holds references and the session
  holds the store they point into. Every operation is a program over the session: a raised
  exception leaves behind what was written before it.
\<close>

section \<open>State\<close>

type_synonym layer_ref = nat

record adapter_record =
  adapter_id :: string
  rec_layers :: "(string, layer_ref) dict"

record manager =
  memory_budget_bytes :: int
  adapters :: "(string, adapter_record) dict"
  active_adapter_id :: "string option"
  native :: "elora option"
  native_ids :: "(string, int) dict"
  next_native_id :: int

record ('s, 'd) session =
  manager :: manager
  layer_at :: "layer_ref \<Rightarrow> ('s, 'd) plugin_layer"
  host :: host_heap

abbreviation layer_bytes :: "('s, 'd) session \<Rightarrow> layer_ref \<Rightarrow> int" where
  "layer_bytes st r \<equiv> parameter_bytes (layer_at st r)"

definition byte_size :: "('s, 'd) session \<Rightarrow> adapter_record \<Rightarrow> int" where
  "byte_size st r = (\<Sum>l\<leftarrow>dict_values (rec_layers r). layer_bytes st l)"

definition resident_bytes :: "('s, 'd) session \<Rightarrow> int" where
  "resident_bytes st = (\<Sum>r\<leftarrow>dict_values (adapters (manager st)). byte_size st r)"

definition resident_adapter_ids :: "('s, 'd) session \<Rightarrow> string list" where
  "resident_adapter_ids st = dict_keys (adapters (manager st))"

definition native_backed :: "manager \<Rightarrow> bool" where
  "native_backed m \<longleftrightarrow> native m \<noteq> None"

definition default_memory_budget_bytes :: int where
  "default_memory_budget_bytes = 512 * 1024 * 1024"

text \<open>\<open>available\<close> is \<^verbatim>\<open>_NATIVE_AVAILABLE\<close>: whether the extension could be imported.\<close>

definition manager_init :: "bool \<Rightarrow> int \<Rightarrow> manager result" where
  "manager_init available budget =
     (if budget \<le> 0 then Inl ValueError
      else Inr \<lparr>memory_budget_bytes = budget, adapters = [], active_adapter_id = None,
                native = (if available then Some elora_init else None), native_ids = [],
                next_native_id = 1\<rparr>)"

section \<open>Operations\<close>

abbreviation upd_manager :: "(manager \<Rightarrow> manager) \<Rightarrow> ('s, 'd) session \<Rightarrow> ('s, 'd) session" where
  "upd_manager f st \<equiv> st\<lparr>manager := f (manager st)\<rparr>"

definition set_native :: "native \<Rightarrow> ('s, 'd) session \<Rightarrow> ('s, 'd) session" where
  "set_native s st = st\<lparr>manager := (manager st)\<lparr>native := Some (fst s)\<rparr>, host := snd s\<rparr>"

text \<open>A method call on \<^verbatim>\<open>self._native\<close>.\<close>

definition on_native :: "(native, 'a) prog \<Rightarrow> (('s, 'd) session, 'a) prog" where
  "on_native f st =
     (case native (manager st) of
        None \<Rightarrow> (Inl AttributeError, st)
      | Some e \<Rightarrow> (case f (e, host st) of (r, s') \<Rightarrow> (r, set_native s' st)))"

text \<open>\<^verbatim>\<open>del self._native_ids[adapter_id]; del self._adapters[adapter_id]\<close>\<close>

definition del_native_id :: "string \<Rightarrow> (('s, 'd) session, unit) prog" where
  "del_native_id aid st =
     (if dict_get (native_ids (manager st)) aid = None then (Inl KeyError, st)
      else (Inr (), upd_manager (\<lambda>m. m\<lparr>native_ids := dict_del (native_ids m) aid\<rparr>) st))"

definition del_adapter :: "string \<Rightarrow> (('s, 'd) session, unit) prog" where
  "del_adapter aid st =
     (if dict_get (adapters (manager st)) aid = None then (Inl KeyError, st)
      else (Inr (), upd_manager (\<lambda>m. m\<lparr>adapters := dict_del (adapters m) aid\<rparr>) st))"

text \<open>One round of the loop over the layers of an adapter that is being loaded.\<close>

definition reserve_layer ::
  "malloc \<Rightarrow> string \<Rightarrow> int \<Rightarrow> layer_ref \<Rightarrow> (('s, 'd) session, unit) prog" where
  "reserve_layer malloc aid nid l = (\<lambda>st.
     let nbytes = layer_bytes st l
     in if nbytes = 0 then (Inr (), st)
        else sbind (on_native (native_allocate malloc nid nbytes))
          (\<lambda>handle. case handle of
              Some _ \<Rightarrow> sret ()
            | None \<Rightarrow>
                sbind (on_native (native_evict nid))
                  (\<lambda>_. sbind (del_native_id aid)
                    (\<lambda>_. sbind (del_adapter aid) (\<lambda>_. sraise AdapterBudgetError)))) st)"

definition load_adapter ::
  "malloc \<Rightarrow> string \<Rightarrow> (string, layer_ref) dict \<Rightarrow> (('s, 'd) session, unit) prog" where
  "load_adapter malloc aid layers = (\<lambda>st.
     if dict_get (adapters (manager st)) aid \<noteq> None then (Inl ValueError, st)
     else
       (let incoming_bytes = (\<Sum>l\<leftarrow>dict_values layers. layer_bytes st l);
            projected_total = resident_bytes st + incoming_bytes
        in if memory_budget_bytes (manager st) < projected_total then (Inl AdapterBudgetError, st)
           else
             (let st = upd_manager (\<lambda>m. m\<lparr>adapters :=
                    dict_set (adapters m) aid \<lparr>adapter_id = aid, rec_layers = layers\<rparr>\<rparr>) st
              in if \<not> native_backed (manager st) then (Inr (), st)
                 else
                   (let nid = next_native_id (manager st);
                        st = upd_manager (\<lambda>m. m\<lparr>next_native_id := next_native_id m + 1,
                               native_ids := dict_set (native_ids m) aid nid\<rparr>) st
                    in sfor (dict_values layers) (reserve_layer malloc aid nid) st))))"

definition clear_layer :: "layer_ref \<Rightarrow> ('s, 'd) session \<Rightarrow> ('s, 'd) session" where
  "clear_layer l st = st\<lparr>layer_at := (layer_at st)(l := clear_gradient_gate (layer_at st l))\<rparr>"

definition unload_adapter :: "string \<Rightarrow> (('s, 'd) session, unit) prog" where
  "unload_adapter aid = (\<lambda>st.
     case dict_get (adapters (manager st)) aid of
       None \<Rightarrow> (Inr (), st)
     | Some rec \<Rightarrow>
         (let st = upd_manager (\<lambda>m. m\<lparr>adapters := dict_del (adapters m) aid\<rparr>) st;
              st = fold clear_layer (dict_values (rec_layers rec)) st;
              st = (if active_adapter_id (manager st) = Some aid
                    then upd_manager (\<lambda>m. m\<lparr>active_adapter_id := None\<rparr>) st else st)
          in if \<not> native_backed (manager st) then (Inr (), st)
             else
               (case dict_get (native_ids (manager st)) aid of
                  None \<Rightarrow> (Inr (), st)
                | Some nid \<Rightarrow>
                    on_native (native_evict nid)
                      (upd_manager (\<lambda>m. m\<lparr>native_ids := dict_del (native_ids m) aid\<rparr>) st))))"

definition activate :: "string \<Rightarrow> (('s, 'd) session, unit) prog" where
  "activate aid st =
     (if dict_get (adapters (manager st)) aid = None then (Inl KeyError, st)
      else (Inr (), upd_manager (\<lambda>m. m\<lparr>active_adapter_id := Some aid\<rparr>) st))"

definition get_layer :: "string \<Rightarrow> string \<Rightarrow> (('s, 'd) session, layer_ref) prog" where
  "get_layer aid name st =
     (case dict_get (adapters (manager st)) aid of
        None \<Rightarrow> (Inl KeyError, st)
      | Some rec \<Rightarrow>
          (case dict_get (rec_layers rec) name of None \<Rightarrow> (Inl KeyError, st) | Some l \<Rightarrow> (Inr l, st)))"

definition swap_adapter :: "string option \<Rightarrow> string \<Rightarrow> (('s, 'd) session, unit) prog" where
  "swap_adapter from_id to_id = activate to_id"

section \<open>The invariant\<close>

text \<open>The sizes of the native blocks an adapter should own.\<close>

definition block_sizes :: "('s, 'd) session \<Rightarrow> layer_ref list \<Rightarrow> int list" where
  "block_sizes st ls = filter (\<lambda>n. n \<noteq> 0) (map (layer_bytes st) ls)"

text \<open>
  The native side agrees with the registry: the same adapters, distinct ids that were handed
  out before, exactly the blocks of the resident adapters' layers, and no others.
\<close>

definition native_ok :: "('s, 'd) session \<Rightarrow> elora \<Rightarrow> bool" where
  "native_ok st e \<longleftrightarrow>
     (let m = manager st in
      elora_ok (e, host st) \<and> memory_budget_bytes m < 2 ^ 64 \<and>
      dict_ok (native_ids m) \<and> (\<forall>k. dict_get (native_ids m) k = None \<longleftrightarrow> dict_get (adapters m) k = None) \<and>
      (\<forall>k i. dict_get (native_ids m) k = Some i \<longrightarrow> 1 \<le> i \<and> i < next_native_id m) \<and>
      (\<forall>k k' i. dict_get (native_ids m) k = Some i \<and> dict_get (native_ids m) k' = Some i \<longrightarrow> k = k') \<and>
      1 \<le> next_native_id m \<and> next_native_id m \<le> 2 ^ 31 \<and>
      (\<forall>k i r. dict_get (native_ids m) k = Some i \<and> dict_get (adapters m) k = Some r \<longrightarrow>
         map uint (sizes_of (word_of_int i) (e, host st)) = block_sizes st (dict_values (rec_layers r))) \<and>
      (\<forall>w. (\<forall>k i. dict_get (native_ids m) k = Some i \<longrightarrow> w \<noteq> word_of_int i) \<longrightarrow>
         sizes_of w (e, host st) = []))"

definition manager_ok :: "('s, 'd) session \<Rightarrow> bool" where
  "manager_ok st \<longleftrightarrow>
     (let m = manager st in
      dict_ok (adapters m) \<and>
      (\<forall>k r. dict_get (adapters m) k = Some r \<longrightarrow> adapter_id r = k) \<and>
      pred_option (\<lambda>a. dict_get (adapters m) a \<noteq> None) (active_adapter_id m) \<and>
      resident_bytes st \<le> memory_budget_bytes m \<and>
      (case native m of None \<Rightarrow> native_ids m = [] | Some e \<Rightarrow> native_ok st e))"

section \<open>Lemmas\<close>

lemma parameter_bytes_nonneg [simp]: "0 \<le> parameter_bytes l"
  by (simp add: parameter_bytes_def param_bytes_def)

lemma byte_size_nonneg: "0 \<le> byte_size st r"
  unfolding byte_size_def by (rule sum_list_nonneg) auto

lemma sum_list_item_le:
  fixes f :: "'a \<Rightarrow> int"
  assumes "\<And>y. 0 \<le> f y" and "x \<in> set xs"
  shows "f x \<le> (\<Sum>y\<leftarrow>xs. f y)"
  using assms(2)
proof (induction xs)
  case (Cons y ys)
  have "0 \<le> (\<Sum>y\<leftarrow>ys. f y)" by (rule sum_list_nonneg) (auto simp: assms(1))
  with Cons assms(1) [of y] show ?case by auto
qed simp

lemma resident_bytes_items:
  "resident_bytes st = (\<Sum>(k, r)\<leftarrow>adapters (manager st). byte_size st r)"
  by (simp add: resident_bytes_def dict_values_def comp_def case_prod_unfold)

lemma resident_bytes_nonneg: "0 \<le> resident_bytes st"
  unfolding resident_bytes_def by (rule sum_list_nonneg) (auto simp: byte_size_nonneg)

text \<open>Byte counts see only the layers.\<close>

lemma bytes_cong:
  assumes "\<And>l. layer_bytes st' l = layer_bytes st l"
  shows "byte_size st' r = byte_size st r" "block_sizes st' ls = block_sizes st ls"
  using assms by (simp_all add: byte_size_def block_sizes_def)

lemma set_native_simps [simp]:
  "layer_at (set_native s st) = layer_at st" "host (set_native s st) = snd s"
  "adapters (manager (set_native s st)) = adapters (manager st)"
  "native_ids (manager (set_native s st)) = native_ids (manager st)"
  "native (manager (set_native s st)) = Some (fst s)"
  "next_native_id (manager (set_native s st)) = next_native_id (manager st)"
  "memory_budget_bytes (manager (set_native s st)) = memory_budget_bytes (manager st)"
  "active_adapter_id (manager (set_native s st)) = active_adapter_id (manager st)"
  "set_native t (set_native s st) = set_native t st"
  by (simp_all add: set_native_def)

lemma set_native_same: "native (manager st) = Some e \<Longrightarrow> set_native (e, host st) st = st"
  by (simp add: set_native_def)

lemma word_of_int_int32_inj:
  assumes "0 \<le> i" "i < 2 ^ 31" "0 \<le> j" "j < 2 ^ 31"
  shows "(word_of_int i :: 32 word) = word_of_int j \<longleftrightarrow> i = j"
proof
  assume "(word_of_int i :: 32 word) = word_of_int j"
  then have "uint (word_of_int i :: 32 word) = uint (word_of_int j :: 32 word)" by simp
  then show "i = j" using assms by (simp add: uint_word_of_int)
qed simp

lemma uint_of_size: "0 \<le> n \<Longrightarrow> n < 2 ^ 64 \<Longrightarrow> uint (word_of_int n :: 64 word) = n"
  by (simp add: uint_word_of_int)

subsection \<open>The allocation loop\<close>

definition drop_adapter :: "string \<Rightarrow> ('s, 'd) session \<Rightarrow> ('s, 'd) session" where
  "drop_adapter aid st =
     upd_manager (\<lambda>m. m\<lparr>native_ids := dict_del (native_ids m) aid, adapters := dict_del (adapters m) aid\<rparr>) st"

lemma drop_adapter_simps [simp]:
  "layer_at (drop_adapter aid st) = layer_at st" "host (drop_adapter aid st) = host st"
  "adapters (manager (drop_adapter aid st)) = dict_del (adapters (manager st)) aid"
  "native_ids (manager (drop_adapter aid st)) = dict_del (native_ids (manager st)) aid"
  "native (manager (drop_adapter aid st)) = native (manager st)"
  "next_native_id (manager (drop_adapter aid st)) = next_native_id (manager st)"
  "memory_budget_bytes (manager (drop_adapter aid st)) = memory_budget_bytes (manager st)"
  "active_adapter_id (manager (drop_adapter aid st)) = active_adapter_id (manager st)"
  by (simp_all add: drop_adapter_def)

lemma native_allocate_step:
  assumes "0 \<le> i" "i < 2 ^ 31" "0 \<le> n" "n < 2 ^ 64"
    and "alloc_step malloc (word_of_int i) (word_of_int n) s = (b, s')"
  shows "\<exists>r. native_allocate malloc i n s = (Inr r, s') \<and> (r \<noteq> None \<longleftrightarrow> b)"
proof -
  have "to_cint i = Inr (word_of_int i)" "to_size_t n = Inr (word_of_int n)"
    using assms(1-4) by (simp_all add: to_cint_def to_size_t_def)
  with assms(5) show ?thesis
    by (auto simp: native_allocate_def alloc_step_def split: prod.splits)
qed

lemma native_evict_step:
  assumes "0 \<le> i" "i < 2 ^ 31"
  shows "native_evict i s = (Inr (), execute_dependency_eviction (word_of_int i) s)"
  using assms by (simp add: native_evict_def to_cint_def)

lemma reserve_layer_step:
  assumes e: "native (manager st) = Some e" and i: "0 \<le> nid" "nid < 2 ^ 31"
    and n: "layer_bytes st l \<noteq> 0" "layer_bytes st l < 2 ^ 64"
    and present: "dict_get (native_ids (manager st)) aid \<noteq> None" "dict_get (adapters (manager st)) aid \<noteq> None"
    and a: "alloc_step malloc (word_of_int nid) (word_of_int (layer_bytes st l)) (e, host st) = (b, s')"
  shows "reserve_layer malloc aid nid l st =
    (if b then (Inr (), set_native s' st)
     else (Inl AdapterBudgetError,
           drop_adapter aid (set_native (execute_dependency_eviction (word_of_int nid) s') st)))"
proof -
  obtain r where r: "native_allocate malloc nid (layer_bytes st l) (e, host st) = (Inr r, s')" "r \<noteq> None \<longleftrightarrow> b"
    using native_allocate_step [OF i _ n(2) a] by auto
  show ?thesis
  proof (cases b)
    case True
    with r show ?thesis
      by (auto simp: reserve_layer_def Let_def n(1) sbind_def on_native_def e sret_def)
  next
    case False
    with r have r0: "native_allocate malloc nid (layer_bytes st l) (e, host st) = (Inr None, s')" by simp
    show ?thesis
      using False present n(1)
      by (auto simp: reserve_layer_def Let_def sbind_def on_native_def e r0 sraise_def
          native_evict_step [OF i] del_native_id_def del_adapter_def drop_adapter_def)
  qed
qed

lemma reserve_layers_loop:
  assumes "native (manager st) = Some e" and "0 \<le> nid" "nid < 2 ^ 31"
    and "\<forall>l \<in> set ls. layer_bytes st l < 2 ^ 64"
    and "dict_get (native_ids (manager st)) aid \<noteq> None" "dict_get (adapters (manager st)) aid \<noteq> None"
    and "alloc_all (alloc_step malloc) (word_of_int nid) (map word_of_int (block_sizes st ls)) (e, host st) = (b, s')"
  shows "sfor ls (reserve_layer malloc aid nid) st =
    (if b then (Inr (), set_native s' st)
     else (Inl AdapterBudgetError,
           drop_adapter aid (set_native (execute_dependency_eviction (word_of_int nid) s') st)))"
  using assms
proof (induction ls arbitrary: st e)
  case Nil
  then show ?case by (auto simp: sret_def block_sizes_def set_native_same)
next
  case (Cons l ls)
  show ?case
  proof (cases "layer_bytes st l = 0")
    case True
    then have "reserve_layer malloc aid nid l st = (Inr (), st)" by (simp add: reserve_layer_def)
    moreover have "block_sizes st (l # ls) = block_sizes st ls" using True by (simp add: block_sizes_def)
    ultimately show ?thesis using Cons.IH [OF Cons.prems(1-3) _ Cons.prems(5,6)] Cons.prems(4,7)
      by (simp add: sbind_def)
  next
    case False
    obtain b1 s1 where s1: "alloc_step malloc (word_of_int nid) (word_of_int (layer_bytes st l)) (e, host st) = (b1, s1)"
      by (metis surj_pair)
    have lt: "layer_bytes st l < 2 ^ 64" using Cons.prems(4) by simp
    note step = reserve_layer_step [OF Cons.prems(1-3) False lt Cons.prems(5,6) s1]
    have bs: "block_sizes st (l # ls) = layer_bytes st l # block_sizes st ls"
      using False by (simp add: block_sizes_def)
    show ?thesis
    proof (cases b1)
      case True
      let ?st = "set_native s1 st"
      have "block_sizes ?st ls = block_sizes st ls" by (rule bytes_cong) simp
      then have "alloc_all (alloc_step malloc) (word_of_int nid) (map word_of_int (block_sizes ?st ls))
          (fst s1, host ?st) = (b, s')"
        using Cons.prems(7) True s1 bs by simp
      from Cons.IH [OF _ Cons.prems(2,3) _ _ _ this] Cons.prems(4-6)
      show ?thesis using True step by (simp add: sbind_def)
    next
      case False
      with Cons.prems(7) s1 bs have "b = False" "s' = s1" by simp_all
      with False step show ?thesis by (simp add: sbind_def)
    qed
  qed
qed

text \<open>The ways a load can end.\<close>

definition add_record :: "string \<Rightarrow> (string, layer_ref) dict \<Rightarrow> ('s, 'd) session \<Rightarrow> ('s, 'd) session" where
  "add_record aid layers st =
     upd_manager (\<lambda>m. m\<lparr>adapters := dict_set (adapters m) aid \<lparr>adapter_id = aid, rec_layers = layers\<rparr>\<rparr>) st"

definition add_native_id :: "string \<Rightarrow> ('s, 'd) session \<Rightarrow> ('s, 'd) session" where
  "add_native_id aid st =
     upd_manager (\<lambda>m. m\<lparr>next_native_id := next_native_id m + 1,
        native_ids := dict_set (native_ids m) aid (next_native_id m)\<rparr>) st"

definition incoming :: "('s, 'd) session \<Rightarrow> (string, layer_ref) dict \<Rightarrow> int" where
  "incoming st layers = (\<Sum>l\<leftarrow>dict_values layers. layer_bytes st l)"

lemma add_simps [simp]:
  "layer_at (add_record aid layers st) = layer_at st" "host (add_record aid layers st) = host st"
  "layer_at (add_native_id aid st) = layer_at st" "host (add_native_id aid st) = host st"
  "manager (add_record aid layers st) = (manager st)\<lparr>adapters :=
     dict_set (adapters (manager st)) aid \<lparr>adapter_id = aid, rec_layers = layers\<rparr>\<rparr>"
  "manager (add_native_id aid st) = (manager st)\<lparr>next_native_id := next_native_id (manager st) + 1,
     native_ids := dict_set (native_ids (manager st)) aid (next_native_id (manager st))\<rparr>"
  by (simp_all add: add_record_def add_native_id_def)

lemma load_rejected:
  "dict_get (adapters (manager st)) aid \<noteq> None \<Longrightarrow> load_adapter malloc aid layers st = (Inl ValueError, st)"
  "dict_get (adapters (manager st)) aid = None \<Longrightarrow>
   memory_budget_bytes (manager st) < resident_bytes st + incoming st layers \<Longrightarrow>
   load_adapter malloc aid layers st = (Inl AdapterBudgetError, st)"
  by (simp_all add: load_adapter_def incoming_def)

lemma load_python_only:
  assumes "dict_get (adapters (manager st)) aid = None"
    and "resident_bytes st + incoming st layers \<le> memory_budget_bytes (manager st)"
    and "native (manager st) = None"
  shows "load_adapter malloc aid layers st = (Inr (), add_record aid layers st)"
  using assms by (simp add: load_adapter_def incoming_def native_backed_def add_record_def)

lemma load_native:
  assumes a: "dict_get (adapters (manager st)) aid = None"
    and fits: "resident_bytes st + incoming st layers \<le> memory_budget_bytes (manager st)"
    and e: "native (manager st) = Some e" and budget: "memory_budget_bytes (manager st) < 2 ^ 64"
    and nid: "nid = next_native_id (manager st)" "0 \<le> nid" "nid < 2 ^ 31"
    and al: "alloc_all (alloc_step malloc) (word_of_int nid)
      (map word_of_int (block_sizes st (dict_values layers))) (e, host st) = (b, s')"
  shows "load_adapter malloc aid layers st =
    (let st' = add_native_id aid (add_record aid layers st)
     in if b then (Inr (), set_native s' st')
        else (Inl AdapterBudgetError,
              drop_adapter aid (set_native (execute_dependency_eviction (word_of_int nid) s') st')))"
proof -
  let ?st = "add_native_id aid (add_record aid layers st)"
  have load: "load_adapter malloc aid layers st = sfor (dict_values layers) (reserve_layer malloc aid nid) ?st"
    using a fits e by (simp add: load_adapter_def incoming_def native_backed_def nid(1)
        add_record_def add_native_id_def Let_def)
  have "layer_bytes st l < 2 ^ 64" if "l \<in> set (dict_values layers)" for l
  proof -
    have "layer_bytes st l \<le> incoming st layers"
      unfolding incoming_def using that by (intro sum_list_item_le) auto
    with fits budget resident_bytes_nonneg [of st] show ?thesis by linarith
  qed
  moreover have "block_sizes ?st ls = block_sizes st ls" for ls by (rule bytes_cong) simp
  ultimately show ?thesis unfolding load Let_def
    using reserve_layers_loop [of ?st e nid "dict_values layers" aid malloc b s'] e nid al
    by (simp add: py_dict.get_set)
qed

subsection \<open>What a load preserves\<close>

text \<open>A native state may change as long as the blocks of every key stay the same size.\<close>

lemma native_ok_set_native:
  assumes ok: "native_ok st e" and s': "elora_ok s'" and sz: "\<And>w. sizes_of w s' = sizes_of w (e, host st)"
    and nid: "next_native_id (manager st) \<le> n" "n \<le> 2 ^ 31"
  shows "native_ok (upd_manager (\<lambda>m. m\<lparr>next_native_id := n\<rparr>) (set_native s' st)) (fst s')"
proof -
  let ?st = "upd_manager (\<lambda>m. m\<lparr>next_native_id := n\<rparr>) (set_native s' st)"
  have "block_sizes ?st ls = block_sizes st ls" for ls by (rule bytes_cong) simp
  moreover have "(fst s', host ?st) = s'" by simp
  ultimately show ?thesis
    using ok s' nid unfolding native_ok_def Let_def sz
    by (simp add: sz) (meson order.strict_trans2)
qed

lemma fresh_native_id:
  assumes "native_ok st e" and "next_native_id (manager st) < 2 ^ 31"
    and "dict_get (native_ids (manager st)) k = Some i"
  shows "word_of_int i \<noteq> (word_of_int (next_native_id (manager st)) :: 32 word)"
proof -
  have "1 \<le> i" "i < next_native_id (manager st)" using assms by (auto simp: native_ok_def Let_def)
  with assms(2) show ?thesis by (subst word_of_int_int32_inj) auto
qed

lemma fresh_native_id_sizes:
  assumes "native_ok st e" and "next_native_id (manager st) < 2 ^ 31"
  shows "sizes_of (word_of_int (next_native_id (manager st))) (e, host st) = []"
  using assms fresh_native_id [OF assms] by (simp add: native_ok_def Let_def) metis

text \<open>The outcome of a load when the native extension is present.\<close>

lemma load_native_cases:
  assumes m: "malloc_ok malloc" and ok: "native_ok st e" and e: "native (manager st) = Some e"
    and a: "dict_get (adapters (manager st)) aid = None"
    and fits: "resident_bytes st + incoming st layers \<le> memory_budget_bytes (manager st)"
    and nid: "next_native_id (manager st) < 2 ^ 31"
  obtains s' where "load_adapter malloc aid layers st =
      (Inr (), set_native s' (add_native_id aid (add_record aid layers st)))"
      "elora_ok s'" "other_blocks s' = other_blocks (e, host st)"
      "\<And>w. sizes_of w s' = (if w = word_of_int (next_native_id (manager st))
         then map word_of_int (block_sizes st (dict_values layers)) else sizes_of w (e, host st))"
  | s' where "load_adapter malloc aid layers st = (Inl AdapterBudgetError,
        upd_manager (\<lambda>m. m\<lparr>next_native_id := next_native_id m + 1\<rparr>) (set_native s' st))"
      "elora_ok s'" "other_blocks s' = other_blocks (e, host st)"
      "\<And>w. sizes_of w s' = sizes_of w (e, host st)"
proof -
  let ?k = "word_of_int (next_native_id (manager st)) :: 32 word"
  let ?ws = "map word_of_int (block_sizes st (dict_values layers)) :: 64 word list"
  obtain b s1 where s1: "alloc_all (alloc_step malloc) ?k ?ws (e, host st) = (b, s1)"
    by (metis surj_pair)
  have budget: "memory_budget_bytes (manager st) < 2 ^ 64" and n1: "1 \<le> next_native_id (manager st)"
    and eok: "elora_ok (e, host st)"
    using ok by (simp_all add: native_ok_def Let_def)
  have mok: "malloc_ok malloc \<and> elora_ok (e, host st)" using m eok by simp
  have empty: "sizes_of ?k (e, host st) = []" by (rule fresh_native_id_sizes [OF ok nid])
  note load = load_native [OF a fits e budget refl _ nid s1, unfolded Let_def]
  show thesis
  proof (cases b)
    case True
    show thesis
    proof (rule that(1) [of s1])
      show "load_adapter malloc aid layers st =
          (Inr (), set_native s1 (add_native_id aid (add_record aid layers st)))"
        using load True n1 by simp
      show "elora_ok s1" "other_blocks s1 = other_blocks (e, host st)"
        using el.alloc_all_ok [OF mok s1] by simp_all
      show "sizes_of w s1 = (if w = ?k then ?ws else sizes_of w (e, host st))" for w
        using el.alloc_all_sizes [OF s1] True empty by simp
    qed
  next
    case False
    let ?s = "execute_dependency_eviction ?k s1"
    have nids: "dict_get (native_ids (manager st)) aid = None"
      using ok a by (simp add: native_ok_def Let_def)
    show thesis
    proof (rule that(2) [of ?s])
      show "load_adapter malloc aid layers st = (Inl AdapterBudgetError,
          upd_manager (\<lambda>m. m\<lparr>next_native_id := next_native_id m + 1\<rparr>) (set_native ?s st))"
        using load False n1 a nids
        by (simp add: drop_adapter_def set_native_def py_dict.del_set_fresh)
      show "elora_ok ?s" "other_blocks ?s = other_blocks (e, host st)"
        "sizes_of w ?s = sizes_of w (e, host st)" for w
        using el.rollback [OF mok empty s1] by simp_all
    qed
  qed
qed

text \<open>Adding a record whose bytes fit keeps the registry well-formed.\<close>

lemma add_record_bytes:
  assumes "dict_get (adapters (manager st)) aid = None"
  shows "resident_bytes (add_record aid layers st) = resident_bytes st + incoming st layers"
proof -
  have "byte_size (add_record aid layers st) r = byte_size st r" for r by (rule bytes_cong) simp
  moreover have "byte_size st \<lparr>adapter_id = aid, rec_layers = layers\<rparr> = incoming st layers"
    by (simp add: byte_size_def incoming_def)
  ultimately show ?thesis
    using py_dict.total_set_fresh [OF assms, of "byte_size st"] by (simp add: resident_bytes_items)
qed

lemma native_ok_loaded:
  assumes ok: "native_ok st e" and a: "dict_get (adapters (manager st)) aid = None"
    and nid: "next_native_id (manager st) < 2 ^ 31"
    and small: "\<forall>n \<in> set (block_sizes st (dict_values layers)). 0 \<le> n \<and> n < 2 ^ 64"
    and s': "elora_ok s'"
    and sz: "\<And>w. sizes_of w s' = (if w = word_of_int (next_native_id (manager st))
         then map word_of_int (block_sizes st (dict_values layers)) else sizes_of w (e, host st))"
  shows "native_ok (set_native s' (add_native_id aid (add_record aid layers st))) (fst s')"
proof -
  let ?st = "set_native s' (add_native_id aid (add_record aid layers st))"
  let ?n = "next_native_id (manager st)"
  have bs: "block_sizes ?st ls = block_sizes st ls" for ls by (rule bytes_cong) simp
  have N: "dict_ok (native_ids (manager st))"
    "\<forall>k. dict_get (native_ids (manager st)) k = None \<longleftrightarrow> dict_get (adapters (manager st)) k = None"
    "\<forall>k i. dict_get (native_ids (manager st)) k = Some i \<longrightarrow> 1 \<le> i \<and> i < ?n"
    "\<forall>k k' i. dict_get (native_ids (manager st)) k = Some i \<and> dict_get (native_ids (manager st)) k' = Some i \<longrightarrow> k = k'"
    "1 \<le> ?n" "memory_budget_bytes (manager st) < 2 ^ 64"
    "\<forall>k i r. dict_get (native_ids (manager st)) k = Some i \<and> dict_get (adapters (manager st)) k = Some r \<longrightarrow>
       map uint (sizes_of (word_of_int i) (e, host st)) = block_sizes st (dict_values (rec_layers r))"
    "\<forall>w. (\<forall>k i. dict_get (native_ids (manager st)) k = Some i \<longrightarrow> w \<noteq> word_of_int i) \<longrightarrow> sizes_of w (e, host st) = []"
    using ok by (simp_all add: native_ok_def Let_def)
  have fresh: "dict_get (native_ids (manager st)) k = Some i \<Longrightarrow> (word_of_int i :: 32 word) \<noteq> word_of_int ?n" for k i
    by (rule fresh_native_id [OF ok nid])
  have rd: "map uint (map word_of_int (block_sizes st (dict_values layers)) :: 64 word list) =
      block_sizes st (dict_values layers)"
    using small by (auto simp: uint_of_size comp_def intro!: map_idI)
  have lt: "dict_get (native_ids (manager st)) k = Some i \<Longrightarrow> i < ?n" for k i using N(3) by blast
  have 1: "\<forall>k i r. dict_get (native_ids (manager ?st)) k = Some i \<and> dict_get (adapters (manager ?st)) k = Some r \<longrightarrow>
       map uint (sizes_of (word_of_int i) s') = block_sizes st (dict_values (rec_layers r))"
    using N(7) fresh rd by (auto simp: py_dict.get_set sz)
  have 2: "\<forall>w. (\<forall>k i. dict_get (native_ids (manager ?st)) k = Some i \<longrightarrow> w \<noteq> word_of_int i) \<longrightarrow> sizes_of w s' = []"
  proof (intro allI impI)
    fix w :: "32 word"
    assume *: "\<forall>k i. dict_get (native_ids (manager ?st)) k = Some i \<longrightarrow> w \<noteq> word_of_int i"
    then have "w \<noteq> word_of_int ?n" by (auto simp: py_dict.get_set dest: spec [of _ aid])
    moreover have "\<forall>k i. dict_get (native_ids (manager st)) k = Some i \<longrightarrow> w \<noteq> word_of_int i"
    proof (intro allI impI)
      fix k i assume k: "dict_get (native_ids (manager st)) k = Some i"
      then have "k \<noteq> aid" using N(2) a by (metis option.distinct(1))
      with k have "dict_get (native_ids (manager ?st)) k = Some i" by (simp add: py_dict.get_set)
      with * show "w \<noteq> word_of_int i" by blast
    qed
    ultimately show "sizes_of w s' = []" using N(8) sz by simp
  qed
  show ?thesis
    unfolding native_ok_def Let_def bs
    using N(1,2,3,5,6) nid s' 1 2 lt N(4)
    by (auto simp: py_dict.get_set py_dict.ok_set) (force dest: lt)+
qed

lemma manager_okD:
  assumes "manager_ok st"
  shows "dict_ok (adapters (manager st))"
    "\<And>k r. dict_get (adapters (manager st)) k = Some r \<Longrightarrow> adapter_id r = k"
    "pred_option (\<lambda>a. dict_get (adapters (manager st)) a \<noteq> None) (active_adapter_id (manager st))"
    "resident_bytes st \<le> memory_budget_bytes (manager st)"
    "native (manager st) = None \<Longrightarrow> native_ids (manager st) = []"
    "\<And>e. native (manager st) = Some e \<Longrightarrow> native_ok st e"
  using assms by (auto simp: manager_ok_def Let_def)

lemma manager_okI:
  assumes "dict_ok (adapters (manager st))"
    "\<And>k r. dict_get (adapters (manager st)) k = Some r \<Longrightarrow> adapter_id r = k"
    "pred_option (\<lambda>a. dict_get (adapters (manager st)) a \<noteq> None) (active_adapter_id (manager st))"
    "resident_bytes st \<le> memory_budget_bytes (manager st)"
    "native (manager st) = None \<Longrightarrow> native_ids (manager st) = []"
    "\<And>e. native (manager st) = Some e \<Longrightarrow> native_ok st e"
  shows "manager_ok st"
  using assms by (auto simp: manager_ok_def Let_def split: option.split)

lemma resident_bytes_cong:
  assumes "\<And>l. layer_bytes st' l = layer_bytes st l" and "adapters (manager st') = adapters (manager st)"
  shows "resident_bytes st' = resident_bytes st"
  using bytes_cong(1) [OF assms(1)] assms(2) by (simp add: resident_bytes_def)

text \<open>The registry part of a successful load, for a session that agrees with it outside the native side.\<close>

lemma registry_loaded:
  assumes ok: "manager_ok st" and a: "dict_get (adapters (manager st)) aid = None"
    and fits: "resident_bytes st + incoming st layers \<le> memory_budget_bytes (manager st)"
    and st': "layer_at st' = layer_at st"
      "adapters (manager st') = dict_set (adapters (manager st)) aid \<lparr>adapter_id = aid, rec_layers = layers\<rparr>"
      "active_adapter_id (manager st') = active_adapter_id (manager st)"
      "memory_budget_bytes (manager st') = memory_budget_bytes (manager st)"
    and nat: "native (manager st') = None \<Longrightarrow> native_ids (manager st') = []"
      "\<And>e. native (manager st') = Some e \<Longrightarrow> native_ok st' e"
  shows "manager_ok st' \<and> resident_bytes st' = resident_bytes st + incoming st layers"
proof -
  note D = manager_okD [OF ok]
  have "resident_bytes st' = resident_bytes (add_record aid layers st)"
    by (rule resident_bytes_cong) (simp_all add: st')
  then have rb: "resident_bytes st' = resident_bytes st + incoming st layers"
    using add_record_bytes [OF a] by simp
  have "manager_ok st'"
  proof (rule manager_okI)
    show "dict_ok (adapters (manager st'))" using D(1) by (simp add: st' py_dict.ok_set)
    show "adapter_id r = k" if "dict_get (adapters (manager st')) k = Some r" for k r
      using that D(2) by (auto simp: st' py_dict.get_set split: if_splits)
    show "pred_option (\<lambda>a. dict_get (adapters (manager st')) a \<noteq> None) (active_adapter_id (manager st'))"
      using D(3) by (cases "active_adapter_id (manager st)") (simp_all add: st' py_dict.get_set)
    show "resident_bytes st' \<le> memory_budget_bytes (manager st')" using rb fits by (simp add: st')
  qed (use nat in blast)+
  with rb show ?thesis by simp
qed

lemma block_sizes_small:
  assumes "resident_bytes st + incoming st layers \<le> b" and "b < 2 ^ 64"
  shows "\<forall>n \<in> set (block_sizes st (dict_values layers)). 0 \<le> n \<and> n < 2 ^ 64"
proof
  fix n assume "n \<in> set (block_sizes st (dict_values layers))"
  then obtain l where l: "l \<in> set (dict_values layers)" "n = layer_bytes st l"
    by (auto simp: block_sizes_def)
  then have "n \<le> incoming st layers" unfolding incoming_def l(2) by (intro sum_list_item_le) auto
  with assms resident_bytes_nonneg [of st] show "0 \<le> n \<and> n < 2 ^ 64" by (simp add: l(2))
qed

text \<open>A load succeeds, and then adds the record, or raises, and then leaves no trace.\<close>

definition same_registry :: "('s, 'd) session \<Rightarrow> ('s, 'd) session \<Rightarrow> bool" where
  "same_registry st st' \<longleftrightarrow>
     layer_at st' = layer_at st \<and> adapters (manager st') = adapters (manager st) \<and>
     active_adapter_id (manager st') = active_adapter_id (manager st) \<and>
     memory_budget_bytes (manager st') = memory_budget_bytes (manager st) \<and>
     native_ids (manager st') = native_ids (manager st)"

text \<open>The blocks of every native key, and the memory of others.\<close>

definition native_view :: "('s, 'd) session \<Rightarrow> ((32 word \<Rightarrow> 64 word list) \<times> (64 word \<times> 64 word) list) option" where
  "native_view st =
     map_option (\<lambda>e. (\<lambda>w. sizes_of w (e, host st), other_blocks (e, host st))) (native (manager st))"

lemma load_outcome:
  assumes m: "malloc_ok malloc" and ok: "manager_ok st"
    and nid: "native_backed (manager st) \<Longrightarrow> next_native_id (manager st) < 2 ^ 31"
  obtains (loaded) st' where "load_adapter malloc aid layers st = (Inr (), st')" "manager_ok st'"
      "dict_get (adapters (manager st)) aid = None"
      "resident_bytes st + incoming st layers \<le> memory_budget_bytes (manager st)"
      "layer_at st' = layer_at st"
      "adapters (manager st') = adapters (manager st) @ [(aid, \<lparr>adapter_id = aid, rec_layers = layers\<rparr>)]"
      "active_adapter_id (manager st') = active_adapter_id (manager st)"
      "memory_budget_bytes (manager st') = memory_budget_bytes (manager st)"
      "native_backed (manager st') = native_backed (manager st)"
      "next_native_id (manager st') = next_native_id (manager st) + (if native_backed (manager st) then 1 else 0)"
      "map_option snd (native_view st') = map_option snd (native_view st)"
      "resident_bytes st' = resident_bytes st + incoming st layers"
      "native_ids (manager st') = native_ids (manager st) @
         (if native_backed (manager st) then [(aid, next_native_id (manager st))] else [])"
      "native (manager st) \<noteq> None \<Longrightarrow>
         fst (the (native_view st)) (word_of_int (next_native_id (manager st))) = [] \<and>
         fst (the (native_view st')) = (fst (the (native_view st)))
           (word_of_int (next_native_id (manager st)) := map word_of_int (block_sizes st (dict_values layers)))"
  | (failed) err st' where "load_adapter malloc aid layers st = (Inl err, st')" "manager_ok st'"
      "err = (if dict_get (adapters (manager st)) aid \<noteq> None then ValueError else AdapterBudgetError)"
      "dict_get (adapters (manager st)) aid \<noteq> None \<or> native_backed (manager st) \<or>
       memory_budget_bytes (manager st) < resident_bytes st + incoming st layers"
      "same_registry st st'" "native_view st' = native_view st"
      "native_backed (manager st') = native_backed (manager st)"
      "next_native_id (manager st') \<le> next_native_id (manager st) + 1"
proof -
  consider (dup) "dict_get (adapters (manager st)) aid \<noteq> None"
    | (big) "dict_get (adapters (manager st)) aid = None"
        "memory_budget_bytes (manager st) < resident_bytes st + incoming st layers"
    | (fits) "dict_get (adapters (manager st)) aid = None"
        "resident_bytes st + incoming st layers \<le> memory_budget_bytes (manager st)"
    by linarith
  then show thesis
  proof cases
    case dup
    then show thesis using load_rejected(1) [OF dup] ok by (intro failed) (auto simp: same_registry_def)
  next
    case big
    then show thesis using load_rejected(2) [OF big] ok by (intro failed) (auto simp: same_registry_def)
  next
    case fits
    note app = dict_set_fresh [OF fits(1) [unfolded dict_get_def]]
    show thesis
    proof (cases "native (manager st)")
      case None
      let ?st = "add_record aid layers st"
      have R: "manager_ok ?st \<and> resident_bytes ?st = resident_bytes st + incoming st layers"
        using manager_okD(5) [OF ok None] by (intro registry_loaded [OF ok fits]) (simp_all add: None)
      show thesis
        by (rule loaded [OF load_python_only [OF fits None]])
          (use R fits None in \<open>simp_all add: app native_backed_def native_view_def\<close>)
    next
      case (Some e)
      note nok = manager_okD(6) [OF ok Some]
      have n31: "next_native_id (manager st) < 2 ^ 31" using nid by (simp add: native_backed_def Some)
      have "memory_budget_bytes (manager st) < 2 ^ 64" using nok by (simp add: native_ok_def Let_def)
      note small = block_sizes_small [OF fits(2) this]
      show thesis
      proof (rule load_native_cases [OF m nok Some fits n31])
        fix s'
        assume load: "load_adapter malloc aid layers st =
            (Inr (), set_native s' (add_native_id aid (add_record aid layers st)))"
          and s': "elora_ok s'" "other_blocks s' = other_blocks (e, host st)"
          and sz: "\<And>w. sizes_of w s' = (if w = word_of_int (next_native_id (manager st))
            then map word_of_int (block_sizes st (dict_values layers)) else sizes_of w (e, host st))"
        let ?st = "set_native s' (add_native_id aid (add_record aid layers st))"
        have "native_ok ?st (fst s')" by (rule native_ok_loaded [OF nok fits(1) n31 small s'(1) sz])
        then have R: "manager_ok ?st \<and> resident_bytes ?st = resident_bytes st + incoming st layers"
          by (intro registry_loaded [OF ok fits]) simp_all
        have "dict_get (native_ids (manager st)) aid = None"
          using nok fits(1) by (simp add: native_ok_def Let_def)
        then have idapp: "dict_set (native_ids (manager st)) aid i = native_ids (manager st) @ [(aid, i)]" for i
          by (simp add: dict_get_def dict_set_fresh)
        show thesis
          by (rule loaded [OF load])
            (use R fits Some s' sz fresh_native_id_sizes [OF nok n31] in
              \<open>simp_all add: app idapp native_backed_def native_view_def fun_eq_iff\<close>)
      next
        fix s'
        let ?st = "upd_manager (\<lambda>m. m\<lparr>next_native_id := next_native_id m + 1\<rparr>) (set_native s' st)"
        assume load: "load_adapter malloc aid layers st = (Inl AdapterBudgetError, ?st)"
          and s': "elora_ok s'" "other_blocks s' = other_blocks (e, host st)"
          and sz: "\<And>w. sizes_of w s' = sizes_of w (e, host st)"
        have nok': "native_ok ?st (fst s')"
          using native_ok_set_native [OF nok s'(1) sz, of "next_native_id (manager st) + 1"] n31 by simp
        have rb: "resident_bytes ?st = resident_bytes st" by (rule resident_bytes_cong) simp_all
        have "manager_ok ?st"
          by (rule manager_okI) (use manager_okD(1-4) [OF ok] nok' rb in simp_all)
        then show thesis
          using fits Some s'(2) sz
          by (intro failed [OF load]) (simp_all add: same_registry_def native_view_def native_backed_def)
      qed
    qed
  qed
qed

subsection \<open>Unloading\<close>

lemma clear_idem [simp]: "clear_gradient_gate (clear_gradient_gate l) = clear_gradient_gate l"
  by (rule plugin_layer_eqI) simp_all

lemma clear_bytes [simp]: "parameter_bytes (clear_gradient_gate l) = parameter_bytes l"
  by (rule unhooked_fields) simp

lemma fold_clear_layer:
  "manager (fold clear_layer ls st) = manager st \<and> host (fold clear_layer ls st) = host st \<and>
   layer_at (fold clear_layer ls st) =
     (\<lambda>l. if l \<in> set ls then clear_gradient_gate (layer_at st l) else layer_at st l)"
proof (induction ls arbitrary: st)
  case (Cons l ls)
  from Cons [of "clear_layer l st"] show ?case by (auto simp: clear_layer_def)
qed simp

text \<open>The session after a record was popped, before the native side is told.\<close>

definition remove_record :: "string \<Rightarrow> adapter_record \<Rightarrow> ('s, 'd) session \<Rightarrow> ('s, 'd) session" where
  "remove_record aid rec st =
     st\<lparr>manager := (manager st)\<lparr>adapters := dict_del (adapters (manager st)) aid,
          active_adapter_id := (if active_adapter_id (manager st) = Some aid then None
                                else active_adapter_id (manager st)),
          native_ids := dict_del (native_ids (manager st)) aid\<rparr>,
        layer_at := (\<lambda>l. if l \<in> set (dict_values (rec_layers rec))
                         then clear_gradient_gate (layer_at st l) else layer_at st l)\<rparr>"

lemma remove_record_simps [simp]:
  "host (remove_record aid rec st) = host st"
  "adapters (manager (remove_record aid rec st)) = dict_del (adapters (manager st)) aid"
  "active_adapter_id (manager (remove_record aid rec st)) =
     (if active_adapter_id (manager st) = Some aid then None else active_adapter_id (manager st))"
  "native_ids (manager (remove_record aid rec st)) = dict_del (native_ids (manager st)) aid"
  "native (manager (remove_record aid rec st)) = native (manager st)"
  "next_native_id (manager (remove_record aid rec st)) = next_native_id (manager st)"
  "memory_budget_bytes (manager (remove_record aid rec st)) = memory_budget_bytes (manager st)"
  "layer_at (remove_record aid rec st) l = (if l \<in> set (dict_values (rec_layers rec))
     then clear_gradient_gate (layer_at st l) else layer_at st l)"
  by (simp_all add: remove_record_def)

lemma session_cong:
  "manager st = manager st' \<Longrightarrow> host st = host st' \<Longrightarrow> layer_at st = layer_at st' \<Longrightarrow>
   (st :: ('s, 'd) session) = st'"
  by simp

lemma unload_absent:
  "dict_get (adapters (manager st)) aid = None \<Longrightarrow> unload_adapter aid st = (Inr (), st)"
  by (simp add: unload_adapter_def)

lemma unload_present:
  assumes r: "dict_get (adapters (manager st)) aid = Some rec" and ok: "manager_ok st"
  shows "unload_adapter aid st =
    (Inr (), case native (manager st) of
        None \<Rightarrow> remove_record aid rec st
      | Some e \<Rightarrow> set_native (execute_dependency_eviction
          (word_of_int (the (dict_get (native_ids (manager st)) aid))) (e, host st)) (remove_record aid rec st))"
proof (cases "native (manager st)")
  case None
  then have "native_ids (manager st) = []" using manager_okD(5) [OF ok] by simp
  with None r show ?thesis
    by (auto simp: unload_adapter_def Let_def native_backed_def fold_clear_layer remove_record_def
        dict_del_def intro!: session_cong)
next
  case (Some e)
  note nok = manager_okD(6) [OF ok Some]
  obtain i where i: "dict_get (native_ids (manager st)) aid = Some i"
    using nok r by (fastforce simp: native_ok_def Let_def)
  then have "0 \<le> i" "i < 2 ^ 31" using nok by (fastforce simp: native_ok_def Let_def)+
  note ev = native_evict_step [OF this]
  show ?thesis
    using r Some i
    by (auto simp: unload_adapter_def Let_def native_backed_def fold_clear_layer remove_record_def
        on_native_def ev set_native_def intro!: session_cong)
qed

lemma remove_record_bytes:
  assumes "manager_ok st" and "dict_get (adapters (manager st)) aid = Some rec"
  shows "resident_bytes (remove_record aid rec st) = resident_bytes st - byte_size st rec"
proof -
  have "byte_size (remove_record aid rec st) r = byte_size st r" for r by (rule bytes_cong) simp
  then show ?thesis
    using py_dict.total_del [OF manager_okD(1) [OF assms(1)] assms(2), of "byte_size st"]
    by (simp add: resident_bytes_items)
qed

lemma native_ok_removed:
  assumes ok: "native_ok st e" and r: "dict_get (adapters (manager st)) aid = Some rec"
    and i: "dict_get (native_ids (manager st)) aid = Some i"
    and s': "s' = execute_dependency_eviction (word_of_int i) (e, host st)"
  shows "native_ok (set_native s' (remove_record aid rec st)) (fst s')"
proof -
  let ?st = "set_native s' (remove_record aid rec st)"
  let ?ids = "native_ids (manager st)"
  have bs: "block_sizes ?st ls = block_sizes st ls" for ls by (rule bytes_cong) simp
  have sz: "sizes_of w s' = (if w = word_of_int i then [] else sizes_of w (e, host st))" for w
    unfolding s' by (rule el.evict_sizes)
  have N: "elora_ok (e, host st)" "dict_ok ?ids"
    "\<forall>k. dict_get ?ids k = None \<longleftrightarrow> dict_get (adapters (manager st)) k = None"
    "\<forall>k i. dict_get ?ids k = Some i \<longrightarrow> 1 \<le> i \<and> i < next_native_id (manager st)"
    "\<forall>k k' i. dict_get ?ids k = Some i \<and> dict_get ?ids k' = Some i \<longrightarrow> k = k'"
    "1 \<le> next_native_id (manager st)" "next_native_id (manager st) \<le> 2 ^ 31"
    "memory_budget_bytes (manager st) < 2 ^ 64"
    "\<forall>k i r. dict_get ?ids k = Some i \<and> dict_get (adapters (manager st)) k = Some r \<longrightarrow>
       map uint (sizes_of (word_of_int i) (e, host st)) = block_sizes st (dict_values (rec_layers r))"
    "\<forall>w. (\<forall>k i. dict_get ?ids k = Some i \<longrightarrow> w \<noteq> word_of_int i) \<longrightarrow> sizes_of w (e, host st) = []"
    using ok by (simp_all add: native_ok_def Let_def)
  have rng: "0 \<le> j \<and> j < 2 ^ 31" if "dict_get ?ids k = Some j" for k j
    using that N(4,7) by fastforce
  have other: "(word_of_int j :: 32 word) \<noteq> word_of_int i" if "dict_get ?ids k = Some j" "k \<noteq> aid" for k j
  proof -
    have "j \<noteq> i" using that N(5) i by blast
    then show ?thesis using rng [OF that(1)] rng [OF i] by (subst word_of_int_int32_inj) auto
  qed
  have 1: "\<forall>k j r. dict_get (native_ids (manager ?st)) k = Some j \<and> dict_get (adapters (manager ?st)) k = Some r \<longrightarrow>
       map uint (sizes_of (word_of_int j) s') = block_sizes st (dict_values (rec_layers r))"
    using N(9) other by (auto simp: py_dict.get_del sz)
  have 2: "\<forall>w. (\<forall>k j. dict_get (native_ids (manager ?st)) k = Some j \<longrightarrow> w \<noteq> word_of_int j) \<longrightarrow> sizes_of w s' = []"
  proof (intro allI impI)
    fix w :: "32 word"
    assume *: "\<forall>k j. dict_get (native_ids (manager ?st)) k = Some j \<longrightarrow> w \<noteq> word_of_int j"
    show "sizes_of w s' = []"
    proof (cases "w = word_of_int i")
      case False
      have "\<forall>k j. dict_get ?ids k = Some j \<longrightarrow> w \<noteq> word_of_int j"
        using * False i by (auto simp: py_dict.get_del split: if_splits) (metis option.inject)
      then show ?thesis using N(10) sz by simp
    qed (simp add: sz)
  qed
  have "elora_ok s'" using evict_ok [OF N(1)] by (simp add: s')
  then show ?thesis
    unfolding native_ok_def Let_def bs
    using N(2-8) 1 2 by (auto simp: py_dict.get_del py_dict.ok_del split: if_splits)
qed

text \<open>Dropping a record, with whatever the native side does about it, keeps the registry well formed.\<close>

lemma removed_bytes:
  assumes "manager_ok st" and "dict_get (adapters (manager st)) aid = Some rec"
    and "layer_at st' = layer_at (remove_record aid rec st)"
    and "adapters (manager st') = dict_del (adapters (manager st)) aid"
  shows "resident_bytes st' = resident_bytes st - byte_size st rec"
  using remove_record_bytes [OF assms(1,2)]
    resident_bytes_cong [of "remove_record aid rec st" st'] assms(3,4) by simp

lemma removed_manager_ok:
  assumes ok: "manager_ok st" and rec: "dict_get (adapters (manager st)) aid = Some rec"
    and layers: "layer_at st' = layer_at (remove_record aid rec st)"
    and adapters: "adapters (manager st') = dict_del (adapters (manager st)) aid"
    and active: "active_adapter_id (manager st') = (if active_adapter_id (manager st) = Some aid then None
       else active_adapter_id (manager st))"
    and budget: "memory_budget_bytes (manager st') = memory_budget_bytes (manager st)"
    and python: "native (manager st') = None \<Longrightarrow> native_ids (manager st') = []"
    and nat: "\<And>e. native (manager st') = Some e \<Longrightarrow> native_ok st' e"
  shows "manager_ok st'"
proof (rule manager_okI)
  note D = manager_okD [OF ok]
  show "dict_ok (adapters (manager st'))" using D(1) by (simp add: adapters py_dict.ok_del)
  show "adapter_id r = k" if "dict_get (adapters (manager st')) k = Some r" for k r
    using that D(2) by (auto simp: adapters py_dict.get_del split: if_splits)
  show "pred_option (\<lambda>a. dict_get (adapters (manager st')) a \<noteq> None) (active_adapter_id (manager st'))"
    using D(3) by (cases "active_adapter_id (manager st)") (auto simp: adapters active py_dict.get_del)
  show "resident_bytes st' \<le> memory_budget_bytes (manager st')"
    using removed_bytes [OF ok rec layers adapters] D(4) byte_size_nonneg [of st rec] budget by simp
qed (use python nat in blast)+

lemma unload_outcome:
  assumes ok: "manager_ok st"
  obtains st' where "unload_adapter aid st = (Inr (), st')" "manager_ok st'"
    "adapters (manager st') = dict_del (adapters (manager st)) aid"
    "active_adapter_id (manager st') = (if active_adapter_id (manager st) = Some aid then None
       else active_adapter_id (manager st))"
    "memory_budget_bytes (manager st') = memory_budget_bytes (manager st)"
    "native_backed (manager st') = native_backed (manager st)"
    "next_native_id (manager st') = next_native_id (manager st)"
    "\<And>l. layer_at st' l =
       (if l \<in> set (case dict_get (adapters (manager st)) aid of None \<Rightarrow> [] | Some r \<Rightarrow> dict_values (rec_layers r))
        then clear_gradient_gate (layer_at st l) else layer_at st l)"
    "resident_bytes st' = resident_bytes st -
       (case dict_get (adapters (manager st)) aid of None \<Rightarrow> 0 | Some r \<Rightarrow> byte_size st r)"
    "map_option snd (native_view st') = map_option snd (native_view st)"
    "native (manager st) \<noteq> None \<Longrightarrow>
       (fst (the (native_view st')) =
         (case dict_get (native_ids (manager st)) aid of None \<Rightarrow> fst (the (native_view st))
          | Some i \<Rightarrow> (fst (the (native_view st)))(word_of_int i := [])))"
    "native_ids (manager st') = dict_del (native_ids (manager st)) aid"
proof (cases "dict_get (adapters (manager st)) aid")
  case None
  note D = manager_okD [OF ok]
  have ids: "dict_get (native_ids (manager st)) aid = None"
    using None D(5,6) by (cases "native (manager st)") (auto simp: native_ok_def Let_def)
  have act: "active_adapter_id (manager st) \<noteq> Some aid" using D(3) None by auto
  show thesis
    by (rule that [OF unload_absent [OF None] ok])
      (use None act ids in \<open>simp_all add: py_dict.del_absent\<close>)
next
  case (Some rec)
  note D = manager_okD [OF ok]
  note un = unload_present [OF Some ok]
  note reg = removed_manager_ok [OF ok Some]
  note rb = removed_bytes [OF ok Some]
  show thesis
  proof (cases "native (manager st)")
    case None
    let ?st = "remove_record aid rec st"
    have "manager_ok ?st" by (rule reg) (use None D(5) in \<open>simp_all add: dict_del_def\<close>)
    then show thesis
      by (rule that [OF un [unfolded None option.case]])
        (use None Some rb [of ?st] in \<open>simp_all add: native_backed_def native_view_def\<close>)
  next
    case e: (Some e)
    note nok = D(6) [OF e]
    obtain i where i: "dict_get (native_ids (manager st)) aid = Some i"
      using nok Some by (fastforce simp: native_ok_def Let_def)
    let ?s = "execute_dependency_eviction (word_of_int i) (e, host st)"
    let ?st = "set_native ?s (remove_record aid rec st)"
    have eok: "elora_ok (e, host st)" using nok by (simp add: native_ok_def Let_def)
    have "manager_ok ?st"
      by (rule reg) (use native_ok_removed [OF nok Some i refl] in \<open>simp_all add: set_native_def\<close>)
    moreover have "unload_adapter aid st = (Inr (), ?st)" using un e i by simp
    ultimately show thesis
      using e Some i rb [of ?st] evict_ok [OF eok, of "word_of_int i"]
      by (intro that [of ?st])
        (simp_all add: native_backed_def native_view_def el.evict_sizes fun_eq_iff)
  qed
qed

section \<open>Reachable sessions\<close>

datatype manager_request =
    Load string "(string, layer_ref) dict"
  | Unload string
  | Activate string
  | Swap "string option" string

fun request_step :: "malloc \<Rightarrow> manager_request \<Rightarrow> ('s, 'd) session \<Rightarrow> unit result \<times> ('s, 'd) session" where
  "request_step malloc (Load aid layers) st = load_adapter malloc aid layers st"
| "request_step malloc (Unload aid) st = unload_adapter aid st"
| "request_step malloc (Activate aid) st = activate aid st"
| "request_step malloc (Swap from_id to_id) st = swap_adapter from_id to_id st"

definition resident_layers :: "('s, 'd) session \<Rightarrow> layer_ref set" where
  "resident_layers st =
     {l. \<exists>k r. dict_get (adapters (manager st)) k = Some r \<and> l \<in> set (dict_values (rec_layers r))}"

text \<open>
  Requests and anything else the program does to layers (training, arming gates, new layers)
  that keeps the size of the resident ones. The number counts the requests.
\<close>

inductive manager_reach :: "malloc \<Rightarrow> nat \<Rightarrow> ('s, 'd) session \<Rightarrow> bool" for malloc where
  start: "manager_init available budget = Inr m \<Longrightarrow> budget < 2 ^ 64 \<Longrightarrow>
    distinct (map fst (live h)) \<Longrightarrow> bad_frees h = [] \<Longrightarrow>
    manager_reach malloc 0 \<lparr>manager = m, layer_at = f, host = h\<rparr>"
| request: "manager_reach malloc n st \<Longrightarrow> manager_reach malloc (Suc n) (snd (request_step malloc req st))"
| elsewhere: "manager_reach malloc n st \<Longrightarrow>
    (\<And>l. l \<in> resident_layers st \<Longrightarrow> parameter_bytes (f l) = layer_bytes st l) \<Longrightarrow>
    manager_reach malloc n (st\<lparr>layer_at := f\<rparr>)"

lemma manager_init_ok:
  assumes "manager_init available budget = Inr m" and "budget < 2 ^ 64"
    and "distinct (map fst (live h))" and "bad_frees h = []"
  shows "manager_ok \<lparr>manager = m, layer_at = f, host = h\<rparr> \<and> next_native_id m = 1"
proof -
  have m: "m = \<lparr>memory_budget_bytes = budget, adapters = [], active_adapter_id = None,
      native = (if available then Some elora_init else None), native_ids = [], next_native_id = 1\<rparr>"
    and b: "0 < budget" using assms(1) by (auto simp: manager_init_def split: if_splits)
  have "sizes_of w (elora_init, h) = []" for w
    by (simp add: sizes_of_def blocks_of_def elora_init_def)
  then show ?thesis
    using b assms(2) elora_init_ok [OF assms(3,4)]
    by (simp add: manager_ok_def Let_def m resident_bytes_def dict_values_def native_ok_def)
qed

lemma manager_ok_elsewhere:
  assumes ok: "manager_ok st" and f: "\<And>l. l \<in> resident_layers st \<Longrightarrow> parameter_bytes (f l) = layer_bytes st l"
  shows "manager_ok (st\<lparr>layer_at := f\<rparr>)"
proof -
  let ?st = "st\<lparr>layer_at := f\<rparr>"
  note D = manager_okD [OF ok]
  have res: "parameter_bytes (f l) = layer_bytes st l"
    if "dict_get (adapters (manager st)) k = Some r" "l \<in> set (dict_values (rec_layers r))" for k r l
    using f that by (auto simp: resident_layers_def)
  have "byte_size ?st r = byte_size st r" "block_sizes ?st (dict_values (rec_layers r)) = block_sizes st (dict_values (rec_layers r))"
    if "dict_get (adapters (manager st)) k = Some r" for k r
    using res [OF that] by (auto simp: byte_size_def block_sizes_def intro!: arg_cong [where f = sum_list] arg_cong [where f = "filter (\<lambda>n. n \<noteq> 0)"])
  note same = this
  have "byte_size ?st r = byte_size st r" if "(k, r) \<in> set (adapters (manager st))" for k r
    using same(1) py_dict.get_Some_iff [OF D(1)] that by blast
  then have rb: "resident_bytes ?st = resident_bytes st"
    by (auto simp: resident_bytes_items intro!: arg_cong [where f = sum_list])
  have "native_ok ?st e" if "native (manager st) = Some e" for e
    using D(6) [OF that] same(2) by (auto simp: native_ok_def Let_def)
  with D rb show ?thesis by (intro manager_okI) simp_all
qed

lemma activate_ok: "manager_ok st \<Longrightarrow> manager_ok (snd (activate aid st))"
proof -
  assume ok: "manager_ok st"
  note D = manager_okD [OF ok]
  let ?st = "upd_manager (\<lambda>m. m\<lparr>active_adapter_id := Some aid\<rparr>) st"
  have "resident_bytes ?st = resident_bytes st" by (rule resident_bytes_cong) simp_all
  moreover have "native_ok ?st e" if "native (manager st) = Some e" for e
    using D(6) [OF that] by (simp add: native_ok_def Let_def block_sizes_def)
  ultimately have "manager_ok ?st" if "dict_get (adapters (manager st)) aid \<noteq> None"
    using D that by (intro manager_okI) simp_all
  with ok show ?thesis by (simp add: activate_def)
qed

lemma request_step_ok:
  assumes "malloc_ok malloc" and "manager_ok st"
    and "native_backed (manager st) \<Longrightarrow> next_native_id (manager st) < 2 ^ 31"
  shows "manager_ok (snd (request_step malloc req st)) \<and>
    next_native_id (manager (snd (request_step malloc req st))) \<le> next_native_id (manager st) + 1"
proof (cases req)
  case (Load aid layers)
  show ?thesis
    by (rule load_outcome [OF assms, of aid layers]) (simp_all add: Load)
next
  case (Unload aid)
  show ?thesis
    by (rule unload_outcome [OF assms(2), of aid]) (simp_all add: Unload)
next
  case (Activate aid)
  with activate_ok [OF assms(2)] show ?thesis by (simp add: activate_def)
next
  case (Swap a b)
  with activate_ok [OF assms(2)] show ?thesis by (simp add: swap_adapter_def activate_def)
qed

lemma reach_ok:
  assumes "manager_reach malloc n st" and m: "malloc_ok malloc" and "n < 2 ^ 31"
  shows "manager_ok st \<and> next_native_id (manager st) \<le> int n + 1"
  using assms(1,3)
proof (induction rule: manager_reach.induct)
  case (start available budget mm h f)
  from manager_init_ok [OF start(1-4), of f] show ?case by (elim conjE) simp
next
  case (request n st req)
  then have IH: "manager_ok st" "next_native_id (manager st) \<le> int n + 1" by simp_all
  have "int n + 1 < 2147483648" using request.prems by simp
  then have "next_native_id (manager st) < 2 ^ 31" using IH(2) by simp
  from request_step_ok [OF m IH(1) this, of req] IH(2) show ?case by simp
next
  case (elsewhere n st f)
  with manager_ok_elsewhere show ?case by auto
qed

section \<open>An example session\<close>

definition example_manager :: manager where
  "example_manager =
     \<lparr>memory_budget_bytes = 400, adapters = [], active_adapter_id = None, native = Some elora_init,
      native_ids = [], next_native_id = 1\<rparr>"

definition example_session :: "(scripted_reader, matrix) session" where
  "example_session =
     \<lparr>manager = example_manager, layer_at = (\<lambda>_. example_layer), host = \<lparr>live = [(9, 4)], bad_frees = []\<rparr>\<rparr>"

lemma example_layer_bytes: "parameter_bytes example_layer = 168"
  by (simp add: parameter_bytes_def param_bytes_def example_layer_facts(3,4))
    (simp add: example_layer_def reset_parameters_def new_parameter_def example_dtype_def)

lemma example_init: "manager_init True 400 = Inr example_manager"
  by (simp add: manager_init_def example_manager_def)

lemma example_reach: "manager_reach malloc 0 example_session"
  unfolding example_session_def by (rule manager_reach.start [OF example_init]) simp_all

lemma example_ok: "manager_ok example_session"
  using reach_ok [OF example_reach example_malloc_ok] by simp

lemma example_fields:
  "next_native_id (manager example_session) = 1" "adapters (manager example_session) = []"
  "memory_budget_bytes (manager example_session) = 400" "resident_bytes example_session = 0"
  "active_adapter_id (manager example_session) = None"
  "layer_at example_session = (\<lambda>_. example_layer)" "native (manager example_session) = Some elora_init"
  by (simp_all add: example_session_def example_manager_def resident_bytes_def dict_values_def)

lemma example_ids: "native_ids (manager example_session) = []" "native_backed (manager example_session)"
  by (simp_all add: example_session_def example_manager_def native_backed_def)

lemma example_incoming: "incoming example_session [(''q'', 0), (''k'', 2)] = 336"
  by (simp add: incoming_def dict_values_def example_fields example_layer_bytes)

section \<open>Properties\<close>

text \<open>
  C1. In every session that requests and outside changes of the layers can reach, the resident
  bytes are within the budget and the active adapter, if any, is resident; with the native
  extension, exactly the resident adapters have native ids, all distinct, and the native
  allocator holds exactly the blocks of their non-empty layers and no others. The bound on the
  number of requests is where native ids leave the 32-bit range.
\<close>

theorem reachable_sessions_ok:
  assumes "manager_reach malloc n st" and "malloc_ok malloc" and "n < 2 ^ 31"
  shows "manager_ok st"
  using reach_ok [OF assms] by simp

theorem reachable_sessions_ok_witness:
  "manager_ok (snd (request_step example_malloc (Unload ''a'')
     (snd (request_step example_malloc (Load ''a'' [(''q'', 0), (''k'', 2)]) example_session))))"
proof -
  have "manager_reach example_malloc (Suc (Suc 0)) (snd (request_step example_malloc (Unload ''a'')
     (snd (request_step example_malloc (Load ''a'' [(''q'', 0), (''k'', 2)]) example_session))))"
    by (intro manager_reach.request example_reach)
  from reachable_sessions_ok [OF this example_malloc_ok] show ?thesis by simp
qed

text \<open>
  C27. A load succeeds only if the id was free and the new total is within the budget; it then
  appends the record, keeps the active adapter and every layer, and the resident bytes grow by
  the bytes of the new layers. It raises ValueError for a resident id and AdapterBudgetError
  otherwise; without the native extension, a load of a free id that fits always succeeds.
\<close>

theorem load_adapter_outcome:
  assumes "malloc_ok malloc" and "manager_ok st"
    and "native_backed (manager st) \<Longrightarrow> next_native_id (manager st) < 2 ^ 31"
  shows "case load_adapter malloc aid layers st of
      (Inr _, st') \<Rightarrow>
        aid \<notin> set (resident_adapter_ids st) \<and>
        resident_bytes st + incoming st layers \<le> memory_budget_bytes (manager st) \<and>
        adapters (manager st') = adapters (manager st) @ [(aid, \<lparr>adapter_id = aid, rec_layers = layers\<rparr>)] \<and>
        active_adapter_id (manager st') = active_adapter_id (manager st) \<and> layer_at st' = layer_at st \<and>
        resident_bytes st' = resident_bytes st + incoming st layers
    | (Inl err, _) \<Rightarrow>
        err = (if aid \<in> set (resident_adapter_ids st) then ValueError else AdapterBudgetError) \<and>
        (aid \<in> set (resident_adapter_ids st) \<or> native_backed (manager st) \<or>
         memory_budget_bytes (manager st) < resident_bytes st + incoming st layers)"
  by (rule load_outcome [OF assms, of aid layers])
    (simp_all add: resident_adapter_ids_def dict_keys_get)

theorem load_adapter_outcome_witness:
  "fst (load_adapter example_malloc ''b'' [(''q'', 0)] (example_session\<lparr>manager :=
     example_manager\<lparr>native := None, memory_budget_bytes := 100\<rparr>\<rparr>)) = Inl AdapterBudgetError"
proof -
  let ?st = "example_session\<lparr>manager := example_manager\<lparr>native := None, memory_budget_bytes := 100\<rparr>\<rparr>"
  have ok: "manager_ok ?st"
    by (simp add: manager_ok_def Let_def example_manager_def resident_bytes_def dict_values_def)
  have "incoming ?st [(''q'', 0)] = 168"
    by (simp add: incoming_def dict_values_def example_fields example_layer_bytes)
  moreover have "resident_bytes ?st = 0" "memory_budget_bytes (manager ?st) = 100"
    "resident_adapter_ids ?st = []" "\<not> native_backed (manager ?st)"
    by (simp_all add: example_manager_def resident_bytes_def dict_values_def resident_adapter_ids_def
        dict_keys_def native_backed_def)
  ultimately show ?thesis
    using load_adapter_outcome [OF example_malloc_ok ok, of "''b''" "[(''q'', 0)]"]
    by (auto split: prod.splits sum.splits unit.splits)
qed

text \<open>
  C6. A load that raises leaves no partial state behind, not even when the host runs out of
  memory between two of its layers: the registry, the layers, the ids, the native blocks of
  every key and the memory of others are what they were.
\<close>

theorem rejected_load_leaves_no_trace:
  assumes "malloc_ok malloc" and "manager_ok st"
    and "native_backed (manager st) \<Longrightarrow> next_native_id (manager st) < 2 ^ 31"
    and "load_adapter malloc aid layers st = (Inl err, st')"
  shows "same_registry st st' \<and> native_view st' = native_view st \<and> manager_ok st'"
  using assms(4) by (rule_tac load_outcome [OF assms(1-3), of aid layers]) auto

text \<open>A host that can hold two blocks, one of which is in use.\<close>

definition tight_malloc :: malloc where
  "tight_malloc h n = (if length (live h) < 2 then example_malloc h n else 0)"

lemma tight_malloc_ok: "malloc_ok tight_malloc"
  using example_malloc_ok by (simp add: malloc_ok_def tight_malloc_def)

lemma tight_load:
  "fst (load_adapter tight_malloc ''a'' [(''q'', 0), (''k'', 2)] example_session) = Inl AdapterBudgetError"
proof -
  let ?s = "(\<lparr>dependency_tree = [(1, [\<lparr>ptr = 10, block_size = 168\<rparr>])]\<rparr>,
    \<lparr>live = [(10, 168), (9, 4)], bad_frees = []\<rparr>) :: native"
  have al: "alloc_all (alloc_step tight_malloc) 1 [168, 168] (elora_init, \<lparr>live = [(9, 4)], bad_frees = []\<rparr>) =
      (False, ?s)"
    by (simp add: alloc_step_def allocate_kv_context_def raw_allocate_def tight_malloc_def
        example_malloc_def elora_init_def blocks_of_def dict_get_def max_def)
  have bs: "block_sizes example_session (dict_values [(''q'', 0), (''k'', 2)]) = [168, 168]"
    by (simp add: block_sizes_def example_fields example_layer_bytes dict_values_def)
  have h: "host example_session = \<lparr>live = [(9, 4)], bad_frees = []\<rparr>" by (simp add: example_session_def)
  have "load_adapter tight_malloc ''a'' [(''q'', 0), (''k'', 2)] example_session =
      (let st' = add_native_id ''a'' (add_record ''a'' [(''q'', 0), (''k'', 2)] example_session)
       in if False then (Inr (), set_native ?s st')
          else (Inl AdapterBudgetError,
                drop_adapter ''a'' (set_native (execute_dependency_eviction (word_of_int 1) ?s) st')))"
    by (rule load_native [where e = elora_init])
      (use al in \<open>simp_all add: example_fields example_incoming bs h\<close>)
  then show ?thesis by (simp add: Let_def)
qed

theorem rejected_load_leaves_no_trace_witness:
  "\<exists>st'. load_adapter tight_malloc ''a'' [(''q'', 0), (''k'', 2)] example_session =
       (Inl AdapterBudgetError, st') \<and>
     same_registry example_session st' \<and> native_view st' = native_view example_session"
proof -
  obtain st' where st': "load_adapter tight_malloc ''a'' [(''q'', 0), (''k'', 2)] example_session =
      (Inl AdapterBudgetError, st')" using tight_load by (metis prod.collapse)
  from rejected_load_leaves_no_trace [OF tight_malloc_ok example_ok _ st'] st'
  show ?thesis by (simp add: example_fields)
qed

text \<open>
  Unloading never raises. It removes exactly the adapter's record, deactivates it if it was
  active, clears the gradient gate of each of its layers and of no other, returns its bytes to
  the budget and evicts its native blocks, and touches no memory of others; unloading an id that
  is not resident does nothing of this.
\<close>

lemma unload_adapter_outcome:
  assumes "manager_ok st"
  shows "\<exists>st'. unload_adapter aid st = (Inr (), st') \<and> manager_ok st' \<and>
    adapters (manager st') = dict_del (adapters (manager st)) aid \<and>
    active_adapter_id (manager st') =
      (if active_adapter_id (manager st) = Some aid then None else active_adapter_id (manager st)) \<and>
    (\<forall>l. layer_at st' l =
      (if l \<in> set (case dict_get (adapters (manager st)) aid of None \<Rightarrow> [] | Some r \<Rightarrow> dict_values (rec_layers r))
       then clear_gradient_gate (layer_at st l) else layer_at st l)) \<and>
    resident_bytes st' = resident_bytes st -
      (case dict_get (adapters (manager st)) aid of None \<Rightarrow> 0 | Some r \<Rightarrow> byte_size st r) \<and>
    map_option snd (native_view st') = map_option snd (native_view st) \<and>
    (native (manager st) \<noteq> None \<longrightarrow> fst (the (native_view st')) =
      (case dict_get (native_ids (manager st)) aid of None \<Rightarrow> fst (the (native_view st))
       | Some i \<Rightarrow> (fst (the (native_view st)))(word_of_int i := [])))"
  by (rule unload_outcome [OF assms, of aid]) (intro exI conjI allI impI; assumption?; simp)

lemma unload_adapter_outcome_example:
  "\<exists>st'. unload_adapter ''a'' example_session = (Inr (), st') \<and> resident_bytes st' = 0"
  using unload_adapter_outcome [OF example_ok, of "''a''"] by (auto simp: example_fields)

text \<open>The native side of an adapter that was just loaded and is unloaded again.\<close>

lemma native_view_restored:
  assumes ok: "manager_ok st" and new: "dict_get (adapters (manager st)) aid = None"
    and backed: "native_backed (manager st') = native_backed (manager st)"
    and others: "map_option snd (native_view st') = map_option snd (native_view st)"
    and ids: "native_ids (manager st') = native_ids (manager st) @
       (if native_backed (manager st) then [(aid, next_native_id (manager st))] else [])"
    and blocks: "native (manager st) \<noteq> None \<Longrightarrow>
       fst (the (native_view st)) (word_of_int (next_native_id (manager st))) = [] \<and>
       fst (the (native_view st')) = (fst (the (native_view st)))(word_of_int (next_native_id (manager st)) := bs)"
    and after: "native_backed (manager st2) = native_backed (manager st') \<and>
       map_option snd (native_view st2) = map_option snd (native_view st')"
    and freed: "native (manager st') \<noteq> None \<Longrightarrow> (fst (the (native_view st2)) =
       (case dict_get (native_ids (manager st')) aid of None \<Rightarrow> fst (the (native_view st'))
        | Some i \<Rightarrow> (fst (the (native_view st')))(word_of_int i := [])))"
  shows "native_view st2 = native_view st"
proof (cases "native (manager st)")
  case None
  then show ?thesis using after backed by (simp add: native_backed_def native_view_def)
next
  case (Some e)
  have b: "native (manager st') \<noteq> None" "native (manager st2) \<noteq> None"
    using Some after backed by (simp_all add: native_backed_def)
  have "dict_get (native_ids (manager st)) aid = None"
    using manager_okD(6) [OF ok Some] new by (simp add: native_ok_def Let_def)
  then have "dict_get (native_ids (manager st')) aid = Some (next_native_id (manager st))"
    using ids Some by (simp add: native_backed_def dict_get_def map_add_def)
  then have "fst (the (native_view st2)) = fst (the (native_view st))"
    using freed [OF b(1)] blocks Some by (simp add: fun_upd_idem)
  moreover have "snd (the (native_view st2)) = snd (the (native_view st))"
    using after others b Some by (auto simp: native_view_def)
  moreover have "native_view st2 \<noteq> None" "native_view st \<noteq> None"
    using b Some by (simp_all add: native_view_def)
  ultimately show ?thesis by (auto simp: prod_eq_iff)
qed

lemma native_ids_restored:
  assumes ok: "manager_ok st" and new: "dict_get (adapters (manager st)) aid = None"
  shows "dict_del (native_ids (manager st) @ (if b then [(aid, n)] else [])) aid = native_ids (manager st)"
proof -
  have "dict_get (native_ids (manager st)) aid = None"
    using manager_okD(5,6) [OF ok] new
    by (cases "native (manager st)") (auto simp: native_ok_def Let_def)
  then show ?thesis
    using dict_set_fresh [of "native_ids (manager st)" aid n]
    by (simp add: py_dict.del_absent py_dict.del_set_fresh [symmetric] dict_get_def)
      (metis dict_get_def dict_set_fresh py_dict.del_set_fresh)
qed

text \<open>
  C28. Unloading what was just loaded gives the session back: the registry, the budget, the
  active adapter, the resident bytes, the table of native ids, the native blocks of every key
  and the memory of others are those before the load. Two things are not undone, and the
  statement gives both: the gradient gates of the adapter's layers are cleared, and with the
  native extension the counter of native ids stays one further, so that an id is not reused.
\<close>

theorem unload_undoes_load:
  assumes m: "malloc_ok malloc" and ok: "manager_ok st"
    and nid: "native_backed (manager st) \<Longrightarrow> next_native_id (manager st) < 2 ^ 31"
    and load: "load_adapter malloc aid layers st = (Inr (), st1)"
  shows "\<exists>st2. unload_adapter aid st1 = (Inr (), st2) \<and>
    adapters (manager st2) = adapters (manager st) \<and>
    active_adapter_id (manager st2) = active_adapter_id (manager st) \<and>
    memory_budget_bytes (manager st2) = memory_budget_bytes (manager st) \<and>
    native_backed (manager st2) = native_backed (manager st) \<and>
    resident_bytes st2 = resident_bytes st \<and> native_view st2 = native_view st \<and>
    native_ids (manager st2) = native_ids (manager st) \<and>
    next_native_id (manager st2) =
      next_native_id (manager st) + (if native_backed (manager st) then 1 else 0) \<and>
    (\<forall>l. layer_at st2 l =
      (if l \<in> set (dict_values layers) then clear_gradient_gate (layer_at st l) else layer_at st l))"
proof (rule load_outcome [OF m ok nid, of aid layers])
  fix st' assume L: "load_adapter malloc aid layers st = (Inr (), st')" "manager_ok st'"
    "dict_get (adapters (manager st)) aid = None"
    "layer_at st' = layer_at st"
    "adapters (manager st') = adapters (manager st) @ [(aid, \<lparr>adapter_id = aid, rec_layers = layers\<rparr>)]"
    "active_adapter_id (manager st') = active_adapter_id (manager st)"
    "native_backed (manager st') = native_backed (manager st)"
    "memory_budget_bytes (manager st') = memory_budget_bytes (manager st)"
    "next_native_id (manager st') = next_native_id (manager st) + (if native_backed (manager st) then 1 else 0)"
    "map_option snd (native_view st') = map_option snd (native_view st)"
    "resident_bytes st' = resident_bytes st + incoming st layers"
    "native_ids (manager st') = native_ids (manager st) @
       (if native_backed (manager st) then [(aid, next_native_id (manager st))] else [])"
    "native (manager st) \<noteq> None \<Longrightarrow>
       fst (the (native_view st)) (word_of_int (next_native_id (manager st))) = [] \<and>
       fst (the (native_view st')) = (fst (the (native_view st)))
         (word_of_int (next_native_id (manager st)) := map word_of_int (block_sizes st (dict_values layers)))"
  have st1: "st1 = st'" using load L(1) by simp
  let ?rec = "\<lparr>adapter_id = aid, rec_layers = layers\<rparr>"
  have "adapters (manager st') = dict_set (adapters (manager st)) aid ?rec"
    using dict_set_fresh [OF L(3) [unfolded dict_get_def]] L(5) by simp
  then have rec: "dict_get (adapters (manager st')) aid = Some ?rec"
    "dict_del (adapters (manager st')) aid = adapters (manager st)"
    using L(3) by (simp_all add: py_dict.get_set py_dict.del_set_fresh)
  have bytes: "byte_size st' ?rec = incoming st layers"
    by (simp add: byte_size_def incoming_def L(4))
  have act: "active_adapter_id (manager st) \<noteq> Some aid"
    using manager_okD(3) [OF ok] L(3) by auto
  obtain st2 where U: "unload_adapter aid st' = (Inr (), st2)"
    "adapters (manager st2) = dict_del (adapters (manager st')) aid"
    "active_adapter_id (manager st2) = (if active_adapter_id (manager st') = Some aid then None
       else active_adapter_id (manager st'))"
    "\<And>l. layer_at st2 l =
       (if l \<in> set (case dict_get (adapters (manager st')) aid of None \<Rightarrow> [] | Some r \<Rightarrow> dict_values (rec_layers r))
        then clear_gradient_gate (layer_at st' l) else layer_at st' l)"
    "resident_bytes st2 = resident_bytes st' -
       (case dict_get (adapters (manager st')) aid of None \<Rightarrow> 0 | Some r \<Rightarrow> byte_size st' r)"
    "native_backed (manager st2) = native_backed (manager st')"
    "map_option snd (native_view st2) = map_option snd (native_view st')"
    "native (manager st') \<noteq> None \<Longrightarrow> (fst (the (native_view st2)) =
       (case dict_get (native_ids (manager st')) aid of None \<Rightarrow> fst (the (native_view st'))
        | Some i \<Rightarrow> (fst (the (native_view st')))(word_of_int i := [])))"
    "memory_budget_bytes (manager st2) = memory_budget_bytes (manager st')"
    "next_native_id (manager st2) = next_native_id (manager st')"
    "native_ids (manager st2) = dict_del (native_ids (manager st')) aid"
    by (rule unload_outcome [OF L(2), of aid]) blast
  have view: "native_view st2 = native_view st"
    by (rule native_view_restored [OF ok L(3) _ _ L(12,13) _ U(8)]) (use L(7,10) U(6,7) in simp_all)
  have ids: "native_ids (manager st2) = native_ids (manager st)"
    using U(11) L(12) by (simp add: native_ids_restored [OF ok L(3)])
  show ?thesis
    by (rule exI [of _ st2])
      (use U(1-6,9,10) rec bytes act view ids L(4,6-9,11) in \<open>simp add: st1\<close>)
qed (use load in auto)

definition example_loaded :: "(scripted_reader, matrix) session" where
  "example_loaded =
     set_native (\<lparr>dependency_tree = [(1, [\<lparr>ptr = 10, block_size = 168\<rparr>, \<lparr>ptr = 11, block_size = 168\<rparr>])]\<rparr>,
       \<lparr>live = [(11, 168), (10, 168), (9, 4)], bad_frees = []\<rparr>)
       (add_native_id ''a'' (add_record ''a'' [(''q'', 0), (''k'', 2)] example_session))"

lemma example_load:
  "load_adapter example_malloc ''a'' [(''q'', 0), (''k'', 2)] example_session = (Inr (), example_loaded)"
proof -
  let ?s = "(\<lparr>dependency_tree = [(1, [\<lparr>ptr = 10, block_size = 168\<rparr>, \<lparr>ptr = 11, block_size = 168\<rparr>])]\<rparr>,
    \<lparr>live = [(11, 168), (10, 168), (9, 4)], bad_frees = []\<rparr>) :: native"
  have al: "alloc_all (alloc_step example_malloc) 1 [168, 168] (elora_init, \<lparr>live = [(9, 4)], bad_frees = []\<rparr>) =
      (True, ?s)"
    by (simp add: alloc_step_def allocate_kv_context_def raw_allocate_def
        example_malloc_def elora_init_def blocks_of_def dict_get_def max_def)
  have bs: "block_sizes example_session (dict_values [(''q'', 0), (''k'', 2)]) = [168, 168]"
    by (simp add: block_sizes_def example_fields example_layer_bytes dict_values_def)
  have h: "host example_session = \<lparr>live = [(9, 4)], bad_frees = []\<rparr>" by (simp add: example_session_def)
  have "load_adapter example_malloc ''a'' [(''q'', 0), (''k'', 2)] example_session =
      (let st' = add_native_id ''a'' (add_record ''a'' [(''q'', 0), (''k'', 2)] example_session)
       in if True then (Inr (), set_native ?s st')
          else (Inl AdapterBudgetError,
                drop_adapter ''a'' (set_native (execute_dependency_eviction (word_of_int 1) ?s) st')))"
    by (rule load_native [where e = elora_init])
      (use al in \<open>simp_all add: example_fields example_incoming bs h del: alloc_all.simps\<close>)
  then show ?thesis by (simp add: Let_def example_loaded_def)
qed

theorem unload_undoes_load_witness:
  "\<exists>st2. unload_adapter ''a'' example_loaded = (Inr (), st2) \<and>
     native_view st2 = native_view example_session \<and> resident_bytes st2 = 0 \<and>
     native_ids (manager st2) = [] \<and> next_native_id (manager st2) = 2"
  using unload_undoes_load [OF example_malloc_ok example_ok _ example_load]
  by (auto simp: example_fields example_ids)

text \<open>
  What the native allocator reports for a resident adapter's id is exactly the adapter's byte
  size: the 64-bit sum does not wrap.
\<close>

lemma native_bytes_match:
  assumes ok: "manager_ok st" and e: "native (manager st) = Some e"
    and r: "dict_get (adapters (manager st)) aid = Some r"
    and i: "dict_get (native_ids (manager st)) aid = Some i"
  shows "uint (bytes_resident_for e (word_of_int i)) = byte_size st r"
proof -
  note D = manager_okD [OF ok]
  have nok: "native_ok st e" by (rule D(6) [OF e])
  then have sz: "map uint (sizes_of (word_of_int i) (e, host st)) = block_sizes st (dict_values (rec_layers r))"
    and budget: "memory_budget_bytes (manager st) < 2 ^ 64"
    using r i by (auto simp: native_ok_def Let_def)
  have nz: "sum_list (filter (\<lambda>n. n \<noteq> 0) xs) = sum_list xs" for xs :: "int list"
    by (induction xs) auto
  have total: "(\<Sum>w\<leftarrow>sizes_of (word_of_int i) (e, host st). uint w) = byte_size st r"
    unfolding sz block_sizes_def nz by (simp add: byte_size_def)
  have "(\<Sum>x\<leftarrow>adapters (manager st). byte_size st (snd x)) = resident_bytes st"
    by (simp add: resident_bytes_items case_prod_unfold)
  moreover have "(aid, r) \<in> set (adapters (manager st))" using r py_dict.get_Some_iff [OF D(1)] by blast
  ultimately have "byte_size st r \<le> resident_bytes st"
    using sum_list_item_le [of "\<lambda>x. byte_size st (snd x)" "(aid, r)"] byte_size_nonneg by fastforce
  then have "byte_size st r < 2 ^ 64" using D(4) budget by linarith
  with total show ?thesis
    using uint_sum_list [of "sizes_of (word_of_int i) (e, host st)"]
    by (simp add: bytes_resident_sum sizes_of_def)
qed

lemma native_bytes_match_example:
  "uint (bytes_resident_for (the (native (manager example_loaded))) 1) = 336"
proof -
  have ok: "manager_ok example_loaded"
    using request_step_ok [OF example_malloc_ok example_ok, of "Load ''a'' [(''q'', 0), (''k'', 2)]"]
    by (simp add: example_load example_fields)
  have "byte_size example_loaded \<lparr>adapter_id = ''a'', rec_layers = [(''q'', 0), (''k'', 2)]\<rparr> = 336"
    by (simp add: byte_size_def dict_values_def example_loaded_def example_fields example_layer_bytes)
  then show ?thesis
    using native_bytes_match [OF ok, of _ "''a''" _ 1]
    by (simp add: example_loaded_def example_fields dict_get_def example_session_def example_manager_def)
qed

text \<open>
  C40. After 2^31 - 1 native loads the next id leaves the range of a C++ int: the load raises
  TypeError after the record and the id were added, and the adapter stays registered although
  nothing was allocated for it.
\<close>

theorem native_ids_run_out:
  assumes "native (manager st) = Some e" and "next_native_id (manager st) = 2 ^ 31"
    and "dict_get (adapters (manager st)) aid = None"
    and "resident_bytes st + incoming st layers \<le> memory_budget_bytes (manager st)"
    and "l \<in> set (dict_values layers)" and "layer_bytes st l \<noteq> 0"
  shows "\<exists>st'. load_adapter malloc aid layers st = (Inl TypeError, st') \<and>
    aid \<in> set (resident_adapter_ids st') \<and> native_view st' = native_view st"
proof -
  let ?st = "add_native_id aid (add_record aid layers st)"
  have step: "reserve_layer malloc aid (2 ^ 31) k s =
      (if layer_bytes s k = 0 then (Inr (), s) else (Inl TypeError, s))"
    if "native (manager s) = Some e" for k and s :: "('a, 'b) session"
    using that
    by (simp add: reserve_layer_def Let_def sbind_def on_native_def native_allocate_def to_cint_def
        set_native_same)
  have loop: "sfor ls (reserve_layer malloc aid (2 ^ 31)) ?st = (Inl TypeError, ?st)"
    if "l \<in> set ls" for ls
    using that
  proof (induction ls)
    case (Cons k ls)
    then show ?case using step [of ?st k] assms(1,6) by (auto simp: sbind_def)
  qed simp
  have "load_adapter malloc aid layers st =
      sfor (dict_values layers) (reserve_layer malloc aid (2 ^ 31)) ?st"
    using assms(1-4) by (simp add: load_adapter_def incoming_def native_backed_def
        add_record_def add_native_id_def Let_def)
  then have "load_adapter malloc aid layers st = (Inl TypeError, ?st)" using loop [OF assms(5)] by simp
  moreover have "native_view ?st = native_view st" by (simp add: native_view_def)
  moreover have "aid \<in> set (resident_adapter_ids ?st)"
    by (simp add: resident_adapter_ids_def dict_keys_get py_dict.get_set)
  ultimately show ?thesis by blast
qed

theorem native_ids_run_out_witness:
  "\<exists>st'. load_adapter example_malloc ''a'' [(''q'', 0)]
      (example_session\<lparr>manager := example_manager\<lparr>next_native_id := 2 ^ 31\<rparr>\<rparr>) = (Inl TypeError, st') \<and>
     resident_adapter_ids st' \<noteq> []"
proof -
  let ?st = "example_session\<lparr>manager := example_manager\<lparr>next_native_id := 2 ^ 31\<rparr>\<rparr>"
  have "native (manager ?st) = Some elora_init" "next_native_id (manager ?st) = 2 ^ 31"
    "dict_get (adapters (manager ?st)) ''a'' = None"
    "resident_bytes ?st + incoming ?st [(''q'', 0)] \<le> memory_budget_bytes (manager ?st)"
    "0 \<in> set (dict_values [(''q'', 0::nat)])" "layer_bytes ?st 0 \<noteq> 0"
    by (simp_all add: example_manager_def resident_bytes_def incoming_def dict_values_def
        example_fields example_layer_bytes)
  from native_ids_run_out [OF this, of example_malloc] show ?thesis by (metis empty_iff list.set(1))
qed

end
