(* ===== verification/Registry.thy ===== *)
theory Registry
  imports AdapterManager
begin

text \<open>
  What \<^verbatim>\<open>src/python/msp/adapter_manager.py\<close> promises, without layers, references, native ids or
  blocks: a registry of sizes under a budget with at most one active entry. The locale
  \<open>simulation\<close> lifts a step-wise simulation to runs; the session with its operations interprets it,
  so every run of the manager is a run of the registry with the same outcomes. The number in
  \<open>manager_room\<close> is how many requests are left before native ids leave the 32-bit range.
\<close>

section \<open>Simulations\<close>

text \<open>A run of a program: what each request means in the state it meets, and its outcome.\<close>

primrec run_trace ::
  "('i \<Rightarrow> 'c \<Rightarrow> 'o \<times> 'c) \<Rightarrow> ('c \<Rightarrow> 'i \<Rightarrow> 'j) \<Rightarrow> 'i list \<Rightarrow> 'c \<Rightarrow> ('j \<times> 'o) list \<times> 'c" where
  "run_trace step ask [] c = ([], c)"
| "run_trace step ask (i # is) c =
     (case step i c of (r, c1) \<Rightarrow> case run_trace step ask is c1 of (t, c2) \<Rightarrow> ((ask c i, r) # t, c2))"

inductive spec_trace :: "('a \<Rightarrow> 'j \<Rightarrow> 'o \<Rightarrow> 'a \<Rightarrow> bool) \<Rightarrow> 'a \<Rightarrow> ('j \<times> 'o) list \<Rightarrow> 'a \<Rightarrow> bool"
  for spec where
  stop: "spec_trace spec a [] a"
| move: "spec a j r b \<Longrightarrow> spec_trace spec b t c \<Longrightarrow> spec_trace spec a ((j, r) # t) c"

locale simulation =
  fixes step :: "'i \<Rightarrow> 'c \<Rightarrow> 'o \<times> 'c"
    and room :: "nat \<Rightarrow> 'c \<Rightarrow> bool"
    and view :: "'c \<Rightarrow> 'a"
    and ask :: "'c \<Rightarrow> 'i \<Rightarrow> 'j"
    and spec :: "'a \<Rightarrow> 'j \<Rightarrow> 'o \<Rightarrow> 'a \<Rightarrow> bool"
  assumes room_step: "room (Suc n) c \<Longrightarrow> room n (snd (step i c))"
    and simulates: "room (Suc n) c \<Longrightarrow> spec (view c) (ask c i) (fst (step i c)) (view (snd (step i c)))"
begin

lemma trace_refines:
  "room (length is) c \<Longrightarrow>
   spec_trace spec (view c) (fst (run_trace step ask is c)) (view (snd (run_trace step ask is c))) \<and>
   room 0 (snd (run_trace step ask is c))"
proof (induction "is" arbitrary: c)
  case (Cons i "is")
  let ?c = "snd (step i c)"
  have "room (Suc (length is)) c" using Cons.prems by simp
  then have "spec (view c) (ask c i) (fst (step i c)) (view ?c)" "room (length is) ?c"
    using simulates room_step by blast+
  moreover note Cons.IH [OF calculation(2)]
  ultimately show ?case by (auto simp: case_prod_unfold intro: spec_trace.move)
qed (auto intro: spec_trace.stop)

end

section \<open>The registry\<close>

record registry =
  reg_budget :: int
  reg_sizes :: "string \<Rightarrow> int option"
  reg_active :: "string option"
  reg_native :: bool

definition reg_total :: "registry \<Rightarrow> int" where
  "reg_total s = (\<Sum>k \<in> dom (reg_sizes s). the (reg_sizes s k))"

datatype registry_request = Put string int | Drop string | Use string

text \<open>With a native allocator, the host may refuse what the budget allows.\<close>

inductive registry_step :: "registry \<Rightarrow> registry_request \<Rightarrow> unit result \<Rightarrow> registry \<Rightarrow> bool" where
  accept: "reg_sizes s k = None \<Longrightarrow> reg_total s + n \<le> reg_budget s \<Longrightarrow>
    registry_step s (Put k n) (Inr ()) (s\<lparr>reg_sizes := (reg_sizes s)(k \<mapsto> n)\<rparr>)"
| occupied: "reg_sizes s k \<noteq> None \<Longrightarrow> registry_step s (Put k n) (Inl ValueError) s"
| full: "reg_sizes s k = None \<Longrightarrow> reg_budget s < reg_total s + n \<or> reg_native s \<Longrightarrow>
    registry_step s (Put k n) (Inl AdapterBudgetError) s"
| drop: "registry_step s (Drop k) (Inr ())
    (s\<lparr>reg_sizes := (reg_sizes s)(k := None),
       reg_active := (if reg_active s = Some k then None else reg_active s)\<rparr>)"
| use: "reg_sizes s k \<noteq> None \<Longrightarrow> registry_step s (Use k) (Inr ()) (s\<lparr>reg_active := Some k\<rparr>)"
| unknown: "reg_sizes s k = None \<Longrightarrow> registry_step s (Use k) (Inl KeyError) s"

inductive_cases PutE: "registry_step s (Put k n) r s'"
inductive_cases DropE: "registry_step s (Drop k) r s'"
inductive_cases UseE: "registry_step s (Use k) r s'"
inductive_simps registry_trace_simps:
  "spec_trace registry_step s [] s'" "spec_trace registry_step s ((j, r) # t) s'"

text \<open>Without a native allocator the registry is a function of the requests.\<close>

lemma registry_deterministic:
  assumes "registry_step s j r s'" and "registry_step s j r2 s2" and "\<not> reg_native s"
  shows "r2 = r \<and> s2 = s'"
  using assms by (cases j) (auto elim!: PutE DropE UseE)

definition registry_ok :: "registry \<Rightarrow> bool" where
  "registry_ok s \<longleftrightarrow> finite (dom (reg_sizes s)) \<and> reg_total s \<le> reg_budget s \<and>
     (\<forall>k n. reg_sizes s k = Some n \<longrightarrow> 0 \<le> n) \<and> pred_option (\<lambda>k. reg_sizes s k \<noteq> None) (reg_active s)"

text \<open>So its runs without a native allocator are determined by their requests.\<close>

lemma registry_keeps_native: "registry_step s j r s' \<Longrightarrow> reg_native s' = reg_native s"
  by (induction rule: registry_step.induct) simp_all

lemma registry_trace_deterministic:
  assumes "spec_trace registry_step s t s'" and "spec_trace registry_step s t2 s2"
    and "map fst t2 = map fst t" and "\<not> reg_native s"
  shows "t2 = t \<and> s2 = s'"
  using assms
proof (induction arbitrary: t2 rule: spec_trace.induct)
  case (stop s)
  then show ?case by (auto simp: registry_trace_simps)
next
  case (move s j r b t c)
  obtain r2 t3 where t2: "t2 = (j, r2) # t3" "map fst t3 = map fst t" using move.prems(2) by auto
  obtain b2 where b2: "registry_step s j r2 b2" "spec_trace registry_step b2 t3 s2"
    using move.prems(1) t2(1) by (auto simp: registry_trace_simps)
  have same: "r2 = r \<and> b2 = b" by (rule registry_deterministic [OF move.hyps(1) b2(1) move.prems(3)])
  have "\<not> reg_native b" using registry_keeps_native [OF move.hyps(1)] move.prems(3) by simp
  with move.IH [of t3] b2(2) same t2 show ?case by simp
qed

section \<open>The manager as a registry\<close>

definition registry_of :: "('s, 'd) session \<Rightarrow> registry" where
  "registry_of st =
     \<lparr>reg_budget = memory_budget_bytes (manager st),
      reg_sizes = (\<lambda>k. map_option (byte_size st) (dict_get (adapters (manager st)) k)),
      reg_active = active_adapter_id (manager st), reg_native = native_backed (manager st)\<rparr>"

fun registry_ask :: "('s, 'd) session \<Rightarrow> manager_request \<Rightarrow> registry_request" where
  "registry_ask st (Load aid layers) = Put aid (incoming st layers)"
| "registry_ask st (Unload aid) = Drop aid"
| "registry_ask st (Activate aid) = Use aid"
| "registry_ask st (Swap from_id to_id) = Use to_id"

definition manager_room :: "malloc \<Rightarrow> nat \<Rightarrow> ('s, 'd) session \<Rightarrow> bool" where
  "manager_room malloc n st \<longleftrightarrow> malloc_ok malloc \<and> manager_ok st \<and>
     (native_backed (manager st) \<longrightarrow> next_native_id (manager st) + int n \<le> 2 ^ 31)"

lemma registry_total:
  assumes "manager_ok st"
  shows "reg_total (registry_of st) = resident_bytes st"
proof -
  note ok = manager_okD(1) [OF assms]
  have "(\<Sum>k \<in> fst ` set d. the (map_option f (dict_get d k))) = (\<Sum>(k, r)\<leftarrow>d. f r)" if "dict_ok d" for d and f :: "adapter_record \<Rightarrow> int"
    using that
  proof (induction d)
    case (Cons x d)
    obtain k r where x: "x = (k, r)" by (cases x)
    have k: "k \<notin> fst ` set d" and d: "dict_ok d" using Cons.prems by (auto simp: dict_ok_def x)
    have "(\<Sum>j \<in> fst ` set d. the (map_option f (dict_get (x # d) j))) =
        (\<Sum>j \<in> fst ` set d. the (map_option f (dict_get d j)))"
      using k by (intro sum.cong) (auto simp: dict_get_def x)
    then show ?case using Cons.IH [OF d] k by (simp add: x dict_get_def)
  qed simp
  note this [OF ok, of "byte_size st"]
  moreover have "dom (reg_sizes (registry_of st)) = fst ` set (adapters (manager st))"
    by (auto simp: registry_of_def dict_get_def dom_def map_of_eq_None_iff)
  ultimately show ?thesis by (simp add: reg_total_def resident_bytes_items registry_of_def)
qed

lemma registry_ofI:
  assumes "memory_budget_bytes (manager st) = reg_budget s" and "active_adapter_id (manager st) = reg_active s"
    and "native_backed (manager st) = reg_native s"
    and "\<And>k. map_option (byte_size st) (dict_get (adapters (manager st)) k) = reg_sizes s k"
  shows "registry_of st = s"
  using assms by (simp add: registry_of_def fun_eq_iff)

lemma registry_same:
  assumes "same_registry st st'" and "native_backed (manager st') = native_backed (manager st)"
  shows "registry_of st' = registry_of st"
proof -
  have "byte_size st' = byte_size st"
    using assms(1) by (simp add: same_registry_def byte_size_def fun_eq_iff)
  with assms show ?thesis by (simp add: registry_of_def same_registry_def)
qed

lemma load_simulates:
  assumes "malloc_ok malloc" and ok: "manager_ok st"
    and "native_backed (manager st) \<Longrightarrow> next_native_id (manager st) < 2 ^ 31"
  shows "registry_step (registry_of st) (Put aid (incoming st layers))
    (fst (load_adapter malloc aid layers st)) (registry_of (snd (load_adapter malloc aid layers st)))"
proof -
  have sizes: "reg_sizes (registry_of st) aid = None \<longleftrightarrow> dict_get (adapters (manager st)) aid = None"
    by (simp add: registry_of_def)
  have budget: "reg_budget (registry_of st) = memory_budget_bytes (manager st)"
    "reg_native (registry_of st) = native_backed (manager st)"
    by (simp_all add: registry_of_def)
  show ?thesis
  proof (rule load_outcome [OF assms, of aid layers])
    fix st' assume L: "load_adapter malloc aid layers st = (Inr (), st')" "manager_ok st'"
      "dict_get (adapters (manager st)) aid = None"
      "resident_bytes st + incoming st layers \<le> memory_budget_bytes (manager st)"
      "layer_at st' = layer_at st"
      "adapters (manager st') = adapters (manager st) @ [(aid, \<lparr>adapter_id = aid, rec_layers = layers\<rparr>)]"
      "active_adapter_id (manager st') = active_adapter_id (manager st)"
      "memory_budget_bytes (manager st') = memory_budget_bytes (manager st)"
      "native_backed (manager st') = native_backed (manager st)"
    have bytes: "byte_size st' = byte_size st" using L(5) by (simp add: byte_size_def fun_eq_iff)
    have new: "byte_size st \<lparr>adapter_id = aid, rec_layers = layers\<rparr> = incoming st layers"
      by (simp add: byte_size_def incoming_def)
    have "registry_of st' = (registry_of st)\<lparr>reg_sizes := (reg_sizes (registry_of st))(aid \<mapsto> incoming st layers)\<rparr>"
      by (rule registry_ofI)
        (use L(3) in \<open>auto simp: L(6-9) bytes new registry_of_def dict_get_def map_add_def split: option.split\<close>)
    with L(1,3,4) sizes budget registry_total [OF ok] show ?thesis
      by (simp add: registry_step.accept)
  next
    fix err st' assume L: "load_adapter malloc aid layers st = (Inl err, st')"
      "err = (if dict_get (adapters (manager st)) aid \<noteq> None then ValueError else AdapterBudgetError)"
      "dict_get (adapters (manager st)) aid \<noteq> None \<or> native_backed (manager st) \<or>
       memory_budget_bytes (manager st) < resident_bytes st + incoming st layers"
      "same_registry st st'" "native_backed (manager st') = native_backed (manager st)"
    have "registry_of st' = registry_of st" by (rule registry_same [OF L(4,5)])
    then show ?thesis
      using L(1-3) sizes budget registry_total [OF ok]
      by (auto intro: registry_step.occupied registry_step.full)
  qed
qed

lemma unload_simulates:
  assumes "manager_ok st"
  shows "registry_step (registry_of st) (Drop aid)
    (fst (unload_adapter aid st)) (registry_of (snd (unload_adapter aid st)))"
proof (rule unload_outcome [OF assms, of aid])
  fix st' assume U: "unload_adapter aid st = (Inr (), st')" "manager_ok st'"
    "adapters (manager st') = dict_del (adapters (manager st)) aid"
    "active_adapter_id (manager st') = (if active_adapter_id (manager st) = Some aid then None
       else active_adapter_id (manager st))"
    "memory_budget_bytes (manager st') = memory_budget_bytes (manager st)"
    "native_backed (manager st') = native_backed (manager st)"
    "next_native_id (manager st') = next_native_id (manager st)"
    "\<And>l. layer_at st' l =
       (if l \<in> set (case dict_get (adapters (manager st)) aid of None \<Rightarrow> [] | Some r \<Rightarrow> dict_values (rec_layers r))
        then clear_gradient_gate (layer_at st l) else layer_at st l)"
  have bytes: "byte_size st' r = byte_size st r" for r
    by (rule bytes_cong(1)) (simp add: U(8))
  have "registry_of st' = (registry_of st)\<lparr>reg_sizes := (reg_sizes (registry_of st))(aid := None),
      reg_active := (if reg_active (registry_of st) = Some aid then None else reg_active (registry_of st))\<rparr>"
    by (rule registry_ofI) (simp_all add: U(3-6) registry_of_def py_dict.get_del bytes cong: map_option_cong)
  with U(1) show ?thesis by (simp add: registry_step.drop)
qed

lemma activate_simulates:
  "registry_step (registry_of st) (Use aid) (fst (activate aid st)) (registry_of (snd (activate aid st)))"
proof (cases "dict_get (adapters (manager st)) aid")
  case None
  then show ?thesis by (simp add: activate_def registry_of_def registry_step.unknown)
next
  case (Some r)
  have "registry_of (upd_manager (\<lambda>m. m\<lparr>active_adapter_id := Some aid\<rparr>) st) =
      (registry_of st)\<lparr>reg_active := Some aid\<rparr>"
    by (rule registry_ofI) (simp_all add: registry_of_def native_backed_def byte_size_def cong: map_option_cong)
  moreover have "reg_sizes (registry_of st) aid \<noteq> None" using Some by (simp add: registry_of_def)
  ultimately show ?thesis using registry_step.use Some by (fastforce simp: activate_def)
qed

lemma registry_of_ok:
  assumes "manager_ok st"
  shows "registry_ok (registry_of st)"
proof -
  note D = manager_okD [OF assms]
  have "finite (dom (reg_sizes (registry_of st)))"
    by (rule finite_subset [of _ "fst ` set (adapters (manager st))"])
      (auto simp: registry_of_def dict_get_def dom_def map_of_eq_None_iff dest: map_of_SomeD)
  moreover have "reg_total (registry_of st) \<le> reg_budget (registry_of st)"
    using D(4) registry_total [OF assms] by (simp add: registry_of_def)
  moreover have "pred_option (\<lambda>k. reg_sizes (registry_of st) k \<noteq> None) (reg_active (registry_of st))"
    using D(3) by (simp add: registry_of_def)
  ultimately show ?thesis by (auto simp: registry_ok_def registry_of_def byte_size_nonneg)
qed

lemma manager_roomD:
  assumes "manager_room malloc (Suc n) st"
  shows "malloc_ok malloc" "manager_ok st" "native_backed (manager st) \<Longrightarrow> next_native_id (manager st) < 2 ^ 31"
  using assms by (auto simp: manager_room_def)

lemma request_keeps_native:
  assumes "manager_room malloc (Suc n) st"
  shows "native_backed (manager (snd (request_step malloc req st))) = native_backed (manager st)"
proof (cases req)
  case (Load aid layers)
  show ?thesis
    by (rule load_outcome [OF manager_roomD [OF assms], of aid layers]) (simp_all add: Load)
next
  case (Unload aid)
  show ?thesis by (rule unload_outcome [OF manager_roomD(2) [OF assms], of aid]) (simp add: Unload)
qed (simp_all add: swap_adapter_def activate_def native_backed_def)

interpretation mgr: simulation "request_step malloc" "manager_room malloc" registry_of registry_ask registry_step
proof
  fix n and st :: "('a, 'b) session" and req
  assume room: "manager_room malloc (Suc n) st"
  note D = manager_roomD [OF room]
  show "manager_room malloc n (snd (request_step malloc req st))"
    using request_step_ok [OF D, of req] request_keeps_native [OF room, of req] room
    by (auto simp: manager_room_def)
  show "registry_step (registry_of st) (registry_ask st req)
      (fst (request_step malloc req st)) (registry_of (snd (request_step malloc req st)))"
    using load_simulates [OF D] unload_simulates [OF D(2)] activate_simulates
    by (cases req) (simp_all add: swap_adapter_def)
qed

section \<open>Properties\<close>

text \<open>
  C2. The manager refines a registry of sizes: with native ids left for the requests, every
  sequence of requests has outcomes that the registry allows for the byte sizes of the layers,
  and ends in a session whose registry the specification reaches; the budget holds there and the
  active adapter is resident. Without the native extension no other outcomes are allowed.
\<close>

theorem manager_refines_registry:
  assumes "malloc_ok malloc" and "manager_ok st"
    and "native_backed (manager st) \<Longrightarrow> next_native_id (manager st) + int (length reqs) \<le> 2 ^ 31"
    and "run_trace (request_step malloc) registry_ask reqs st = (trace, st')"
  shows "spec_trace registry_step (registry_of st) trace (registry_of st') \<and> registry_ok (registry_of st') \<and>
    (\<not> native_backed (manager st) \<longrightarrow>
      (\<forall>trace2 s2. spec_trace registry_step (registry_of st) trace2 s2 \<and> map fst trace2 = map fst trace \<longrightarrow>
         trace2 = trace \<and> s2 = registry_of st'))"
proof -
  have "manager_room malloc (length reqs) st" using assms(1-3) by (simp add: manager_room_def)
  from mgr.trace_refines [OF this] have
    t: "spec_trace registry_step (registry_of st) trace (registry_of st')" and "manager_room malloc 0 st'"
    using assms(4) by simp_all
  then have "registry_ok (registry_of st')" by (simp add: manager_room_def registry_of_ok)
  moreover have "reg_native (registry_of st) = native_backed (manager st)" by (simp add: registry_of_def)
  ultimately show ?thesis using t registry_trace_deterministic [OF t] by blast
qed

theorem manager_refines_registry_witness:
  "\<exists>s. spec_trace registry_step (registry_of example_session)
      [(Put ''a'' 336, Inr ()), (Use ''a'', Inr ()), (Put ''a'' 336, Inl ValueError), (Drop ''a'', Inr ())] s \<and>
     registry_ok s"
proof -
  let ?reqs = "[Load ''a'' [(''q'', 0), (''k'', 2)], Activate ''a'', Load ''a'' [(''q'', 0), (''k'', 2)], Unload ''a'']"
  have run: "fst (run_trace (request_step example_malloc) registry_ask ?reqs example_session) =
      [(Put ''a'' 336, Inr ()), (Use ''a'', Inr ()), (Put ''a'' 336, Inl ValueError), (Drop ''a'', Inr ())]"
  proof -
    let ?ls = "[(''q'', 0), (''k'', 2)] :: (string, layer_ref) dict"
    define act where "act = upd_manager (\<lambda>m. m\<lparr>active_adapter_id := Some ''a''\<rparr>) example_loaded"
    have a: "activate ''a'' example_loaded = (Inr (), act)"
      by (simp add: activate_def example_loaded_def example_fields dict_get_def act_def)
    have l: "load_adapter example_malloc ''a'' ?ls act = (Inl ValueError, act)"
      by (rule load_rejected(1)) (simp add: act_def example_loaded_def example_fields dict_get_def)
    have "manager_ok example_loaded"
      using request_step_ok [OF example_malloc_ok example_ok, of "Load ''a'' ?ls"]
      by (simp add: example_load example_fields)
    then have ok: "manager_ok act" using activate_ok [of example_loaded "''a''"] a by simp
    obtain st where u: "unload_adapter ''a'' act = (Inr (), st)"
      by (rule unload_outcome [OF ok, of "''a''"])
    have i: "incoming act ?ls = 336"
      by (simp add: act_def incoming_def dict_values_def example_loaded_def example_fields example_layer_bytes)
    show ?thesis by (simp add: example_load example_incoming a l u i)
  qed
  show ?thesis
    using manager_refines_registry [OF example_malloc_ok example_ok _ prod.collapse [symmetric], of ?reqs]
    by (auto simp: run example_fields simp del: run_trace.simps)
qed

end
