(* ===== verification/Transformer.thy ===== *)
theory Transformer
  imports AdapterManager
begin

text \<open>
  The model of \<^verbatim>\<open>src/examples/e2e_training.py\<close> without its training: the construction of the frozen
  base (the linear sublayers of each block), the collection of the base layers, the attachment
  of adapters and the switch of the live adapter; layers are references into a store, linear
  layers are values, since nothing changes one after it was frozen.
  \<^verbatim>\<open>TinyTransformerBlock\<close> is modelled by which sublayers a block applies, in
  which order and to what, with each sublayer the base layer or the adapter that is plugged in
  at the time of the call. The tensor operations between them are parameters (\<open>block_ops\<close>). On
  top of it stands what plugging in means for the whole model: closed gates give the base model.
\<close>

section \<open>The frozen base\<close>

datatype ('s, 'd) submodule = BaseLinear "('s, 'd) linear" | Adapted layer_ref

record ('s, 'd) tblock =
  d_model :: int
  n_heads :: int
  head_dim :: int
  sublayers :: "(string, ('s, 'd) submodule) dict"

definition adapted_sublayers :: "string list" where
  "adapted_sublayers = [''out_proj'', ''fc1'', ''fc2'']"

text \<open>
  \<open>mk d_in d_out\<close> is \<^verbatim>\<open>nn.Linear(d_in, d_out)\<close>, which draws random numbers and may raise; norms and
  activation are not represented.
\<close>

definition block_init ::
  "(int \<Rightarrow> int \<Rightarrow> ('w, ('s, 'd) linear) prog) \<Rightarrow> int \<Rightarrow> int \<Rightarrow> int \<Rightarrow> ('w, ('s, 'd) tblock) prog" where
  "block_init mk d heads ffn =
     (if heads = 0 then sraise ZeroDivisionError
      else if d mod heads \<noteq> 0 then sraise ValueError
      else
        sbind (mk d d) (\<lambda>q. sbind (mk d d) (\<lambda>k. sbind (mk d d) (\<lambda>v. sbind (mk d d) (\<lambda>out.
        sbind (mk d ffn) (\<lambda>fc1. sbind (mk ffn d) (\<lambda>fc2.
          sret \<lparr>d_model = d, n_heads = heads, head_dim = d div heads,
            sublayers = [(''q_proj'', BaseLinear q), (''k_proj'', BaseLinear k), (''v_proj'', BaseLinear v),
              (''out_proj'', BaseLinear out), (''fc1'', BaseLinear fc1), (''fc2'', BaseLinear fc2)]\<rparr>)))))))"

primrec init_blocks :: "nat \<Rightarrow> ('w, 'b) prog \<Rightarrow> ('w, 'b list) prog" where
  "init_blocks 0 blk = sret []"
| "init_blocks (Suc n) blk = sbind blk (\<lambda>b. sbind (init_blocks n blk) (\<lambda>bs. sret (b # bs)))"

text \<open>\<^verbatim>\<open>freeze_all_parameters\<close> on a parameter, a linear layer and a block of linear layers.\<close>

definition freeze_parameter :: "('s, 'd) parameter \<Rightarrow> ('s, 'd) parameter" where
  "freeze_parameter p = p\<lparr>requires_grad := False\<rparr>"

fun freeze_submodule :: "('s, 'd) submodule \<Rightarrow> ('s, 'd) submodule" where
  "freeze_submodule (BaseLinear l) =
     BaseLinear (l\<lparr>weight := freeze_parameter (weight l), bias := map_option freeze_parameter (bias l)\<rparr>)"
| "freeze_submodule (Adapted r) = Adapted r"

definition freeze_block :: "('s, 'd) tblock \<Rightarrow> ('s, 'd) tblock" where
  "freeze_block b = b\<lparr>sublayers := map (\<lambda>(n, m). (n, freeze_submodule m)) (sublayers b)\<rparr>"

definition build_frozen_base ::
  "(int \<Rightarrow> int \<Rightarrow> ('w, ('s, 'd) linear) prog) \<Rightarrow> (int \<Rightarrow> int \<Rightarrow> ('w, ('s, 'd) parameter) prog) \<Rightarrow>
   int \<Rightarrow> int \<Rightarrow> int \<Rightarrow> int \<Rightarrow> int \<Rightarrow>
   ('w, ('s, 'd) parameter \<times> ('s, 'd) tblock list \<times> ('s, 'd) linear) prog" where
  "build_frozen_base mk mk_embed vocab d heads ffn n_layers =
     sbind (mk_embed vocab d) (\<lambda>embed.
     sbind (init_blocks (nat n_layers) (block_init mk d heads ffn)) (\<lambda>blocks.
     sbind (mk d vocab) (\<lambda>head.
       sret (freeze_parameter embed, map freeze_block blocks, freeze_linear head))))"

section \<open>Collecting, attaching and plugging in\<close>

definition sublayer_key :: "nat \<Rightarrow> string \<Rightarrow> string" where
  "sublayer_key i name = ''block'' @ show_nat i @ ''.'' @ name"

fun collect_names ::
  "nat \<Rightarrow> ('s, 'd) tblock \<Rightarrow> string list \<Rightarrow> (string, ('s, 'd) linear) dict \<Rightarrow>
   (string, ('s, 'd) linear) dict result" where
  "collect_names i blk [] acc = Inr acc"
| "collect_names i blk (name # names) acc =
     (case dict_get (sublayers blk) name of
        None \<Rightarrow> Inl AttributeError
      | Some (Adapted _) \<Rightarrow> Inl TypeError
      | Some (BaseLinear l) \<Rightarrow> collect_names i blk names (dict_set acc (sublayer_key i name) l))"

fun collect_blocks ::
  "nat \<Rightarrow> ('s, 'd) tblock list \<Rightarrow> (string, ('s, 'd) linear) dict \<Rightarrow>
   (string, ('s, 'd) linear) dict result" where
  "collect_blocks i [] acc = Inr acc"
| "collect_blocks i (blk # blks) acc =
     rbind (collect_names i blk adapted_sublayers acc) (collect_blocks (Suc i) blks)"

definition collect_base_sublayers ::
  "('s, 'd) tblock list \<Rightarrow> (string, ('s, 'd) linear) dict result" where
  "collect_base_sublayers blocks = collect_blocks 0 blocks []"

text \<open>The names come from a dictionary, so they are distinct and the items append.\<close>

fun attach_adapters ::
  "('s, 'd) torch_ops \<Rightarrow> (string, ('s, 'd) linear) dict \<Rightarrow> int \<Rightarrow> pyfloat \<Rightarrow>
   (rng, (string, ('s, 'd) plugin_layer) dict) prog" where
  "attach_adapters ops [] r alpha = sret []"
| "attach_adapters ops ((name, lin) # rest) r alpha =
     sbind (layer_init ops lin r alpha None)
       (\<lambda>l. sbind (attach_adapters ops rest r alpha) (\<lambda>ls. sret ((name, l) # ls)))"

fun plug_names ::
  "nat \<Rightarrow> (string, layer_ref) dict \<Rightarrow> string list \<Rightarrow> ('s, 'd) tblock \<Rightarrow> ('s, 'd) tblock" where
  "plug_names i layers [] blk = blk"
| "plug_names i layers (name # names) blk =
     plug_names i layers names
       (case dict_get layers (sublayer_key i name) of
          Some r \<Rightarrow> blk\<lparr>sublayers := dict_set (sublayers blk) name (Adapted r)\<rparr>
        | None \<Rightarrow> blk)"

fun plug_blocks ::
  "nat \<Rightarrow> (string, layer_ref) dict \<Rightarrow> ('s, 'd) tblock list \<Rightarrow> ('s, 'd) tblock list" where
  "plug_blocks i layers [] = []"
| "plug_blocks i layers (blk # blks) =
     plug_names i layers adapted_sublayers blk # plug_blocks (Suc i) layers blks"

definition plug_in ::
  "('s, 'd) tblock list \<Rightarrow> (string, layer_ref) dict \<Rightarrow> ('s, 'd) tblock list" where
  "plug_in blocks layers = plug_blocks 0 layers blocks"

section \<open>Square roots\<close>

text \<open>\<^verbatim>\<open>math.sqrt\<close> of an int: the integer root, digit by digit in base 4, of the scaled argument has
  more bits than a float, and one more bit says whether it is exact.\<close>

fun isqrt :: "nat \<Rightarrow> nat" where
  "isqrt n = (if n = 0 then 0 else (let r = 2 * isqrt (n div 4) in if (r + 1) * (r + 1) \<le> n then r + 1 else r))"

declare isqrt.simps [simp del]

definition float_sqrt :: "int \<Rightarrow> pyfloat result" where
  "float_sqrt n =
     rbind (float_of_int n) (\<lambda>x. case x of
         Fin q \<Rightarrow>
           if q < 0 then Inl ValueError
           else (let m = nat \<lfloor>q\<rfloor> * 4 ^ 60; s = isqrt m
                 in Inr (to_float (of_nat (2 * s + (if s * s = m then 0 else 1)) / 2 ^ 61)))
       | _ \<Rightarrow> Inl ValueError)"

lemma isqrt_bounds: "isqrt n * isqrt n \<le> n \<and> n < (isqrt n + 1) * (isqrt n + 1)"
proof (induction n rule: isqrt.induct)
  case (1 n)
  show ?case
  proof (cases "n = 0")
    case True
    then show ?thesis by (simp add: isqrt.simps)
  next
    case False
    define r where "r = isqrt (n div 4)"
    have IH: "r * r \<le> n div 4" "n div 4 < (r + 1) * (r + 1)" using "1.IH" [OF False] by (simp_all add: r_def)
    have "4 * (n div 4) \<le> n" "n < 4 * (n div 4) + 4" by simp_all
    then have "4 * (r * r) \<le> n" "n < 4 * ((r + 1) * (r + 1))" using IH by linarith+
    then have "(2 * r) * (2 * r) \<le> n" "n < (2 * r + 2) * (2 * r + 2)" by (simp_all add: algebra_simps)
    moreover have "isqrt n = (if (2 * r + 1) * (2 * r + 1) \<le> n then 2 * r + 1 else 2 * r)"
      using False by (subst isqrt.simps) (simp add: Let_def r_def)
    ultimately show ?thesis by (simp add: not_le)
  qed
qed

lemma isqrt_square: "isqrt (k * k) = k"
proof (rule antisym)
  have b: "isqrt (k * k) * isqrt (k * k) \<le> k * k" "k * k < (isqrt (k * k) + 1) * (isqrt (k * k) + 1)"
    using isqrt_bounds by blast+
  show "isqrt (k * k) \<le> k"
  proof (rule ccontr)
    assume "\<not> isqrt (k * k) \<le> k"
    then have "k * k < isqrt (k * k) * isqrt (k * k)" by (intro mult_strict_mono) auto
    with b(1) show False by simp
  qed
  show "k \<le> isqrt (k * k)"
  proof (rule ccontr)
    assume "\<not> k \<le> isqrt (k * k)"
    then have "(isqrt (k * k) + 1) * (isqrt (k * k) + 1) \<le> k * k" by (intro mult_le_mono) auto
    with b(2) show False by simp
  qed
qed

lemma float_sqrt_square:
  assumes "k \<le> 2 ^ 26"
  shows "float_sqrt (int k * int k) = Inr (Fin (of_nat k))"
proof -
  have "k * k \<le> 2 ^ 26 * 2 ^ 26" using assms by (intro mult_le_mono) simp_all
  then have "int (k * k) \<le> int (2 ^ 26 * 2 ^ 26)" by (simp only: of_nat_le_iff)
  then have kk: "int k * int k \<le> 2 ^ 53" by simp
  then have f: "float_of_int (int k * int k) = Inr (Fin (of_int (int k * int k)))"
    by (intro float_of_int_exact) simp
  have k53: "\<bar>int k\<bar> \<le> 2 ^ 53" using assms by simp
  have "(of_nat k :: rat) \<le> of_nat (2 ^ 26)" using assms by (simp only: of_nat_le_iff)
  moreover have "(of_nat (2 ^ 26) :: rat) < 2 ^ 1024" by simp
  ultimately have "\<bar>of_int (int k)\<bar> < (2 ^ 1024 :: rat)" by simp
  then have t: "to_float (of_nat k) = Fin (of_nat k)"
    using to_float_dyadic [OF dyadic53_of_int [OF k53]] by simp
  have m: "nat \<lfloor>of_int (int k * int k) :: rat\<rfloor> * 4 ^ 60 = (k * 2 ^ 60) * (k * 2 ^ 60)"
    by (simp only: floor_of_int of_nat_mult [symmetric] nat_int) simp
  show ?thesis
    by (simp only: float_sqrt_def f rbind_simps pyfloat.case Let_def m isqrt_square) (simp add: t)
qed

section \<open>The block\<close>

text \<open>
  What a block asks of PyTorch: \<^verbatim>\<open>LayerNorm\<close> of a width, the same function for every
  norm, since its weights are the initial ones and frozen; the shape of the input; \<^verbatim>\<open>view\<close> and
  \<^verbatim>\<open>transpose\<close> into heads; products; the division by a float; softmax; the way back from heads; GELU.
\<close>

record 'd block_ops =
  bo_norm :: "int \<Rightarrow> 'd \<Rightarrow> 'd result"
  bo_shape :: "'d \<Rightarrow> (nat \<times> nat) result"
  bo_heads :: "nat \<times> nat \<Rightarrow> int \<Rightarrow> int \<Rightarrow> 'd \<Rightarrow> 'd result"
  bo_scores :: "'d \<Rightarrow> 'd \<Rightarrow> 'd result"
  bo_div :: "'d \<Rightarrow> pyfloat \<Rightarrow> 'd"
  bo_softmax :: "'d \<Rightarrow> 'd"
  bo_matmul :: "'d \<Rightarrow> 'd \<Rightarrow> 'd result"
  bo_merge :: "nat \<times> nat \<Rightarrow> int \<Rightarrow> 'd \<Rightarrow> 'd result"
  bo_gelu :: "'d \<Rightarrow> 'd"

text \<open>\<^verbatim>\<open>self.name(x)\<close>: the base layer, or the adapter that was plugged in.\<close>

definition apply_sublayer ::
  "('s, 'd) torch_ops \<Rightarrow> (layer_ref \<Rightarrow> ('s, 'd) plugin_layer) \<Rightarrow> ('s, 'd) tblock \<Rightarrow> string \<Rightarrow> 'd \<Rightarrow> 'd result" where
  "apply_sublayer ops lookup blk name x =
     (case dict_get (sublayers blk) name of
        None \<Rightarrow> Inl AttributeError
      | Some (BaseLinear l) \<Rightarrow> t_base ops l x
      | Some (Adapted r) \<Rightarrow> forward ops (lookup r) x)"

definition project_heads ::
  "('s, 'd) torch_ops \<Rightarrow> 'd block_ops \<Rightarrow> (layer_ref \<Rightarrow> ('s, 'd) plugin_layer) \<Rightarrow> ('s, 'd) tblock \<Rightarrow>
   nat \<times> nat \<Rightarrow> string \<Rightarrow> 'd \<Rightarrow> 'd result" where
  "project_heads ops bo lookup blk shape name x =
     rbind (apply_sublayer ops lookup blk name x) (bo_heads bo shape (n_heads blk) (head_dim blk))"

definition self_attention ::
  "('s, 'd) torch_ops \<Rightarrow> 'd block_ops \<Rightarrow> (layer_ref \<Rightarrow> ('s, 'd) plugin_layer) \<Rightarrow> ('s, 'd) tblock \<Rightarrow>
   'd \<Rightarrow> 'd result" where
  "self_attention ops bo lookup blk x =
     rbind (bo_shape bo x) (\<lambda>shape.
     rbind (project_heads ops bo lookup blk shape ''q_proj'' x) (\<lambda>q.
     rbind (project_heads ops bo lookup blk shape ''k_proj'' x) (\<lambda>k.
     rbind (project_heads ops bo lookup blk shape ''v_proj'' x) (\<lambda>v.
     rbind (bo_scores bo q k) (\<lambda>products.
     rbind (float_sqrt (head_dim blk)) (\<lambda>root.
       let weights = bo_softmax bo (bo_div bo products root)
       in rbind (bo_matmul bo weights v) (\<lambda>mixed.
          rbind (bo_merge bo shape (d_model blk) mixed) (apply_sublayer ops lookup blk ''out_proj''))))))))"

definition block_forward ::
  "('s, 'd) torch_ops \<Rightarrow> 'd block_ops \<Rightarrow> (layer_ref \<Rightarrow> ('s, 'd) plugin_layer) \<Rightarrow> ('s, 'd) tblock \<Rightarrow>
   'd \<Rightarrow> 'd result" where
  "block_forward ops bo lookup blk x =
     rbind (bo_norm bo (d_model blk) x) (\<lambda>normed.
     rbind (self_attention ops bo lookup blk normed) (\<lambda>attended.
     rbind (t_add ops x attended) (\<lambda>x.
     rbind (bo_norm bo (d_model blk) x) (\<lambda>hidden.
     rbind (apply_sublayer ops lookup blk ''fc1'' hidden) (\<lambda>hidden.
     rbind (apply_sublayer ops lookup blk ''fc2'' (bo_gelu bo hidden)) (t_add ops x))))))"

text \<open>The blocks of the model in turn; a block is the module that is called.\<close>

fun run_blocks ::
  "('s, 'd) torch_ops \<Rightarrow> 'd block_ops \<Rightarrow> (layer_ref \<Rightarrow> ('s, 'd) plugin_layer) \<Rightarrow> ('s, 'd) tblock list \<Rightarrow>
   'd \<Rightarrow> 'd result" where
  "run_blocks ops bo lookup [] x = Inr x"
| "run_blocks ops bo lookup (blk # blks) x =
     rbind (block_forward ops bo lookup blk x) (run_blocks ops bo lookup blks)"

section \<open>Sublayer keys\<close>

lemma show_nat_inj: "show_nat i = show_nat j \<longleftrightarrow> i = j"
  by (metis digits_value_show_nat)

lemma sublayer_key_inj: "sublayer_key i name = sublayer_key j name' \<longleftrightarrow> i = j \<and> name = name'"
proof
  assume eq: "sublayer_key i name = sublayer_key j name'"
  have tw: "takeWhile (\<lambda>c. c \<noteq> CHR ''.'') (show_nat n @ CHR ''.'' # s) = show_nat n" for n s
  proof -
    have "\<forall>c \<in> set (show_nat n). c \<noteq> CHR ''.''" by (auto dest: show_nat_all)
    then show ?thesis by (simp add: takeWhile_append2)
  qed
  from eq have eq': "show_nat i @ CHR ''.'' # name = show_nat j @ CHR ''.'' # name'"
    by (simp add: sublayer_key_def)
  then have "show_nat i = show_nat j" using tw [of i name] tw [of j name'] by simp
  with eq' show "i = j \<and> name = name'" by (simp add: show_nat_inj)
qed simp

primrec block_keys :: "nat \<Rightarrow> nat \<Rightarrow> string list" where
  "block_keys i 0 = []"
| "block_keys i (Suc n) = map (sublayer_key i) adapted_sublayers @ block_keys (Suc i) n"

lemma block_keys_mem:
  "key \<in> set (block_keys i n) \<longleftrightarrow>
     (\<exists>j name. key = sublayer_key j name \<and> i \<le> j \<and> j < i + n \<and> name \<in> set adapted_sublayers)"
proof (induction n arbitrary: i)
  case (Suc n)
  have "(\<exists>j name. key = sublayer_key j name \<and> i \<le> j \<and> j < i + Suc n \<and> name \<in> set adapted_sublayers) \<longleftrightarrow>
      key \<in> sublayer_key i ` set adapted_sublayers \<or>
      (\<exists>j name. key = sublayer_key j name \<and> Suc i \<le> j \<and> j < Suc i + n \<and> name \<in> set adapted_sublayers)"
    (is "?L \<longleftrightarrow> ?R1 \<or> ?R2")
  proof
    assume ?L
    then obtain j name where j: "key = sublayer_key j name" "i \<le> j" "j < i + Suc n" "name \<in> set adapted_sublayers"
      by blast
    show "?R1 \<or> ?R2"
    proof (cases "j = i")
      case True
      with j show ?thesis by blast
    next
      case False
      with j(2,3) have "Suc i \<le> j" "j < Suc i + n" by simp_all
      with j(1,4) show ?thesis by blast
    qed
  next
    assume "?R1 \<or> ?R2"
    then show ?L
    proof
      assume ?R1
      then obtain name where "key = sublayer_key i name" "name \<in> set adapted_sublayers" by blast
      moreover have "i \<le> i" "i < i + Suc n" by simp_all
      ultimately show ?L by blast
    next
      assume ?R2
      then obtain j name where j: "key = sublayer_key j name" "Suc i \<le> j" "j < Suc i + n"
        "name \<in> set adapted_sublayers" by blast
      then have "i \<le> j" "j < i + Suc n" by simp_all
      with j show ?L by blast
    qed
  qed
  with Suc show ?case by simp
qed simp

lemma distinct_block_keys: "distinct (block_keys i n)"
proof (induction n arbitrary: i)
  case (Suc n)
  have "distinct (map (sublayer_key i) adapted_sublayers)"
    by (simp add: adapted_sublayers_def sublayer_key_inj)
  moreover have "set (map (sublayer_key i) adapted_sublayers) \<inter> set (block_keys (Suc i) n) = {}"
    by (auto simp: block_keys_mem sublayer_key_inj)
  ultimately show ?case using Suc.IH [of "Suc i"] by (simp only: block_keys.simps distinct_append)
qed simp

text \<open>Collecting names of a block appends them, when the keys are new.\<close>

lemma collect_names_Inr:
  assumes "collect_names i blk names acc = Inr d" and "distinct (dict_keys acc @ map (sublayer_key i) names)"
  shows "dict_keys d = dict_keys acc @ map (sublayer_key i) names \<and> prefix acc d \<and>
    (\<forall>name \<in> set names. \<exists>l. dict_get (sublayers blk) name = Some (BaseLinear l) \<and>
       (sublayer_key i name, l) \<in> set d) \<and>
    (\<forall>(k, l) \<in> set d. (k, l) \<in> set acc \<or> (\<exists>name. dict_get (sublayers blk) name = Some (BaseLinear l)))"
  using assms
proof (induction names arbitrary: acc)
  case (Cons name names)
  from Cons.prems(1) obtain l where l: "dict_get (sublayers blk) name = Some (BaseLinear l)"
    "collect_names i blk names (dict_set acc (sublayer_key i name) l) = Inr d"
    by (auto split: option.splits submodule.splits)
  have fresh: "dict_set acc (sublayer_key i name) l = acc @ [(sublayer_key i name, l)]"
    using Cons.prems(2) by (intro dict_set_fresh) (auto simp: map_of_eq_None_iff dict_keys_def)
  have "distinct (dict_keys (acc @ [(sublayer_key i name, l)]) @ map (sublayer_key i) names)"
    using Cons.prems(2) by (simp add: dict_keys_def)
  from Cons.IH [OF l(2) [unfolded fresh] this]
  have IH: "dict_keys d = dict_keys (acc @ [(sublayer_key i name, l)]) @ map (sublayer_key i) names"
    "prefix (acc @ [(sublayer_key i name, l)]) d"
    "\<forall>name \<in> set names. \<exists>l. dict_get (sublayers blk) name = Some (BaseLinear l) \<and>
       (sublayer_key i name, l) \<in> set d"
    "\<forall>(k, l') \<in> set d. (k, l') \<in> set (acc @ [(sublayer_key i name, l)]) \<or>
       (\<exists>name. dict_get (sublayers blk) name = Some (BaseLinear l'))"
    by blast+
  have "(sublayer_key i name, l) \<in> set d" using IH(2) by (auto simp: prefix_def)
  with IH l(1) show ?case by (auto simp: dict_keys_def dest: append_prefixD)
qed (auto simp: dict_keys_def)

lemma collect_blocks_Inr:
  assumes "collect_blocks i blks acc = Inr d" and "distinct (dict_keys acc @ block_keys i (length blks))"
  shows "dict_keys d = dict_keys acc @ block_keys i (length blks) \<and>
    (\<forall>j < length blks. \<forall>name \<in> set adapted_sublayers. \<exists>l. dict_get (sublayers (blks ! j)) name = Some (BaseLinear l)) \<and>
    (\<forall>(k, l) \<in> set d. (k, l) \<in> set acc \<or>
       (\<exists>blk \<in> set blks. \<exists>name. dict_get (sublayers blk) name = Some (BaseLinear l)))"
  using assms
proof (induction blks arbitrary: i acc)
  case (Cons blk blks)
  from Cons.prems(1) obtain b where b: "collect_names i blk adapted_sublayers acc = Inr b"
    "collect_blocks (Suc i) blks b = Inr d"
    by (auto simp: rbind_Inr_iff)
  have "distinct (dict_keys acc @ map (sublayer_key i) adapted_sublayers)"
    using Cons.prems(2) by auto
  note N = collect_names_Inr [OF b(1) this]
  then have "distinct (dict_keys b @ block_keys (Suc i) (length blks))"
    using Cons.prems(2) by simp
  note IH = Cons.IH [OF b(2) this]
  show ?case
  proof (intro conjI allI impI ballI)
    show "dict_keys d = dict_keys acc @ block_keys i (length (blk # blks))"
      using N IH by simp
  next
    fix j name assume "j < length (blk # blks)" "name \<in> set adapted_sublayers"
    with N IH show "\<exists>l. dict_get (sublayers ((blk # blks) ! j)) name = Some (BaseLinear l)"
      by (cases j) auto
  next
    fix x assume "x \<in> set d"
    with N IH show "case x of (k, l) \<Rightarrow> (k, l) \<in> set acc \<or>
        (\<exists>blk \<in> set (blk # blks). \<exists>name. dict_get (sublayers blk) name = Some (BaseLinear l))"
      by fastforce
  qed
qed (auto simp: dict_keys_def)

section \<open>The base and its collection\<close>

lemma freeze_submodule_eq: "freeze_submodule (BaseLinear l) = BaseLinear (freeze_linear l)"
  by (simp add: freeze_linear_def freeze_parameter_def [abs_def])

text \<open>A block as it is built: six linear sublayers, frozen, under their names.\<close>

definition fresh_block :: "int \<Rightarrow> int \<Rightarrow> ('s, 'd) tblock \<Rightarrow> bool" where
  "fresh_block d heads blk \<longleftrightarrow>
     heads \<noteq> 0 \<and> d mod heads = 0 \<and> d_model blk = d \<and> n_heads blk = heads \<and> head_dim blk = d div heads \<and>
     dict_keys (sublayers blk) = [''q_proj'', ''k_proj'', ''v_proj'', ''out_proj'', ''fc1'', ''fc2''] \<and>
     (\<forall>m \<in> set (dict_values (sublayers blk)). \<exists>l. m = BaseLinear l)"

lemma block_init_Inr: "block_init mk d heads ffn w = (Inr blk, w') \<Longrightarrow> fresh_block d heads blk"
  by (auto simp: block_init_def sbind_Inr_iff sret_apply sraise_apply fresh_block_def dict_keys_def
      dict_values_def split: if_splits)

lemma init_blocks_Inr:
  assumes "init_blocks n (block_init mk d heads ffn) w = (Inr blocks, w')"
  shows "length blocks = n \<and> (\<forall>blk \<in> set blocks. fresh_block d heads blk)"
  using assms
  by (induction n arbitrary: blocks w) (auto simp: sret_apply sbind_Inr_iff dest: block_init_Inr)

lemma freeze_fresh_block:
  assumes "fresh_block d heads blk"
  shows "fresh_block d heads (freeze_block blk) \<and>
    (\<forall>name l. dict_get (sublayers (freeze_block blk)) name = Some (BaseLinear l) \<longrightarrow> freeze_linear l = l)"
proof
  have keys: "dict_keys (sublayers (freeze_block blk)) = dict_keys (sublayers blk)"
    by (simp add: freeze_block_def dict_keys_def case_prod_unfold)
  have base: "\<exists>l. freeze_submodule m = BaseLinear l \<and> freeze_linear l = l"
    if "m \<in> set (dict_values (sublayers blk))" for m
    using that assms by (auto simp: fresh_block_def freeze_submodule_eq simp del: freeze_submodule.simps)
  then show "fresh_block d heads (freeze_block blk)"
    using assms keys by (fastforce simp: fresh_block_def freeze_block_def dict_values_def)
  show "\<forall>name l. dict_get (sublayers (freeze_block blk)) name = Some (BaseLinear l) \<longrightarrow> freeze_linear l = l"
  proof (intro allI impI)
    fix name l assume "dict_get (sublayers (freeze_block blk)) name = Some (BaseLinear l)"
    then have "(name, BaseLinear l) \<in> set (sublayers (freeze_block blk))"
      by (simp add: dict_get_def map_of_SomeD)
    then obtain m where "(name, m) \<in> set (sublayers blk)" "BaseLinear l = freeze_submodule m"
      by (auto simp: freeze_block_def)
    then have "m \<in> set (dict_values (sublayers blk))" "BaseLinear l = freeze_submodule m"
      by (force simp: dict_values_def)+
    with base show "freeze_linear l = l" by fastforce
  qed
qed

lemma fresh_block_get:
  assumes "fresh_block d heads blk" and "name \<in> set adapted_sublayers"
  shows "\<exists>l. dict_get (sublayers blk) name = Some (BaseLinear l)"
proof -
  have "name \<in> set (dict_keys (sublayers blk))"
    using assms by (auto simp: fresh_block_def adapted_sublayers_def)
  then obtain m where m: "dict_get (sublayers blk) name = Some m" by (auto simp: dict_keys_get)
  then have "(name, m) \<in> set (sublayers blk)" by (simp add: dict_get_def map_of_SomeD)
  then have "m \<in> set (dict_values (sublayers blk))" by (force simp: dict_values_def)
  with m assms(1) show ?thesis by (auto simp: fresh_block_def)
qed

lemma collect_names_ok:
  assumes "\<forall>name \<in> set names. \<exists>l. dict_get (sublayers blk) name = Some (BaseLinear l)"
  shows "\<exists>d. collect_names i blk names acc = Inr d"
  using assms by (induction names arbitrary: acc) auto

lemma collect_blocks_ok:
  assumes "\<forall>blk \<in> set blks. \<forall>name \<in> set adapted_sublayers. \<exists>l. dict_get (sublayers blk) name = Some (BaseLinear l)"
  shows "\<exists>d. collect_blocks i blks acc = Inr d"
  using assms
proof (induction blks arbitrary: i acc)
  case (Cons blk blks)
  obtain b where "collect_names i blk adapted_sublayers acc = Inr b"
    using collect_names_ok [of adapted_sublayers blk i acc] Cons.prems by auto
  with Cons.IH [of "Suc i" b] Cons.prems show ?case by simp
qed simp

section \<open>Plugging in\<close>

lemma plug_names_get:
  "dict_get (sublayers (plug_names i layers names blk)) n =
     (if n \<in> set names then (case dict_get layers (sublayer_key i n) of
          Some r \<Rightarrow> Some (Adapted r) | None \<Rightarrow> dict_get (sublayers blk) n)
      else dict_get (sublayers blk) n)"
  by (induction names arbitrary: blk) (auto simp: py_dict.get_set split: option.split)

lemma length_plug_blocks [simp]: "length (plug_blocks i layers blks) = length blks"
  by (induction blks arbitrary: i) simp_all

lemma nth_plug_blocks:
  "j < length blks \<Longrightarrow> plug_blocks i layers blks ! j = plug_names (i + j) layers adapted_sublayers (blks ! j)"
proof (induction blks arbitrary: i j)
  case (Cons b blks)
  then show ?case by (cases j) simp_all
qed simp

lemma collect_plugged:
  assumes "blks \<noteq> []" and "dict_get layers (sublayer_key i ''out_proj'') \<noteq> None"
  shows "collect_blocks i (plug_blocks i layers blks) [] = Inl TypeError"
proof -
  obtain b bs where blks: "blks = b # bs" using assms(1) by (cases blks) auto
  obtain r where r: "dict_get layers (sublayer_key i ''out_proj'') = Some r" using assms(2) by auto
  have "dict_get (sublayers (plug_names i layers adapted_sublayers b)) ''out_proj'' = Some (Adapted r)"
    unfolding plug_names_get by (simp add: r adapted_sublayers_def)
  then have "collect_names i (plug_names i layers adapted_sublayers b) [''out_proj'', ''fc1'', ''fc2''] [] = Inl TypeError"
    by simp
  then have "collect_names i (plug_names i layers adapted_sublayers b) adapted_sublayers [] = Inl TypeError"
    unfolding adapted_sublayers_def [symmetric] .
  then show ?thesis by (simp add: blks)
qed

lemma frozen_base:
  assumes "build_frozen_base mk mk_embed vocab d heads ffn n_layers w = (Inr (emb, blocks, head), w')"
  shows "\<not> requires_grad emb \<and> freeze_linear head = head \<and> length blocks = nat n_layers \<and>
    (\<exists>bases. collect_base_sublayers blocks = Inr bases \<and>
       dict_keys bases = block_keys 0 (nat n_layers) \<and> dict_ok bases \<and> length bases = 3 * nat n_layers \<and>
       (\<forall>(key, l) \<in> set bases. freeze_linear l = l) \<and>
       (\<forall>(key, l) \<in> set bases. \<exists>blk \<in> set blocks. \<exists>name. dict_get (sublayers blk) name = Some (BaseLinear l)))"
proof -
  obtain e bs h where built: "emb = freeze_parameter e" "blocks = map freeze_block bs" "head = freeze_linear h"
    "length bs = nat n_layers" "\<forall>blk \<in> set bs. fresh_block d heads blk"
    using assms by (auto simp: build_frozen_base_def sbind_Inr_iff sret_apply dest: init_blocks_Inr)
  have fresh: "\<forall>blk \<in> set blocks. fresh_block d heads blk"
    using freeze_fresh_block built(2,5) by auto
  have frozen: "freeze_linear l = l"
    if h: "blk \<in> set blocks" "dict_get (sublayers blk) name = Some (BaseLinear l)" for blk name l
  proof -
    obtain b where "b \<in> set bs" "blk = freeze_block b" using h(1) built(2) by auto
    with h(2) built(5) freeze_fresh_block [of d heads b] show ?thesis by blast
  qed
  have len: "length blocks = nat n_layers" using built(2,4) by simp
  obtain bases where bases: "collect_base_sublayers blocks = Inr bases"
    using collect_blocks_ok [of blocks 0 "[]"] fresh_block_get fresh
    unfolding collect_base_sublayers_def by fast
  have "distinct (dict_keys [] @ block_keys 0 (length blocks))" by (simp add: dict_keys_def distinct_block_keys)
  from collect_blocks_Inr [OF bases [unfolded collect_base_sublayers_def] this]
  have keys: "dict_keys bases = block_keys 0 (nat n_layers)"
    and from_blocks: "\<forall>(k, l) \<in> set bases. \<exists>blk \<in> set blocks. \<exists>name. dict_get (sublayers blk) name = Some (BaseLinear l)"
    using len by (auto simp: dict_keys_def)
  have "length (block_keys i n) = 3 * n" for i n
    by (induction n arbitrary: i) (simp_all add: adapted_sublayers_def)
  then have three: "length bases = 3 * nat n_layers"
    using keys by (metis dict_keys_def length_map)
  have ok: "dict_ok bases" using keys distinct_block_keys by (simp add: dict_ok_def dict_keys_def)
  from frozen from_blocks have "\<forall>(key, l) \<in> set bases. freeze_linear l = l" by blast
  with built(1,3) len bases keys ok three from_blocks show ?thesis
    by (simp add: freeze_parameter_def)
qed

section \<open>Blocks that compute the same\<close>

text \<open>What a block computes is a matter of its sizes and of what its sublayers compute.\<close>

lemma block_forward_cong:
  assumes "d_model blk = d_model blk'" and "n_heads blk = n_heads blk'" and "head_dim blk = head_dim blk'"
    and "\<And>name. apply_sublayer ops lookup blk name = apply_sublayer ops lookup' blk' name"
  shows "block_forward ops bo lookup blk = block_forward ops bo lookup' blk'"
  by (rule ext) (simp only: block_forward_def self_attention_def project_heads_def assms)

definition same_blocks ::
  "('s, 'd) torch_ops \<Rightarrow> (layer_ref \<Rightarrow> ('s, 'd) plugin_layer) \<Rightarrow> (layer_ref \<Rightarrow> ('s, 'd) plugin_layer) \<Rightarrow>
   ('s, 'd) tblock \<Rightarrow> ('s, 'd) tblock \<Rightarrow> bool" where
  "same_blocks ops lookup lookup' blk blk' \<longleftrightarrow>
     d_model blk = d_model blk' \<and> n_heads blk = n_heads blk' \<and> head_dim blk = head_dim blk' \<and>
     (\<forall>name. apply_sublayer ops lookup blk name = apply_sublayer ops lookup' blk' name)"

lemma run_blocks_same:
  assumes "list_all2 (same_blocks ops lookup lookup') blks blks'"
  shows "run_blocks ops bo lookup blks x = run_blocks ops bo lookup' blks' x"
  using assms
proof (induction arbitrary: x rule: list_all2_induct)
  case (Cons blk blks blk' blks')
  have "block_forward ops bo lookup blk = block_forward ops bo lookup' blk'"
    using Cons.hyps(1) by (intro block_forward_cong) (simp_all add: same_blocks_def)
  then show ?case using Cons.IH
    by (cases "block_forward ops bo lookup' blk' x") simp_all
qed simp

lemma plug_names_sizes:
  "d_model (plug_names i layers names blk) = d_model blk \<and> n_heads (plug_names i layers names blk) = n_heads blk \<and>
   head_dim (plug_names i layers names blk) = head_dim blk"
  by (induction names arbitrary: blk) (simp_all split: option.split)

lemma plug_in_same:
  assumes "\<And>i name. i < length blocks \<Longrightarrow>
      apply_sublayer ops lookup (plug_names i layers adapted_sublayers (blocks ! i)) name =
      apply_sublayer ops lookup' (blocks' ! i) name"
    and "length blocks' = length blocks"
    and "\<And>i. i < length blocks \<Longrightarrow> d_model (blocks' ! i) = d_model (blocks ! i) \<and>
      n_heads (blocks' ! i) = n_heads (blocks ! i) \<and> head_dim (blocks' ! i) = head_dim (blocks ! i)"
  shows "list_all2 (same_blocks ops lookup lookup') (plug_in blocks layers) blocks'"
  unfolding plug_in_def
  by (rule list_all2_all_nthI)
    (use assms in \<open>auto simp: nth_plug_blocks same_blocks_def plug_names_sizes\<close>)

text \<open>Where the collected layers come from.\<close>

lemma collect_blocks_get:
  assumes "collect_blocks i blks acc = Inr d" and "distinct (dict_keys acc @ block_keys i (length blks))"
  shows "prefix acc d \<and> (\<forall>j < length blks. \<forall>name \<in> set adapted_sublayers. \<exists>l.
    dict_get (sublayers (blks ! j)) name = Some (BaseLinear l) \<and> (sublayer_key (i + j) name, l) \<in> set d)"
  using assms
proof (induction blks arbitrary: i acc)
  case (Cons blk blks)
  from Cons.prems(1) obtain b where b: "collect_names i blk adapted_sublayers acc = Inr b"
    "collect_blocks (Suc i) blks b = Inr d"
    by (auto simp: rbind_Inr_iff)
  have "distinct (dict_keys acc @ map (sublayer_key i) adapted_sublayers)"
    using Cons.prems(2) by auto
  note N = collect_names_Inr [OF b(1) this]
  then have "distinct (dict_keys b @ block_keys (Suc i) (length blks))"
    using Cons.prems(2) by simp
  note IH = Cons.IH [OF b(2) this]
  have sub: "set b \<subseteq> set d" using IH set_mono_prefix by blast
  show ?case
  proof (intro conjI allI impI ballI)
    show "prefix acc d" using N IH prefix_order.trans by blast
  next
    fix j name assume j: "j < length (blk # blks)" "name \<in> set adapted_sublayers"
    show "\<exists>l. dict_get (sublayers ((blk # blks) ! j)) name = Some (BaseLinear l) \<and>
        (sublayer_key (i + j) name, l) \<in> set d"
    proof (cases j)
      case 0
      with N j(2) sub show ?thesis by fastforce
    next
      case (Suc k)
      with IH j show ?thesis by auto
    qed
  qed
qed simp

lemma collected_base:
  assumes "build_frozen_base mk mk_embed vocab d heads ffn n_layers w = (Inr (emb, blocks, head), w')"
    and "collect_base_sublayers blocks = Inr bases" and "i < length blocks" and "name \<in> set adapted_sublayers"
  obtains l where "dict_get (sublayers (blocks ! i)) name = Some (BaseLinear l)"
    "dict_get bases (sublayer_key i name) = Some l" "freeze_linear l = l"
proof -
  have "distinct (dict_keys [] @ block_keys 0 (length blocks))" by (simp add: dict_keys_def distinct_block_keys)
  from collect_blocks_get [OF assms(2) [unfolded collect_base_sublayers_def] this] assms(3,4)
  obtain l where l: "dict_get (sublayers (blocks ! i)) name = Some (BaseLinear l)"
    "(sublayer_key i name, l) \<in> set bases" by auto
  have "dict_ok bases" "\<forall>(key, l) \<in> set bases. freeze_linear l = l"
    using frozen_base [OF assms(1)] assms(2) by auto
  with l that show thesis using py_dict.get_Some_iff by fastforce
qed

section \<open>Properties of the model\<close>

lemma built_fresh:
  assumes "build_frozen_base mk mk_embed vocab d heads ffn n_layers w = (Inr (emb, blocks, head), w')"
    and "i < length blocks"
  shows "fresh_block d heads (blocks ! i)"
proof -
  obtain bs where bs: "blocks = map freeze_block bs" "\<forall>blk \<in> set bs. fresh_block d heads blk"
    using assms(1) by (auto simp: build_frozen_base_def sbind_Inr_iff sret_apply dest: init_blocks_Inr)
  with assms(2) freeze_fresh_block [of d heads "bs ! i"] show ?thesis by simp
qed

lemma closed_gate_sublayer:
  assumes base: "build_frozen_base mk mk_embed vocab d heads ffn n_layers w = (Inr (emb, blocks, head), w')"
    and bases: "collect_base_sublayers blocks = Inr bases"
    and closed: "\<forall>key r. dict_get layers key = Some r \<longrightarrow> \<not> routing_gate_enabled (lookup r) \<and>
      map_option freeze_linear (dict_get bases key) = Some (base_layer (lookup r))"
    and i: "i < length blocks"
  shows "apply_sublayer ops lookup (plug_names i layers adapted_sublayers (blocks ! i)) name x =
    apply_sublayer ops lookup' (blocks ! i) name x"
    (is "?L = ?R")
proof -
  have unplugged: "apply_sublayer ops lookup (blocks ! i) name x = ?R"
  proof -
    have "\<exists>l. m = BaseLinear l" if "dict_get (sublayers (blocks ! i)) name = Some m" for m
      using that built_fresh [OF base i] by (force simp: fresh_block_def dict_get_def dict_values_def dest: map_of_SomeD)
    then show ?thesis by (auto simp: apply_sublayer_def split: option.split submodule.split)
  qed
  show ?thesis
  proof (cases "name \<in> set adapted_sublayers \<and> dict_get layers (sublayer_key i name) \<noteq> None")
    case True
    then obtain r where r: "dict_get layers (sublayer_key i name) = Some r" by auto
    obtain l where l: "dict_get (sublayers (blocks ! i)) name = Some (BaseLinear l)"
      "dict_get bases (sublayer_key i name) = Some l" "freeze_linear l = l"
      using collected_base [OF base bases i] True by blast
    from closed r have "\<not> routing_gate_enabled (lookup r) \<and>
        map_option freeze_linear (dict_get bases (sublayer_key i name)) = Some (base_layer (lookup r))" by blast
    with l(2,3) have "\<not> routing_gate_enabled (lookup r)" "base_layer (lookup r) = l" by simp_all
    with True r l(1) show ?thesis
      by (simp add: apply_sublayer_def plug_names_get closed_gate_is_base)
  next
    case False
    then have "dict_get (sublayers (plug_names i layers adapted_sublayers (blocks ! i))) name =
        dict_get (sublayers (blocks ! i)) name"
      by (auto simp: plug_names_get)
    then have "?L = apply_sublayer ops lookup (blocks ! i) name x" by (simp add: apply_sublayer_def)
    with unplugged show ?thesis by simp
  qed
qed

text \<open>
  C26. With every routing gate closed, the model computes exactly what the frozen base computes, for
  all tokens and errors included, whatever the matrices of the plugged-in adapters hold, and for
  adapters over any part of the adapted sublayers.
\<close>

theorem closed_gates_give_base_model:
  assumes "build_frozen_base mk mk_embed vocab d heads ffn n_layers w = (Inr (emb, blocks, head), w')"
    and "collect_base_sublayers blocks = Inr bases"
    and "\<forall>key r. dict_get layers key = Some r \<longrightarrow> \<not> routing_gate_enabled (lookup r) \<and>
      map_option freeze_linear (dict_get bases key) = Some (base_layer (lookup r))"
  shows "run_blocks ops bo lookup (plug_in blocks layers) x = run_blocks ops bo lookup' blocks x"
proof (rule run_blocks_same)
  show "list_all2 (same_blocks ops lookup lookup') (plug_in blocks layers) blocks"
    by (rule plug_in_same) (simp_all add: fun_eq_iff closed_gate_sublayer [OF assms])
qed

section \<open>An example model\<close>

definition example_mk :: "int \<Rightarrow> int \<Rightarrow> (unit, (scripted_reader, matrix) linear) prog" where
  "example_mk d_in d_out =
     sret \<lparr>weight = new_parameter (nat d_out, nat d_in) example_dtype ((nat d_out, nat d_in), \<lambda>_ _. 1),
           bias = None\<rparr>"

definition example_embed :: "int \<Rightarrow> int \<Rightarrow> (unit, (scripted_reader, matrix) parameter) prog" where
  "example_embed v d = sret (new_parameter (nat v, nat d) example_dtype ((nat v, nat d), \<lambda>_ _. 1))"

definition example_block_ops :: "matrix block_ops" where
  "example_block_ops =
     \<lparr>bo_norm = (\<lambda>_ x. Inr x), bo_shape = (\<lambda>x. Inr (1, fst (fst x))), bo_heads = (\<lambda>_ _ _ x. Inr x),
      bo_scores = (\<lambda>q k. example_matmul q (example_transpose k)),
      bo_div = (\<lambda>x c. (fst x, \<lambda>i j. snd x i j / rat_of_float c)), bo_softmax = (\<lambda>x. x),
      bo_matmul = example_matmul, bo_merge = (\<lambda>_ _ x. Inr x), bo_gelu = (\<lambda>x. (fst x, \<lambda>i j. max 0 (snd x i j)))\<rparr>"

lemma example_base:
  obtains emb blocks head w' where
    "build_frozen_base example_mk example_embed 12 4 2 8 1 () = (Inr (emb, blocks, head), w')"
  by (simp add: build_frozen_base_def example_mk_def example_embed_def sbind_apply sret_apply block_init_def)

theorem closed_gates_give_base_model_witness:
  "\<exists>emb blocks head w' l.
     build_frozen_base example_mk example_embed 12 4 2 8 1 () = (Inr (emb, blocks, head), w') \<and>
     run_blocks example_ops example_block_ops
       (\<lambda>_. example_layer\<lparr>base_layer := freeze_linear l, routing_gate_enabled := False\<rparr>)
       (plug_in blocks [(''block0.fc1'', 0)]) ((2, 4), \<lambda>_ _. 1) =
     run_blocks example_ops example_block_ops (\<lambda>_. example_layer) blocks ((2, 4), \<lambda>_ _. 1)"
proof -
  obtain emb blocks head w' where b: "build_frozen_base example_mk example_embed 12 4 2 8 1 () = (Inr (emb, blocks, head), w')"
    by (rule example_base)
  obtain bases where bases: "collect_base_sublayers blocks = Inr bases" "dict_keys bases = block_keys 0 1"
    using frozen_base [OF b] by auto
  have "''block0.fc1'' \<in> set (block_keys 0 1)" by code_simp
  then obtain l where l: "dict_get bases ''block0.fc1'' = Some l"
    unfolding bases(2) [symmetric] dict_keys_get by blast
  have "\<forall>key r. dict_get [(''block0.fc1'', 0 :: layer_ref)] key = Some r \<longrightarrow>
      \<not> routing_gate_enabled (example_layer\<lparr>base_layer := freeze_linear l, routing_gate_enabled := False\<rparr>) \<and>
      map_option freeze_linear (dict_get bases key) =
        Some (base_layer (example_layer\<lparr>base_layer := freeze_linear l, routing_gate_enabled := False\<rparr>))"
    using l by (auto simp: dict_get_def split: if_splits)
  from closed_gates_give_base_model [OF b bases(1) this] b show ?thesis by blast
qed

text \<open>
  The frozen base: when the construction succeeds, every parameter that is represented is frozen,
  and the collection of base layers succeeds with exactly three layers per block, all keys
  distinct, in block order. Plugging in an adapter with these keys replaces exactly the three
  adapted sublayers of every block, and collecting again is then a TypeError.
\<close>

lemma frozen_base_collects:
  assumes "build_frozen_base mk mk_embed vocab d heads ffn n_layers w = (Inr (emb, blocks, head), w')"
  shows "\<not> requires_grad emb \<and> freeze_linear head = head \<and> length blocks = nat n_layers \<and>
    (\<exists>bases. collect_base_sublayers blocks = Inr bases \<and>
       dict_keys bases = block_keys 0 (nat n_layers) \<and> dict_ok bases \<and> length bases = 3 * nat n_layers \<and>
       (\<forall>(key, l) \<in> set bases. freeze_linear l = l) \<and>
       (\<forall>layers. set (dict_keys layers) = set (dict_keys bases) \<longrightarrow>
          (\<forall>i < length blocks. \<forall>name. dict_get (sublayers (plug_in blocks layers ! i)) name =
             (if name \<in> set adapted_sublayers then map_option Adapted (dict_get layers (sublayer_key i name))
              else dict_get (sublayers (blocks ! i)) name)) \<and>
          (blocks \<noteq> [] \<longrightarrow> collect_base_sublayers (plug_in blocks layers) = Inl TypeError)))"
proof -
  from frozen_base [OF assms] obtain bases where base: "\<not> requires_grad emb" "freeze_linear head = head"
    "length blocks = nat n_layers" "collect_base_sublayers blocks = Inr bases"
    "dict_keys bases = block_keys 0 (nat n_layers)" "dict_ok bases" "length bases = 3 * nat n_layers"
    "\<forall>(key, l) \<in> set bases. freeze_linear l = l"
    by blast
  note len = base(3) and keys = base(5)
  have plug: "(\<forall>i < length blocks. \<forall>name. dict_get (sublayers (plug_in blocks layers ! i)) name =
       (if name \<in> set adapted_sublayers then map_option Adapted (dict_get layers (sublayer_key i name))
        else dict_get (sublayers (blocks ! i)) name)) \<and>
     (blocks \<noteq> [] \<longrightarrow> collect_base_sublayers (plug_in blocks layers) = Inl TypeError)"
    if L: "set (dict_keys layers) = set (dict_keys bases)" for layers
  proof -
    have there: "dict_get layers (sublayer_key i name) \<noteq> None"
      if "i < length blocks" "name \<in> set adapted_sublayers" for i name
    proof -
      have "sublayer_key i name \<in> set (block_keys 0 (nat n_layers))"
        using that len by (auto simp: block_keys_mem)
      then show ?thesis unfolding dict_keys_get [symmetric] using L keys by simp
    qed
    have "dict_get (sublayers (plug_in blocks layers ! i)) name =
       (if name \<in> set adapted_sublayers then map_option Adapted (dict_get layers (sublayer_key i name))
        else dict_get (sublayers (blocks ! i)) name)" if i: "i < length blocks" for i name
      using there [OF i, of name]
      by (cases "name \<in> set adapted_sublayers") (auto simp: plug_in_def nth_plug_blocks i plug_names_get)
    moreover have "collect_base_sublayers (plug_in blocks layers) = Inl TypeError" if ne: "blocks \<noteq> []"
      unfolding collect_base_sublayers_def plug_in_def
      by (rule collect_plugged [OF ne there]) (use ne in \<open>simp_all add: adapted_sublayers_def\<close>)
    ultimately show ?thesis by blast
  qed
  with base show ?thesis by blast
qed

lemma frozen_base_collects_example:
  "\<exists>emb blocks head bases w'.
     build_frozen_base example_mk example_embed 12 32 4 64 2 () = (Inr (emb, blocks, head), w') \<and>
     collect_base_sublayers blocks = Inr bases \<and> length bases = 6"
proof -
  obtain emb blocks head w' where b: "build_frozen_base example_mk example_embed 12 32 4 64 2 () = (Inr (emb, blocks, head), w')"
    by (simp add: build_frozen_base_def example_mk_def example_embed_def sbind_apply sret_apply block_init_def
        numeral_2_eq_2)
  from frozen_base_collects [OF b] obtain bases where
    "collect_base_sublayers blocks = Inr bases" "length bases = 3 * nat 2" by blast
  with b show ?thesis by auto
qed

end
