(* ===== verification/Json.thy ===== *)
theory Json
  imports PyText
begin

text \<open>
  The standard library's \<^verbatim>\<open>json\<close> module, as far as \<^verbatim>\<open>src/python/msp/persistence.py\<close> uses it:
  \<^verbatim>\<open>json.dumps\<close> with its default separators and ASCII escapes, and \<^verbatim>\<open>json.loads\<close> as a parser
  with fuel, for which twice the length of the text is enough. Strings are over code points
  below 256. How a finite float is printed (\<^verbatim>\<open>float.__repr__\<close>) is a parameter with its documented
  behaviour as a named condition: a JSON number with a fraction or an exponent, which converts
  back to the same float.
\<close>

datatype json =
    JNull
  | JBool bool
  | JInt int
  | JFloat pyfloat
  | JString string
  | JArray "json list"
  | JObject "(string \<times> json) list"

section \<open>Printing\<close>

definition hex_char :: "nat \<Rightarrow> char" where
  "hex_char d = char_of (if d < 10 then 48 + d else 87 + d)"

definition escape_char :: "char \<Rightarrow> string" where
  "escape_char c =
     (if c = CHR 0x22 then [CHR 0x5C, CHR 0x22]
      else if c = CHR 0x5C then [CHR 0x5C, CHR 0x5C]
      else if ord_of c = 10 then [CHR 0x5C, CHR ''n'']
      else if ord_of c = 13 then [CHR 0x5C, CHR ''r'']
      else if ord_of c = 9 then [CHR 0x5C, CHR ''t'']
      else if ord_of c = 12 then [CHR 0x5C, CHR ''f'']
      else if ord_of c = 8 then [CHR 0x5C, CHR ''b'']
      else if 32 \<le> ord_of c \<and> ord_of c \<le> 126 then [c]
      else [CHR 0x5C, CHR ''u'', CHR ''0'', CHR ''0'', hex_char (ord_of c div 16), hex_char (ord_of c mod 16)])"

definition dump_string :: "string \<Rightarrow> string" where
  "dump_string s = CHR 0x22 # concat (map escape_char s) @ [CHR 0x22]"

definition show_int :: "int \<Rightarrow> string" where
  "show_int i = (if i < 0 then CHR ''-'' # show_nat (nat (- i)) else show_nat (nat i))"

fun join_items :: "string list \<Rightarrow> string" where
  "join_items [] = []"
| "join_items [x] = x"
| "join_items (x # y # zs) = x @ '', '' @ join_items (y # zs)"

fun dump_float :: "(rat \<Rightarrow> string) \<Rightarrow> pyfloat \<Rightarrow> string" where
  "dump_float repr NaN = ''NaN''"
| "dump_float repr PInf = ''Infinity''"
| "dump_float repr NInf = ''-Infinity''"
| "dump_float repr (Fin x) = repr x"

fun json_dumps :: "(rat \<Rightarrow> string) \<Rightarrow> json \<Rightarrow> string" where
  "json_dumps repr JNull = ''null''"
| "json_dumps repr (JBool b) = (if b then ''true'' else ''false'')"
| "json_dumps repr (JInt i) = show_int i"
| "json_dumps repr (JFloat x) = dump_float repr x"
| "json_dumps repr (JString s) = dump_string s"
| "json_dumps repr (JArray vs) = ''['' @ join_items (map (json_dumps repr) vs) @ '']''"
| "json_dumps repr (JObject kvs) =
     ''{'' @ join_items (map (\<lambda>(k, v). dump_string k @ '': '' @ json_dumps repr v) kvs) @ ''}''"

section \<open>Parsing\<close>

definition json_space :: "char \<Rightarrow> bool" where
  "json_space c \<longleftrightarrow> ord_of c \<in> {9, 10, 13, 32}"

definition skip_ws :: "string \<Rightarrow> string" where
  "skip_ws s = dropWhile json_space s"

definition hex_value :: "char \<Rightarrow> nat option" where
  "hex_value c =
     (let n = ord_of c
      in if 48 \<le> n \<and> n \<le> 57 then Some (n - 48)
         else if 97 \<le> n \<and> n \<le> 102 then Some (n - 87)
         else if 65 \<le> n \<and> n \<le> 70 then Some (n - 55) else None)"

definition simple_escape :: "char \<Rightarrow> char option" where
  "simple_escape c =
     (if c = CHR 0x22 \<or> c = CHR 0x5C \<or> c = CHR ''/'' then Some c
      else if c = CHR ''n'' then Some (CHR 0x0A)
      else if c = CHR ''r'' then Some (CHR 0x0D)
      else if c = CHR ''t'' then Some (CHR 0x09)
      else if c = CHR ''f'' then Some (CHR 0x0C)
      else if c = CHR ''b'' then Some (CHR 0x08) else None)"

definition unicode_escape :: "char \<Rightarrow> char \<Rightarrow> char \<Rightarrow> char \<Rightarrow> char option" where
  "unicode_escape a b c d =
     (case (hex_value a, hex_value b, hex_value c, hex_value d) of
        (Some a, Some b, Some c, Some d) \<Rightarrow>
          if a = 0 \<and> b = 0 then Some (char_of (16 * c + d)) else None
      | _ \<Rightarrow> None)"

text \<open>A string literal after its opening quote, with the rest of the text.\<close>

fun parse_string :: "string \<Rightarrow> (string \<times> string) option" where
  "parse_string [] = None"
| "parse_string (c # cs) =
     (if c = CHR 0x22 then Some ([], cs)
      else if c = CHR 0x5C then
        (case cs of
           e # a \<Rightarrow>
             if e = CHR ''u'' then
               (case a of
                  a1 # a2 # a3 # a4 # r \<Rightarrow>
                    (case unicode_escape a1 a2 a3 a4 of
                       Some x \<Rightarrow> map_option (\<lambda>(s, t). (x # s, t)) (parse_string r)
                     | None \<Rightarrow> None)
                | _ \<Rightarrow> None)
             else
               (case simple_escape e of
                  Some x \<Rightarrow> map_option (\<lambda>(s, t). (x # s, t)) (parse_string a)
                | None \<Rightarrow> None)
         | [] \<Rightarrow> None)
      else if ord_of c < 32 then None
      else map_option (\<lambda>(s, t). (c # s, t)) (parse_string cs))"

definition int_part :: "string \<Rightarrow> string" where
  "int_part s = (case s of [] \<Rightarrow> [] | c # _ \<Rightarrow> if c = CHR ''0'' then [c] else takeWhile is_digit s)"

definition frac_part :: "string \<Rightarrow> string" where
  "frac_part s =
     (case s of
        c # t \<Rightarrow> if c = CHR ''.'' \<and> takeWhile is_digit t \<noteq> [] then c # takeWhile is_digit t else []
      | [] \<Rightarrow> [])"

definition exp_sign :: "string \<Rightarrow> string" where
  "exp_sign t = (case t of c # _ \<Rightarrow> if c = CHR ''+'' \<or> c = CHR ''-'' then [c] else [] | [] \<Rightarrow> [])"

definition exp_part :: "string \<Rightarrow> string" where
  "exp_part s =
     (case s of
        c # t \<Rightarrow>
          (let ds = takeWhile is_digit (drop (length (exp_sign t)) t)
           in if (c = CHR ''e'' \<or> c = CHR ''E'') \<and> ds \<noteq> [] then c # exp_sign t @ ds else [])
      | [] \<Rightarrow> [])"

definition parse_number :: "string \<Rightarrow> (json \<times> string) option" where
  "parse_number s =
     (let (sg, body) = (case s of c # t \<Rightarrow> if c = CHR ''-'' then ([c], t) else ([], s) | [] \<Rightarrow> ([], []));
          ip = int_part body; r1 = drop (length ip) body;
          fp = frac_part r1; r2 = drop (length fp) r1;
          ex = exp_part r2; rest = drop (length ex) r2; text = sg @ ip @ fp @ ex
      in if ip = [] then None
         else if fp @ ex = [] then
           (case int_of_str text of Inr i \<Rightarrow> Some (JInt i, rest) | Inl _ \<Rightarrow> None)
         else (case float_of_str text of Inr x \<Rightarrow> Some (JFloat x, rest) | Inl _ \<Rightarrow> None))"

definition json_words :: "(string \<times> json) list" where
  "json_words =
     [(''null'', JNull), (''true'', JBool True), (''false'', JBool False), (''NaN'', JFloat NaN),
      (''Infinity'', JFloat PInf), (''-Infinity'', JFloat NInf)]"

definition parse_atom :: "string \<Rightarrow> (json \<times> string) option" where
  "parse_atom s =
     (case find (\<lambda>(w, v). prefix w s) json_words of
        Some (w, v) \<Rightarrow> Some (v, drop (length w) s)
      | None \<Rightarrow> parse_number s)"

fun parse_value :: "nat \<Rightarrow> string \<Rightarrow> (json \<times> string) option"
  and parse_items :: "nat \<Rightarrow> json list \<Rightarrow> string \<Rightarrow> (json \<times> string) option"
  and parse_members :: "nat \<Rightarrow> (string, json) dict \<Rightarrow> string \<Rightarrow> (json \<times> string) option" where
  "parse_value 0 s = None"
| "parse_value (Suc n) s =
     (case s of
        [] \<Rightarrow> None
      | c # cs \<Rightarrow>
          if c = CHR 0x22 then map_option (\<lambda>(t, r). (JString t, r)) (parse_string cs)
          else if c = CHR ''['' then
            (case skip_ws cs of
               d # r \<Rightarrow> if d = CHR '']'' then Some (JArray [], r) else parse_items n [] (d # r)
             | [] \<Rightarrow> None)
          else if c = CHR 0x7B then
            (case skip_ws cs of
               d # r \<Rightarrow> if d = CHR 0x7D then Some (JObject [], r) else parse_members n [] (d # r)
             | [] \<Rightarrow> None)
          else parse_atom s)"
| "parse_items 0 acc s = None"
| "parse_items (Suc n) acc s =
     (case parse_value n s of
        None \<Rightarrow> None
      | Some (v, r) \<Rightarrow>
          (case skip_ws r of
             [] \<Rightarrow> None
           | d # r' \<Rightarrow>
               if d = CHR '']'' then Some (JArray (acc @ [v]), r')
               else if d = CHR '','' then parse_items n (acc @ [v]) (skip_ws r')
               else None))"
| "parse_members 0 acc s = None"
| "parse_members (Suc n) acc s =
     (case s of
        [] \<Rightarrow> None
      | q # cs \<Rightarrow>
          if q \<noteq> CHR 0x22 then None
          else
            (case parse_string cs of
               None \<Rightarrow> None
             | Some (k, r) \<Rightarrow>
                 (case skip_ws r of
                    [] \<Rightarrow> None
                  | d # r1 \<Rightarrow>
                      if d \<noteq> CHR '':'' then None
                      else
                        (case parse_value n (skip_ws r1) of
                           None \<Rightarrow> None
                         | Some (v, r2) \<Rightarrow>
                             (case skip_ws r2 of
                                [] \<Rightarrow> None
                              | d' # r3 \<Rightarrow>
                                  if d' = CHR 0x7D then Some (JObject (dict_set acc k v), r3)
                                  else if d' = CHR '','' then parse_members n (dict_set acc k v) (skip_ws r3)
                                  else None)))))"

text \<open>A text that is not JSON is a JSONDecodeError, which is a ValueError.\<close>

definition json_loads :: "string \<Rightarrow> json result" where
  "json_loads s =
     (case parse_value (2 * length s) (skip_ws s) of
        Some (v, r) \<Rightarrow> if skip_ws r = [] then Inr v else Inl ValueError
      | None \<Rightarrow> Inl ValueError)"

section \<open>Strings round-trip\<close>

lemma hex_value_char: "d < 16 \<Longrightarrow> hex_value (hex_char d) = Some d"
  by (auto simp: hex_value_def hex_char_def ord_of_def Let_def)

lemma ord_of_less [simp]: "ord_of c < 256"
  by (simp add: ord_of_def)

lemma char_of_ord [simp]: "char_of (ord_of c) = c"
  by (simp add: ord_of_def)

lemma ord_of_inj: "ord_of c = ord_of d \<longleftrightarrow> c = d"
  by (metis char_of_ord)

lemma unicode_escape_char:
  "unicode_escape (CHR ''0'') (CHR ''0'') (hex_char (ord_of c div 16)) (hex_char (ord_of c mod 16)) = Some c"
proof -
  have "hex_value (CHR ''0'') = Some 0" by (simp add: hex_value_def ord_of_def)
  moreover have "ord_of c div 16 < 16" using ord_of_less [of c] by (intro less_mult_imp_div_less) simp
  moreover have "16 * (ord_of c div 16) + ord_of c mod 16 = ord_of c" by simp
  ultimately show ?thesis by (simp add: unicode_escape_def hex_value_char)
qed

lemma parse_escape_char:
  "parse_string (escape_char c @ t) = map_option (\<lambda>(s, r). (c # s, r)) (parse_string t)"
proof -
  consider "c = CHR 0x22" | "c = CHR 0x5C" | "ord_of c \<in> {10, 13, 9, 12, 8}"
    | (plain) "c \<noteq> CHR 0x22" "c \<noteq> CHR 0x5C" "32 \<le> ord_of c" "ord_of c \<le> 126"
    | (hex) "c \<noteq> CHR 0x22" "c \<noteq> CHR 0x5C" "ord_of c \<notin> {10, 13, 9, 12, 8}" "\<not> (32 \<le> ord_of c \<and> ord_of c \<le> 126)"
    by blast
  then show ?thesis
  proof cases
    case 3
    then consider "c = CHR 0x0A" | "c = CHR 0x0D" | "c = CHR 0x09" | "c = CHR 0x0C" | "c = CHR 0x08"
      using ord_of_inj [of c "CHR 0x0A"] ord_of_inj [of c "CHR 0x0D"] ord_of_inj [of c "CHR 0x09"]
        ord_of_inj [of c "CHR 0x0C"] ord_of_inj [of c "CHR 0x08"] by (auto simp: ord_of_def)
    then show ?thesis by cases (simp_all add: escape_char_def ord_of_def simple_escape_def)
  next
    case plain
    then have "escape_char c = [c]" by (auto simp: escape_char_def)
    with plain show ?thesis by simp
  next
    case hex
    then have "escape_char c =
        [CHR 0x5C, CHR ''u'', CHR ''0'', CHR ''0'', hex_char (ord_of c div 16), hex_char (ord_of c mod 16)]"
      by (simp add: escape_char_def)
    then show ?thesis by (simp add: unicode_escape_char)
  qed (simp_all add: escape_char_def simple_escape_def)
qed

lemma parse_dump_string:
  "parse_string (concat (map escape_char s) @ CHR 0x22 # r) = Some (s, r)"
  by (induction s) (simp_all add: parse_escape_char)

section \<open>Numbers round-trip\<close>

definition number_ends :: "string \<Rightarrow> bool" where
  "number_ends r \<longleftrightarrow> (case r of [] \<Rightarrow> True | c # _ \<Rightarrow> \<not> is_digit c \<and> c \<noteq> CHR ''.'' \<and> c \<noteq> CHR ''e'' \<and> c \<noteq> CHR ''E'')"

definition digits :: "string \<Rightarrow> bool" where
  "digits s \<longleftrightarrow> s \<noteq> [] \<and> (\<forall>c \<in> set s. is_digit c)"

definition int_text :: "string \<Rightarrow> bool" where
  "int_text s \<longleftrightarrow> digits s \<and> (hd s = CHR ''0'' \<longrightarrow> s = ''0'')"

definition frac_text :: "string \<Rightarrow> bool" where
  "frac_text s \<longleftrightarrow> s = [] \<or> (\<exists>ds. s = CHR ''.'' # ds \<and> digits ds)"

definition exp_text :: "string \<Rightarrow> bool" where
  "exp_text s \<longleftrightarrow> s = [] \<or>
     (\<exists>c sg ds. s = c # sg @ ds \<and> (c = CHR ''e'' \<or> c = CHR ''E'') \<and> sg \<in> {[], ''+'', ''-''} \<and> digits ds)"

definition no_digit :: "string \<Rightarrow> bool" where
  "no_digit r \<longleftrightarrow> (case r of [] \<Rightarrow> True | c # _ \<Rightarrow> \<not> is_digit c)"

lemma digit_not_special: "is_digit c \<Longrightarrow> c \<noteq> CHR ''.'' \<and> c \<noteq> CHR ''e'' \<and> c \<noteq> CHR ''E'' \<and> c \<noteq> CHR ''+'' \<and> c \<noteq> CHR ''-''"
  by (auto simp: is_digit_def ord_of_def)

lemma takeWhile_no_digit:
  assumes "\<forall>c \<in> set s. is_digit c" and "no_digit r"
  shows "takeWhile is_digit (s @ r) = s"
  using assms by (cases r) (simp_all add: no_digit_def takeWhile_append2)

lemma int_part_text:
  assumes "int_text ip" and "no_digit r"
  shows "int_part (ip @ r) = ip"
proof (cases "hd ip = CHR ''0''")
  case True
  with assms show ?thesis by (simp add: int_text_def int_part_def)
next
  case False
  then obtain c cs where ip: "ip = c # cs" "c \<noteq> CHR ''0''"
    using assms(1) by (cases ip) (auto simp: int_text_def digits_def)
  have "takeWhile is_digit (ip @ r) = ip"
    using assms by (intro takeWhile_no_digit) (auto simp: int_text_def digits_def)
  with ip show ?thesis by (simp add: int_part_def)
qed

lemma frac_part_text:
  assumes "frac_text fp" and "no_digit r" and "fp = [] \<Longrightarrow> r = [] \<or> hd r \<noteq> CHR ''.''"
  shows "frac_part (fp @ r) = fp"
proof (cases "fp = []")
  case True
  with assms(3) show ?thesis by (cases r) (auto simp: frac_part_def)
next
  case False
  then obtain ds where ds: "fp = CHR ''.'' # ds" "digits ds" using assms(1) by (auto simp: frac_text_def)
  then have "takeWhile is_digit (ds @ r) = ds"
    using assms(2) by (intro takeWhile_no_digit) (auto simp: digits_def)
  with ds show ?thesis by (simp add: frac_part_def digits_def)
qed

lemma exp_part_text:
  assumes "exp_text ex" and "number_ends r"
  shows "exp_part (ex @ r) = ex"
proof (cases "ex = []")
  case True
  with assms(2) show ?thesis by (cases r) (auto simp: exp_part_def number_ends_def Let_def)
next
  case False
  then obtain c sg ds where e: "ex = c # sg @ ds" "c = CHR ''e'' \<or> c = CHR ''E''" "sg \<in> {[], ''+'', ''-''}" "digits ds"
    using assms(1) by (auto simp: exp_text_def)
  have "no_digit r" using assms(2) by (auto simp: number_ends_def no_digit_def split: list.splits)
  then have tw: "takeWhile is_digit (ds @ r) = ds" using e(4) by (intro takeWhile_no_digit) (auto simp: digits_def)
  obtain d dr where d: "ds = d # dr" "is_digit d" using e(4) by (cases ds) (auto simp: digits_def)
  have sg: "exp_sign (sg @ ds @ r) = sg" using e(3) d digit_not_special [of d] by (auto simp: exp_sign_def)
  have "exp_part (ex @ r) = c # sg @ ds"
    using e(2,4) by (simp add: e(1) exp_part_def sg tw Let_def digits_def)
  with e(1) show ?thesis by simp
qed

lemma number_ends_no_digit: "number_ends r \<Longrightarrow> no_digit r \<and> (r = [] \<or> hd r \<noteq> CHR ''.'')"
  by (auto simp: number_ends_def no_digit_def split: list.splits)

lemma parse_number_text:
  assumes sg: "sg \<in> {[], ''-''}" and ip: "int_text ip" and fp: "frac_text fp" and ex: "exp_text ex"
    and r: "number_ends r"
  shows "parse_number ((sg @ ip @ fp @ ex) @ r) =
    (if fp @ ex = [] then (case int_of_str (sg @ ip) of Inr i \<Rightarrow> Some (JInt i, r) | Inl _ \<Rightarrow> None)
     else (case float_of_str (sg @ ip @ fp @ ex) of Inr x \<Rightarrow> Some (JFloat x, r) | Inl _ \<Rightarrow> None))"
proof -
  have nd_ex: "no_digit (ex @ r)" "ex @ r = [] \<or> hd (ex @ r) \<noteq> CHR ''.''"
    using ex number_ends_no_digit [OF r] by (auto simp: exp_text_def no_digit_def is_digit_def ord_of_def)
  have nd_fp: "no_digit (fp @ ex @ r)"
    using fp nd_ex by (auto simp: frac_text_def no_digit_def is_digit_def ord_of_def)
  obtain d dr where d: "ip = d # dr" "is_digit d" using ip by (cases ip) (auto simp: int_text_def digits_def)
  define t where "t = (sg @ ip @ fp @ ex) @ r"
  have split: "(case t of c # u \<Rightarrow> if c = CHR ''-'' then ([c], u) else ([], t) | [] \<Rightarrow> ([], [])) = (sg, ip @ fp @ ex @ r)"
    using sg d digit_not_special [of d] by (auto simp: t_def)
  have ne: "ip \<noteq> []" using d by simp
  have ie: "int_part (ip @ fp @ ex @ r) = ip" by (rule int_part_text [OF ip nd_fp])
  have fe: "frac_part (fp @ ex @ r) = fp"
    by (rule frac_part_text [OF fp nd_ex(1)]) (use nd_ex(2) in blast)
  have d1: "drop (length ip) (ip @ fp @ ex @ r) = fp @ ex @ r"
    and d2: "drop (length fp) (fp @ ex @ r) = ex @ r" and d3: "drop (length ex) (ex @ r) = r" by simp_all
  show ?thesis
    unfolding t_def [symmetric] parse_number_def split Let_def prod.case ie d1 fe d2
      exp_part_text [OF ex r] d3 using ne by simp
qed

text \<open>Documented behaviour of \<^verbatim>\<open>float.__repr__\<close> on a finite float.\<close>

definition float_repr_ok :: "(rat \<Rightarrow> string) \<Rightarrow> rat \<Rightarrow> bool" where
  "float_repr_ok repr x \<longleftrightarrow>
     (\<exists>sg ip fp ex. repr x = sg @ ip @ fp @ ex \<and> sg \<in> {[], ''-''} \<and> int_text ip \<and> frac_text fp \<and>
        exp_text ex \<and> fp @ ex \<noteq> [] \<and> float_of_str (repr x) = Inr (Fin x))"

text \<open>Integers that Python converts to and from decimal text.\<close>

definition int_limit :: int where
  "int_limit = 10 ^ 4300"

fun json_ok :: "(rat \<Rightarrow> string) \<Rightarrow> json \<Rightarrow> bool" where
  "json_ok repr JNull = True"
| "json_ok repr (JBool b) = True"
| "json_ok repr (JInt i) = (\<bar>i\<bar> < int_limit)"
| "json_ok repr (JFloat x) = (case x of Fin q \<Rightarrow> float_repr_ok repr q | _ \<Rightarrow> True)"
| "json_ok repr (JString s) = True"
| "json_ok repr (JArray vs) = list_all (json_ok repr) vs"
| "json_ok repr (JObject kvs) = (distinct (map fst kvs) \<and> list_all (\<lambda>(k, v). json_ok repr v) kvs)"

lemma show_nat_hd: "0 < n \<Longrightarrow> hd (show_nat n) \<noteq> CHR ''0''"
proof (induction n rule: show_nat.induct)
  case (1 n)
  show ?case
  proof (cases "n < 10")
    case True
    then have "ord_of (digit_char n) = 48 + n" by (rule ord_digit_char)
    with "1.prems" have "digit_char n \<noteq> CHR ''0''" by (auto simp: ord_of_def)
    with True show ?thesis by (subst show_nat.simps) simp
  next
    case False
    then have "hd (show_nat (n div 10)) \<noteq> CHR ''0''" by (intro "1.IH") simp_all
    with False show ?thesis by (subst show_nat.simps) simp
  qed
qed

lemma int_text_show_nat: "int_text (show_nat n)"
proof (cases "n = 0")
  case True
  have "show_nat 0 = [digit_char 0]" by (subst show_nat.simps) simp
  moreover have "ord_of (CHR ''0'') = 48" by (simp add: ord_of_def)
  then have "digit_char 0 = CHR ''0''"
    using ord_digit_char [of 0] ord_of_inj [of "digit_char 0" "CHR ''0''"] by simp
  ultimately show ?thesis using True by (simp add: int_text_def digits_def is_digit_def ord_of_def)
next
  case False
  then have "hd (show_nat n) \<noteq> CHR ''0''" by (intro show_nat_hd) simp
  then show ?thesis by (auto simp: int_text_def digits_def dest: show_nat_all)
qed

lemma int_of_str_minus:
  assumes "n < 10 ^ 4300" shows "int_of_str (CHR ''-'' # show_nat n) = Inr (- int n)"
proof -
  have "py_strip (CHR ''-'' # show_nat n) = CHR ''-'' # show_nat n"
    by (rule py_strip_nospace) (auto simp: is_space_def ord_of_def dest: show_nat_all)
  moreover have us: "CHR ''_'' \<notin> set (show_nat n)" by (auto dest: show_nat_all)
  moreover have "list_all is_digit (show_nat n)" by (auto simp: list_all_iff dest: show_nat_all)
  moreover have "length (show_nat n) \<le> max_str_digits"
    unfolding max_str_digits_def using show_nat_length [OF assms] by simp
  ultimately show ?thesis
    by (simp add: int_of_str_def underscores_ok_none drop_underscores_none digits_value_show_nat)
qed

lemma parse_show_int:
  assumes "\<bar>i\<bar> < int_limit" and "number_ends r"
  shows "parse_number (show_int i @ r) = Some (JInt i, r)"
proof (cases "i < 0")
  case True
  then have "nat (- i) < 10 ^ 4300" using assms(1) unfolding int_limit_def
    by (subst nat_less_iff) (auto simp only: of_nat_power of_nat_numeral)
  from int_of_str_minus [OF this] True
  show ?thesis
    using parse_number_text [of "''-''" "show_nat (nat (- i))" "[]" "[]" r] assms(2)
    by (simp add: show_int_def int_text_show_nat frac_text_def exp_text_def)
next
  case False
  then have "nat i < 10 ^ 4300" using assms(1) unfolding int_limit_def
    by (subst nat_less_iff) (auto simp only: of_nat_power of_nat_numeral)
  from int_of_str_show_nat [OF this] False
  show ?thesis
    using parse_number_text [of "[]" "show_nat (nat i)" "[]" "[]" r] assms(2)
    by (simp add: show_int_def int_text_show_nat frac_text_def exp_text_def)
qed

lemma parse_float_repr:
  assumes "float_repr_ok repr x" and "number_ends r"
  shows "parse_number (repr x @ r) = Some (JFloat (Fin x), r)"
proof -
  obtain sg ip fp ex where t: "repr x = sg @ ip @ fp @ ex" "sg \<in> {[], ''-''}" "int_text ip" "frac_text fp"
    "exp_text ex" "fp @ ex \<noteq> []" "float_of_str (repr x) = Inr (Fin x)"
    using assms(1) unfolding float_repr_ok_def by blast
  from parse_number_text [OF t(2-5) assms(2)] t(6,7) show ?thesis unfolding t(1) by auto
qed

text \<open>How the text of a value starts.\<close>

definition number_starts :: "string \<Rightarrow> bool" where
  "number_starts s \<longleftrightarrow> (\<exists>sg d u. s = sg @ d # u \<and> sg \<in> {[], ''-''} \<and> is_digit d)"

lemma number_starts_int: "number_starts (show_int i)"
proof -
  have d: "\<exists>d u. show_nat n = d # u \<and> is_digit d" for n
    by (metis list.exhaust list.set_intros(1) show_nat_all show_nat_nonempty)
  show ?thesis
  proof (cases "i < 0")
    case True
    obtain d u where "show_nat (nat (- i)) = d # u" "is_digit d" using d by blast
    with True show ?thesis unfolding number_starts_def
      by (intro exI [of _ "''-''"] exI [of _ d] exI [of _ u]) (simp add: show_int_def)
  next
    case False
    obtain d u where "show_nat (nat i) = d # u" "is_digit d" using d by blast
    with False show ?thesis unfolding number_starts_def
      by (intro exI [of _ "[]"] exI [of _ d] exI [of _ u]) (simp add: show_int_def)
  qed
qed

lemma number_starts_repr: "float_repr_ok repr x \<Longrightarrow> number_starts (repr x)"
proof -
  assume "float_repr_ok repr x"
  then obtain sg ip fp ex where t: "repr x = sg @ ip @ fp @ ex" "sg \<in> {[], ''-''}" "int_text ip"
    unfolding float_repr_ok_def by blast
  obtain d u where "ip = d # u" "is_digit d" using t(3) by (cases ip) (auto simp: int_text_def digits_def)
  with t show ?thesis unfolding number_starts_def
    by (intro exI [of _ sg] exI [of _ d] exI [of _ "u @ fp @ ex"]) simp
qed

lemma parse_atom_number:
  assumes "number_starts s"
  shows "parse_atom (s @ r) = parse_number (s @ r)"
proof -
  obtain sg d u where s: "s = sg @ d # u" "sg \<in> {[], ''-''}" "is_digit d"
    using assms by (auto simp: number_starts_def)
  have "d \<noteq> CHR ''n''" "d \<noteq> CHR ''t''" "d \<noteq> CHR ''f''" "d \<noteq> CHR ''N''" "d \<noteq> CHR ''I''" "d \<noteq> CHR ''-''"
    using s(3) by (auto simp: is_digit_def ord_of_def)
  then have "find (\<lambda>(w, v). prefix w (s @ r)) json_words = None"
    using s(1,2) by (auto simp: json_words_def)
  then show ?thesis by (simp add: parse_atom_def)
qed

lemma parse_value_atom:
  assumes "s \<noteq> []" and "hd s \<noteq> CHR 0x22" "hd s \<noteq> CHR ''[''" "hd s \<noteq> CHR 0x7B"
  shows "parse_value (Suc n) s = parse_atom s"
  using assms by (cases s) simp_all

lemma parse_value_number:
  assumes "number_starts s"
  shows "parse_value (Suc n) (s @ r) = parse_number (s @ r)"
proof -
  obtain sg d u where s: "s = sg @ d # u" "sg \<in> {[], ''-''}" "is_digit d"
    using assms by (auto simp: number_starts_def)
  then have "hd (s @ r) \<noteq> CHR 0x22" "hd (s @ r) \<noteq> CHR ''[''" "hd (s @ r) \<noteq> CHR 0x7B" "s @ r \<noteq> []"
    by (auto simp: is_digit_def ord_of_def)
  then show ?thesis using parse_value_atom parse_atom_number [OF assms] by metis
qed

section \<open>Values round-trip\<close>

fun need :: "json \<Rightarrow> nat" where
  "need (JArray vs) = Suc (\<Sum>v\<leftarrow>vs. Suc (need v))"
| "need (JObject kvs) = Suc (\<Sum>(k, v)\<leftarrow>kvs. Suc (need v))"
| "need _ = 1"

text \<open>No value starts with a space or a closing bracket.\<close>

lemma number_starts_hd:
  assumes "number_starts s"
  shows "s \<noteq> [] \<and> \<not> json_space (hd s) \<and> hd s \<noteq> CHR '']'' \<and> hd s \<noteq> CHR 0x7D"
  using assms by (auto simp: number_starts_def json_space_def is_digit_def ord_of_def)

lemma dumps_starts:
  assumes "json_ok repr v"
  shows "json_dumps repr v \<noteq> [] \<and> \<not> json_space (hd (json_dumps repr v)) \<and>
    hd (json_dumps repr v) \<noteq> CHR '']'' \<and> hd (json_dumps repr v) \<noteq> CHR 0x7D"
proof (cases v)
  case (JInt i)
  with number_starts_hd [OF number_starts_int] show ?thesis by simp
next
  case (JFloat x)
  show ?thesis
  proof (cases x)
    case (Fin q)
    with assms JFloat have "float_repr_ok repr q" by simp
    with number_starts_hd [OF number_starts_repr] Fin JFloat show ?thesis by simp
  qed (simp_all add: JFloat json_space_def ord_of_def)
qed (simp_all add: json_space_def ord_of_def dump_string_def)

lemma skip_ws_id: "s \<noteq> [] \<Longrightarrow> \<not> json_space (hd s) \<Longrightarrow> skip_ws (s @ r) = s @ r"
  by (cases s) (simp_all add: skip_ws_def)

lemma skip_ws_space: "skip_ws (CHR '' '' # s) = skip_ws s"
  by (simp add: skip_ws_def json_space_def ord_of_def)

lemma skip_ws_punct [simp]:
  "skip_ws (CHR '']'' # s) = CHR '']'' # s" "skip_ws (CHR '','' # s) = CHR '','' # s"
  "skip_ws (CHR 0x7D # s) = CHR 0x7D # s" "skip_ws (CHR '':'' # s) = CHR '':'' # s"
  by (simp_all add: skip_ws_def json_space_def ord_of_def)

lemma number_ends_punct [simp]:
  "number_ends (CHR '']'' # s)" "number_ends (CHR '','' # s)" "number_ends (CHR 0x7D # s)" "number_ends []"
  by (simp_all add: number_ends_def is_digit_def ord_of_def)

text \<open>What the induction hypothesis says of one value.\<close>

definition parses :: "(rat \<Rightarrow> string) \<Rightarrow> json \<Rightarrow> bool" where
  "parses repr v \<longleftrightarrow>
     (\<forall>n r. need v \<le> n \<longrightarrow> number_ends r \<longrightarrow> parse_value n (json_dumps repr v @ r) = Some (v, r))"

lemma parsesD: "parses repr v \<Longrightarrow> need v \<le> n \<Longrightarrow> number_ends r \<Longrightarrow>
    parse_value n (json_dumps repr v @ r) = Some (v, r)"
  by (simp add: parses_def)

lemma parse_items_dumps:
  assumes "\<forall>v \<in> set vs. parses repr v \<and> json_ok repr v" and "vs \<noteq> []"
    and "(\<Sum>v\<leftarrow>vs. Suc (need v)) \<le> n"
  shows "parse_items n acc (join_items (map (json_dumps repr) vs) @ CHR '']'' # r) = Some (JArray (acc @ vs), r)"
  using assms
proof (induction vs arbitrary: n acc)
  case (Cons v vs)
  then obtain m where n: "n = Suc m" by (cases n) auto
  have p: "parses repr v" using Cons.prems by simp
  show ?case
  proof (cases vs)
    case Nil
    have "parse_value m (json_dumps repr v @ CHR '']'' # r) = Some (v, CHR '']'' # r)"
      using Cons.prems(3) n by (intro parsesD [OF p]) simp_all
    with Nil n show ?thesis by simp
  next
    case (Cons w ws)
    let ?t = "join_items (map (json_dumps repr) vs) @ CHR '']'' # r"
    have st: "skip_ws (CHR '' '' # ?t) = ?t"
    proof -
      have "json_ok repr w" using Cons.prems(1) Cons by simp
      note dumps_starts [OF this]
      then have "?t \<noteq> []" "\<not> json_space (hd ?t)" using Cons by (cases ws; auto simp: hd_append)+
      then show ?thesis using skip_ws_id [of ?t "[]"] by (simp add: skip_ws_space)
    qed
    have v: "parse_value m (json_dumps repr v @ CHR '','' # CHR '' '' # ?t) = Some (v, CHR '','' # CHR '' '' # ?t)"
      using Cons.prems(3) n by (intro parsesD [OF p]) simp_all
    have rest: "parse_items m (acc @ [v]) ?t = Some (JArray ((acc @ [v]) @ vs), r)"
      using Cons.prems n Cons by (intro Cons.IH) simp_all
    have "join_items (map (json_dumps repr) (v # vs)) @ CHR '']'' # r =
        json_dumps repr v @ CHR '','' # CHR '' '' # ?t" using Cons by simp
    with v rest st n show ?thesis by simp
  qed
qed simp

definition dump_member :: "(rat \<Rightarrow> string) \<Rightarrow> string \<times> json \<Rightarrow> string" where
  "dump_member repr = (\<lambda>(k, v). dump_string k @ '': '' @ json_dumps repr v)"

lemma parse_members_dumps:
  assumes "\<forall>(k, v) \<in> set kvs. parses repr v \<and> json_ok repr v" and "kvs \<noteq> []"
    and "(\<Sum>(k, v)\<leftarrow>kvs. Suc (need v)) \<le> n" and "distinct (map fst (acc @ kvs))"
  shows "parse_members n acc (join_items (map (dump_member repr) kvs) @ CHR 0x7D # r) = Some (JObject (acc @ kvs), r)"
  using assms
proof (induction kvs arbitrary: n acc)
  case (Cons kv kvs)
  obtain k v where kv: "kv = (k, v)" by (cases kv)
  obtain m where n: "n = Suc m" using Cons.prems(3) kv by (cases n) auto
  have p: "parses repr v" "json_ok repr v" using Cons.prems(1) kv by simp_all
  have fresh: "dict_set acc k v = acc @ [(k, v)]"
    using Cons.prems(4) kv by (intro dict_set_fresh) (auto simp: map_of_eq_None_iff)
  have str: "parse_string (concat (map escape_char k) @ CHR 0x22 # u) = Some (k, u)" for u
    by (rule parse_dump_string)
  have sp: "skip_ws (CHR '' '' # json_dumps repr v @ u) = json_dumps repr v @ u" for u
    using dumps_starts [OF p(2)] by (simp add: skip_ws_space skip_ws_id)
  show ?case
  proof (cases kvs)
    case Nil
    have "parse_value m (json_dumps repr v @ CHR 0x7D # r) = Some (v, CHR 0x7D # r)"
      using Cons.prems(3) n kv by (intro parsesD [OF p(1)]) simp_all
    with Nil n kv str sp fresh show ?thesis by (simp add: dump_member_def dump_string_def)
  next
    case (Cons w ws)
    let ?t = "join_items (map (dump_member repr) kvs) @ CHR 0x7D # r"
    have st: "skip_ws (CHR '' '' # ?t) = ?t"
    proof -
      have "?t \<noteq> []" "\<not> json_space (hd ?t)"
        using Cons by (cases ws; auto simp: dump_member_def dump_string_def json_space_def ord_of_def split: prod.splits)+
      then show ?thesis using skip_ws_id [of ?t "[]"] by (simp add: skip_ws_space)
    qed
    have v: "parse_value m (json_dumps repr v @ CHR '','' # CHR '' '' # ?t) = Some (v, CHR '','' # CHR '' '' # ?t)"
      using Cons.prems(3) n kv by (intro parsesD [OF p(1)]) simp_all
    have rest: "parse_members m (acc @ [(k, v)]) ?t = Some (JObject ((acc @ [(k, v)]) @ kvs), r)"
      using Cons.prems n kv Cons by (intro Cons.IH) simp_all
    have "join_items (map (dump_member repr) (kv # kvs)) @ CHR 0x7D # r =
        CHR 0x22 # concat (map escape_char k) @ CHR 0x22 # CHR '':'' # CHR '' '' # json_dumps repr v @
          CHR '','' # CHR '' '' # ?t"
      using Cons kv by (simp add: dump_member_def dump_string_def)
    with v rest st n str sp fresh kv show ?thesis by simp
  qed
qed simp

lemma parse_word:
  assumes "(w, v) \<in> set json_words"
  shows "parse_value (Suc n) (w @ r) = Some (v, r)"
  using assms unfolding json_words_def by (auto simp: parse_atom_def json_words_def)

lemma need_pos: "0 < need v"
  by (cases v) simp_all

lemma parsesI:
  assumes "\<And>m r. need v \<le> Suc m \<Longrightarrow> number_ends r \<Longrightarrow> parse_value (Suc m) (json_dumps repr v @ r) = Some (v, r)"
  shows "parses repr v"
  unfolding parses_def
proof (intro allI impI)
  fix n r assume n: "need v \<le> n" and r: "number_ends r"
  then obtain m where "n = Suc m" using need_pos [of v] by (cases n) auto
  with assms n r show "parse_value n (json_dumps repr v @ r) = Some (v, r)" by blast
qed

lemma parses_word:
  assumes "(json_dumps repr v, v) \<in> set json_words" shows "parses repr v"
  by (rule parsesI) (rule parse_word [OF assms])

lemma array_parses:
  assumes ok: "\<forall>v \<in> set vs. parses repr v \<and> json_ok repr v"
  shows "parses repr (JArray vs)"
  unfolding parses_def
proof (intro allI impI)
    fix n r assume "need (JArray vs) \<le> n" "number_ends r"
    then obtain m where n: "n = Suc m" "(\<Sum>v\<leftarrow>vs. Suc (need v)) \<le> m" by (cases n) auto
    show "parse_value n (json_dumps repr (JArray vs) @ r) = Some (JArray vs, r)"
    proof (cases vs)
      case (Cons w ws)
      let ?t = "join_items (map (json_dumps repr) vs) @ CHR '']'' # r"
      have "json_ok repr w" using ok Cons by simp
      note D = dumps_starts [OF this]
      have hd: "?t \<noteq> []" "hd ?t = hd (json_dumps repr w)" using Cons D by (cases ws; simp)+
      then have "skip_ws ?t = ?t" using skip_ws_id [of ?t "[]"] D by simp
      moreover obtain d u where du: "?t = d # u" "d \<noteq> CHR '']''" using hd D by (cases ?t) auto
      moreover have "parse_items m [] ?t = Some (JArray ([] @ vs), r)"
        using Cons n(2) by (intro parse_items_dumps [OF ok]) simp_all
      ultimately show ?thesis using n(1) by (simp add: list.case_eq_if)
    qed (use n in simp)
qed

lemma object_parses:
  assumes ok: "\<forall>(k, v) \<in> set kvs. parses repr v \<and> json_ok repr v" and dist: "distinct (map fst kvs)"
  shows "parses repr (JObject kvs)"
proof -
  have dm: "(\<lambda>(k, v). dump_string k @ '': '' @ json_dumps repr v) = dump_member repr"
    by (simp add: dump_member_def)
  show ?thesis unfolding parses_def
  proof (intro allI impI)
    fix n r assume "need (JObject kvs) \<le> n" "number_ends r"
    then obtain m where n: "n = Suc m" "(\<Sum>(k, v)\<leftarrow>kvs. Suc (need v)) \<le> m" by (cases n) auto
    show "parse_value n (json_dumps repr (JObject kvs) @ r) = Some (JObject kvs, r)"
    proof (cases kvs)
      case (Cons w ws)
      let ?t = "join_items (map (dump_member repr) kvs) @ CHR 0x7D # r"
      have hd: "?t \<noteq> []" "hd ?t = CHR 0x22"
        using Cons by (cases ws; cases w; simp add: dump_member_def dump_string_def)+
      then have "skip_ws ?t = ?t" using skip_ws_id [of ?t "[]"] by (simp add: json_space_def ord_of_def)
      moreover obtain d u where du: "?t = d # u" "d \<noteq> CHR 0x7D" using hd by (cases ?t) auto
      moreover have "parse_members m [] ?t = Some (JObject ([] @ kvs), r)"
        using Cons n(2) dist by (intro parse_members_dumps [OF ok]) simp_all
      ultimately show ?thesis using n(1) unfolding json_dumps.simps dm by (simp add: list.case_eq_if)
    qed (use n in simp)
  qed
qed

lemma dumps_parses: "json_ok repr v \<Longrightarrow> parses repr v"
proof (induction repr v rule: json_dumps.induct)
  case (1 repr)
  show ?case by (rule parses_word) (simp add: json_words_def)
next
  case (2 repr b)
  show ?case by (rule parses_word) (simp add: json_words_def)
next
  case (3 repr i)
  show ?case
  proof (rule parsesI)
    fix m r assume "number_ends r"
    with 3 show "parse_value (Suc m) (json_dumps repr (JInt i) @ r) = Some (JInt i, r)"
      unfolding json_dumps.simps parse_value_number [OF number_starts_int]
      by (intro parse_show_int) simp_all
  qed
next
  case (4 repr x)
  show ?case
  proof (cases x)
    case (Fin q)
    with 4 have q: "float_repr_ok repr q" by simp
    show ?thesis unfolding Fin
    proof (rule parsesI)
      fix m r assume "number_ends r"
      then show "parse_value (Suc m) (json_dumps repr (JFloat (Fin q)) @ r) = Some (JFloat (Fin q), r)"
        unfolding json_dumps.simps dump_float.simps parse_value_number [OF number_starts_repr [OF q]]
        by (rule parse_float_repr [OF q])
    qed
  qed (simp_all only:, (rule parses_word, simp add: json_words_def)+)
next
  case (5 repr s)
  show ?case by (rule parsesI) (simp add: dump_string_def parse_dump_string)
next
  case (6 repr vs)
  then have ok: "\<forall>v \<in> set vs. parses repr v \<and> json_ok repr v" by (auto simp: list_all_iff)
  show ?case by (rule array_parses [OF ok])
next
  case (7 repr kvs)
  then have ok: "\<forall>(k, v) \<in> set kvs. parses repr v \<and> json_ok repr v" by (auto simp: list_all_iff)
  have dist: "distinct (map fst kvs)" using 7(2) by simp
  show ?case by (rule object_parses [OF ok dist])
qed

subsection \<open>Enough fuel\<close>

lemma length_show_int: "show_int i \<noteq> []"
  by (simp add: show_int_def)

lemma join_items_length: "(\<Sum>x\<leftarrow>xs. length x) + 2 * (length xs - 1) = length (join_items xs)"
  by (induction xs rule: join_items.induct) simp_all

lemma need_le: "json_ok repr v \<Longrightarrow> need v \<le> 2 * length (json_dumps repr v) - 1"
proof (induction repr v rule: json_dumps.induct)
  case (3 repr i)
  show ?case using length_show_int [of i] by (cases "show_int i") auto
next
  case (4 repr x)
  then have "json_dumps repr (JFloat x) \<noteq> []" using dumps_starts by blast
  then show ?case by (cases "json_dumps repr (JFloat x)") auto
next
  case (6 repr vs)
  have "(\<Sum>v\<leftarrow>vs. Suc (need v)) \<le> 2 * (\<Sum>v\<leftarrow>vs. length (json_dumps repr v))"
    using 6
  proof (induction vs)
    case (Cons v vs)
    have "json_ok repr v" using Cons.prems(2) by simp
    then have "need v \<le> 2 * length (json_dumps repr v) - 1" "json_dumps repr v \<noteq> []"
      using Cons.prems(1) dumps_starts by auto
    then have "Suc (need v) \<le> 2 * length (json_dumps repr v)" by (cases "json_dumps repr v") auto
    moreover have "(\<Sum>v\<leftarrow>vs. Suc (need v)) \<le> 2 * (\<Sum>v\<leftarrow>vs. length (json_dumps repr v))"
      using Cons.prems by (intro Cons.IH) auto
    ultimately show ?case by simp
  qed simp
  then show ?case using join_items_length [of "map (json_dumps repr) vs"] by (simp add: comp_def)
next
  case (7 repr kvs)
  have "(\<Sum>(k, v)\<leftarrow>kvs. Suc (need v)) \<le> 2 * (\<Sum>kv\<leftarrow>kvs. length (dump_member repr kv))"
    using 7
  proof (induction kvs)
    case (Cons kv kvs)
    obtain k v where kv: "kv = (k, v)" by (cases kv)
    have "json_ok repr v" using Cons.prems(2) kv by simp
    then have "need v \<le> 2 * length (json_dumps repr v) - 1"
      using Cons.prems(1) kv by auto
    then have "Suc (need v) \<le> 2 * length (dump_member repr kv)" by (simp add: kv dump_member_def)
    moreover have "(\<Sum>(k, v)\<leftarrow>kvs. Suc (need v)) \<le> 2 * (\<Sum>kv\<leftarrow>kvs. length (dump_member repr kv))"
      using Cons.prems by (intro Cons.IH) auto
    ultimately show ?case by (simp add: kv)
  qed simp
  then show ?case using join_items_length [of "map (dump_member repr) kvs"]
    by (simp add: comp_def dump_member_def)
qed (simp_all add: dump_string_def)

text \<open>
  A JSON text printed by \<^verbatim>\<open>json.dumps\<close> is read back by \<^verbatim>\<open>json.loads\<close> as the same value:
  strings with quotes, control and non-ASCII characters, nested arrays and objects in their
  order, integers, and floats including NaN and the infinities, for every float printer with
  the documented behaviour.
\<close>

lemma json_round_trip:
  assumes "json_ok repr v"
  shows "json_loads (json_dumps repr v) = Inr v"
proof -
  let ?s = "json_dumps repr v"
  note D = dumps_starts [OF assms]
  have ws: "skip_ws ?s = ?s" using skip_ws_id [of ?s "[]"] D by simp
  have "parse_value (2 * length ?s) (?s @ []) = Some (v, [])"
    using need_le [OF assms] D by (intro parsesD [OF dumps_parses [OF assms]]) auto
  moreover have "skip_ws [] = []" by (simp add: skip_ws_def)
  ultimately show ?thesis by (simp add: json_loads_def ws)
qed

definition example_repr :: "rat \<Rightarrow> string" where
  "example_repr x = ''12.0''"

lemma example_repr_ok: "float_repr_ok example_repr 12"
proof -
  have d: "is_digit (CHR ''0'')" "is_digit (CHR ''1'')" "is_digit (CHR ''2'')" "CHR ''1'' \<noteq> CHR ''0''"
    by (simp_all add: is_digit_def ord_of_def)
  have "dyadic53 12" using dyadic53_of_int [of 12] by simp
  then have "to_float 12 = Fin 12" by (rule to_float_dyadic) simp
  then have "float_of_str ''12.0'' = Inr (Fin 12)" by (simp add: text_eval)
  then show ?thesis unfolding float_repr_ok_def example_repr_def
    by (intro exI [of _ "[]"] exI [of _ "''12''"] exI [of _ "''.0''"])
      (simp add: int_text_def frac_text_def exp_text_def digits_def d)
qed

lemma json_round_trip_example:
  "json_loads (json_dumps example_repr
     (JObject [(''a\"b'', JArray [JInt (- 7), JFloat NInf, JNull]), (''c'', JFloat (Fin 12))])) =
   Inr (JObject [(''a\"b'', JArray [JInt (- 7), JFloat NInf, JNull]), (''c'', JFloat (Fin 12))])"
proof (rule json_round_trip)
  have "(7::int) < int_limit" unfolding int_limit_def by (rule less_le_trans [of _ "10 ^ 1"]) (simp, rule power_increasing, simp_all)
  then show "json_ok example_repr
      (JObject [(''a\"b'', JArray [JInt (- 7), JFloat NInf, JNull]), (''c'', JFloat (Fin 12))])"
    by (simp add: example_repr_ok)
qed

end
