(* ===== verification/Persistence.thy ===== *)
theory Persistence
  imports PluginLayer Json
begin

text \<open>
  \<^verbatim>\<open>src/python/msp/persistence.py\<close>: saving the layers of an adapter to one safetensors file and
  rebuilding them over given base layers. The metadata that the module itself writes and parses
  (per-layer rank, alpha and gate as JSON inside the header's string map) and the header reader
  \<^verbatim>\<open>_read_metadata\<close> are modelled byte by byte; the safetensors library and the file system are
  parameters, with the file format they document as named conditions (\<open>safetensors_format\<close>).
\<close>

section \<open>Files, tensors and the library\<close>

text \<open>The value of a saved tensor; a \<open>char\<close> of a file's content stands for a byte.\<close>

record 'd tensor =
  tn_shape :: "nat \<times> nat"
  tn_dtype :: dtype
  tn_data :: 'd

text \<open>What a dictionary of layers can hold: the type is only checked at run time.\<close>

datatype ('s, 'd) layer_arg = LayerObj "('s, 'd) plugin_layer" | OtherObj

text \<open>
  The file operations over a world \<open>'w\<close>: \<^verbatim>\<open>Path.exists\<close>, \<^verbatim>\<open>path.parent.mkdir\<close>, the content of a
  file opened for reading, \<^verbatim>\<open>save_file\<close> and \<^verbatim>\<open>load_file\<close> of safetensors; and \<^verbatim>\<open>Tensor.copy_\<close>,
  which converts the source to a given shape and type or raises.
\<close>

record ('w, 'd) file_ops =
  fo_exists :: "string \<Rightarrow> ('w, bool) prog"
  fo_mkdir_parent :: "string \<Rightarrow> ('w, unit) prog"
  fo_content :: "string \<Rightarrow> ('w, string) prog"
  st_save :: "(string, 'd tensor) dict \<Rightarrow> string \<Rightarrow> (string, string) dict \<Rightarrow> ('w, unit) prog"
  st_load :: "string \<Rightarrow> string \<Rightarrow> ('w, (string, 'd tensor) dict) prog"
  t_copy :: "'d tensor \<Rightarrow> nat \<times> nat \<Rightarrow> dtype \<Rightarrow> 'd result"

definition metadata_key :: string where
  "metadata_key = ''__msp_adapter_metadata__''"

section \<open>Saving\<close>

definition tensor_name :: "string \<Rightarrow> which_param \<Rightarrow> string" where
  "tensor_name name w =
     name @ (case w of ParamA \<Rightarrow> ''.plugin_matrix_A'' | ParamB \<Rightarrow> ''.plugin_matrix_B'')"

text \<open>\<^verbatim>\<open>param.detach().contiguous().clone()\<close>: the same shape, type and elements.\<close>

definition clone_param :: "('s, 'd) parameter \<Rightarrow> 'd tensor" where
  "clone_param p = \<lparr>tn_shape = p_shape p, tn_dtype = p_dtype p, tn_data = p_data p\<rparr>"

definition saved_alpha :: "('s, 'd) plugin_layer \<Rightarrow> pyfloat result" where
  "saved_alpha l = rbind (float_of_int (rank l)) (\<lambda>r. Inr (fmul (scaling l) r))"

definition layer_metadata :: "('s, 'd) plugin_layer \<Rightarrow> json result" where
  "layer_metadata l =
     rbind (saved_alpha l) (\<lambda>alpha. Inr (JObject
       [(''rank'', JInt (rank l)), (''alpha'', JFloat alpha),
        (''routing_gate_enabled'', JBool (routing_gate_enabled l))]))"

type_synonym 'd adapter_content = "(string, 'd tensor) dict \<times> (string, json) dict"

fun collect_layers ::
  "(string, ('s, 'd) layer_arg) dict \<Rightarrow> 'd adapter_content \<Rightarrow> 'd adapter_content result" where
  "collect_layers [] acc = Inr acc"
| "collect_layers ((name, LayerObj l) # rest) (tensors, meta) =
     (let tensors = dict_set tensors (tensor_name name ParamA) (clone_param (matrix_A l));
          tensors = dict_set tensors (tensor_name name ParamB) (clone_param (matrix_B l))
      in rbind (layer_metadata l)
           (\<lambda>m. collect_layers rest (tensors, dict_set meta name m)))"
| "collect_layers ((name, OtherObj) # rest) acc = Inl TypeError"

definition save_adapter ::
  "('w, 'd) file_ops \<Rightarrow> (rat \<Rightarrow> string) \<Rightarrow> string \<Rightarrow> (string, ('s, 'd) layer_arg) dict \<Rightarrow>
   ('w, unit) prog" where
  "save_adapter fo repr path layers =
     (if layers = [] then sraise ValueError
      else (case collect_layers layers ([], []) of
          Inl e \<Rightarrow> sraise e
        | Inr (tensors, meta) \<Rightarrow>
            sbind (fo_mkdir_parent fo path)
              (\<lambda>_. st_save fo tensors path [(metadata_key, json_dumps repr (JObject meta))])))"

section \<open>Reading the header\<close>

text \<open>\<^verbatim>\<open>int.from_bytes(b, byteorder="little")\<close> and its inverse on a given number of bytes.\<close>

fun from_bytes_little :: "string \<Rightarrow> nat" where
  "from_bytes_little [] = 0"
| "from_bytes_little (b # bs) = ord_of b + 256 * from_bytes_little bs"

primrec to_bytes_little :: "nat \<Rightarrow> nat \<Rightarrow> string" where
  "to_bytes_little 0 n = []"
| "to_bytes_little (Suc k) n = char_of (n mod 256) # to_bytes_little k (n div 256)"

text \<open>
  \<^verbatim>\<open>json.loads\<close> of a bytes object decodes UTF-8 first. Only code points below 256 are
  represented: longer sequences are an error here.
\<close>

fun utf8_decode :: "string \<Rightarrow> string result" where
  "utf8_decode [] = Inr []"
| "utf8_decode (b # bs) =
     (if ord_of b < 128 then rbind (utf8_decode bs) (\<lambda>s. Inr (b # s))
      else (case bs of
          c # cs \<Rightarrow>
            if (ord_of b = 194 \<or> ord_of b = 195) \<and> 128 \<le> ord_of c \<and> ord_of c < 192
            then rbind (utf8_decode cs)
                   (\<lambda>s. Inr (char_of (64 * (ord_of b - 192) + (ord_of c - 128)) # s))
            else Inl UnicodeDecodeError
        | [] \<Rightarrow> Inl UnicodeDecodeError))"

definition json_loads_bytes :: "string \<Rightarrow> json result" where
  "json_loads_bytes bs = rbind (utf8_decode bs) json_loads"

text \<open>\<^verbatim>\<open>header.get("__metadata__")\<close>: only a dict has the method; a JSON null is Python's None.\<close>

definition get_metadata :: "json \<Rightarrow> json option result" where
  "get_metadata header =
     (case header of
        JObject kvs \<Rightarrow>
          Inr (case dict_get kvs ''__metadata__'' of Some JNull \<Rightarrow> None | m \<Rightarrow> m)
      | _ \<Rightarrow> Inl AttributeError)"

definition parse_header :: "string \<Rightarrow> json option result" where
  "parse_header content =
     (let header_len_bytes = take 8 content
      in if length header_len_bytes < 8 then Inr None
         else (let header_len = from_bytes_little header_len_bytes;
                   header_json = take header_len (drop 8 content)
               in rbind (json_loads_bytes header_json) get_metadata))"

text \<open>A computation without effects inside a program.\<close>

definition slift :: "'a result \<Rightarrow> ('w, 'a) prog" where
  "slift r = (\<lambda>w. (r, w))"

definition read_metadata :: "('w, 'd) file_ops \<Rightarrow> string \<Rightarrow> ('w, json option) prog" where
  "read_metadata fo path = sbind (fo_content fo path) (\<lambda>content. slift (parse_header content))"

section \<open>Loading\<close>

text \<open>\<^verbatim>\<open>key in v\<close>, \<^verbatim>\<open>v[key]\<close>, \<^verbatim>\<open>json.loads(v)\<close> and \<^verbatim>\<open>v.keys()\<close> on values that came from JSON.\<close>

fun json_contains :: "string \<Rightarrow> json \<Rightarrow> bool result" where
  "json_contains key (JObject kvs) = Inr (dict_get kvs key \<noteq> None)"
| "json_contains key (JArray vs) = Inr (JString key \<in> set vs)"
| "json_contains key (JString s) = Inr (py_contains key s)"
| "json_contains key _ = Inl TypeError"

fun json_item :: "json \<Rightarrow> string \<Rightarrow> json result" where
  "json_item (JObject kvs) key =
     (case dict_get kvs key of Some v \<Rightarrow> Inr v | None \<Rightarrow> Inl KeyError)"
| "json_item _ key = Inl TypeError"

fun loads_value :: "json \<Rightarrow> json result" where
  "loads_value (JString s) = json_loads s"
| "loads_value _ = Inl TypeError"

fun json_keys :: "json \<Rightarrow> string list result" where
  "json_keys (JObject kvs) = Inr (dict_keys kvs)"
| "json_keys _ = Inl AttributeError"

fun json_truth :: "json \<Rightarrow> bool" where
  "json_truth JNull = False"
| "json_truth (JBool b) = b"
| "json_truth (JInt i) = (i \<noteq> 0)"
| "json_truth (JFloat x) = (x \<noteq> Fin 0)"
| "json_truth (JString s) = (s \<noteq> [])"
| "json_truth (JArray vs) = (vs \<noteq> [])"
| "json_truth (JObject kvs) = (kvs \<noteq> [])"

text \<open>
  The constructor on arguments that came from JSON: the comparison with 0 and \<^verbatim>\<open>torch.empty\<close>
  reject ranks that are not integers, the division rejects an alpha that is not a number, and
  two integers divide without rounding first.
\<close>

fun rank_argument :: "json \<Rightarrow> int result" where
  "rank_argument (JInt r) = Inr r"
| "rank_argument (JBool b) = Inl (if b then TypeError else ValueError)"
| "rank_argument (JFloat x) = Inl (if fle x (Fin 0) then ValueError else TypeError)"
| "rank_argument _ = Inl TypeError"

definition integer_alpha ::
  "('s, 'd) torch_ops \<Rightarrow> ('s, 'd) linear \<Rightarrow> int \<Rightarrow> int \<Rightarrow> (rng, ('s, 'd) plugin_layer) prog" where
  "integer_alpha ops base r a g =
     (case layer_init ops base r (Fin (of_int a)) None g of
        (Inl e, g') \<Rightarrow> (Inl e, g')
      | (Inr l, g') \<Rightarrow> if finite_float (scaling l) then (Inr l, g') else (Inl OverflowError, g))"

definition layer_of_json ::
  "('s, 'd) torch_ops \<Rightarrow> ('s, 'd) linear \<Rightarrow> json \<Rightarrow> json \<Rightarrow> (rng, ('s, 'd) plugin_layer) prog" where
  "layer_of_json ops base jr ja =
     sbind (slift (rank_argument jr))
       (\<lambda>r. case ja of
           JFloat alpha \<Rightarrow> layer_init ops base r alpha None
         | JInt a \<Rightarrow> integer_alpha ops base r a
         | JBool b \<Rightarrow> integer_alpha ops base r (if b then 1 else 0)
         | _ \<Rightarrow> sraise (if r \<le> 0 then ValueError else TypeError))"

text \<open>\<^verbatim>\<open>layer.plugin_matrix_X.copy_(tensors[name])\<close>: shape and type of the parameter stay.\<close>

definition copy_param ::
  "('w, 'd) file_ops \<Rightarrow> (string, 'd tensor) dict \<Rightarrow> string \<Rightarrow> ('s, 'd) parameter \<Rightarrow>
   ('s, 'd) parameter result" where
  "copy_param fo tensors name p =
     (case dict_get tensors name of
        None \<Rightarrow> Inl KeyError
      | Some t \<Rightarrow> rbind (t_copy fo t (p_shape p) (p_dtype p)) (\<lambda>d. Inr (p\<lparr>p_data := d\<rparr>)))"

definition restore_layer ::
  "('w, 'd) file_ops \<Rightarrow> ('s, 'd) torch_ops \<Rightarrow> (string, 'd tensor) dict \<Rightarrow> json \<Rightarrow> string \<Rightarrow>
   ('s, 'd) linear \<Rightarrow> (rng, ('s, 'd) plugin_layer) prog" where
  "restore_layer fo ops tensors per_layer name base =
     sbind (slift (json_item per_layer name)) (\<lambda>meta.
     sbind (slift (json_item meta ''rank'')) (\<lambda>jr.
     sbind (slift (json_item meta ''alpha'')) (\<lambda>ja.
     sbind (layer_of_json ops base jr ja) (\<lambda>l.
     sbind (slift (copy_param fo tensors (tensor_name name ParamA) (matrix_A l))) (\<lambda>a.
     sbind (slift (copy_param fo tensors (tensor_name name ParamB) (matrix_B l))) (\<lambda>b.
     sbind (slift (json_item meta ''routing_gate_enabled'')) (\<lambda>gate.
       sret (l\<lparr>matrix_A := a, matrix_B := b, routing_gate_enabled := json_truth gate\<rparr>))))))))"

fun restore_layers ::
  "('w, 'd) file_ops \<Rightarrow> ('s, 'd) torch_ops \<Rightarrow> (string, 'd tensor) dict \<Rightarrow> json \<Rightarrow>
   (string, ('s, 'd) linear) dict \<Rightarrow> (string, ('s, 'd) plugin_layer) dict \<Rightarrow>
   (rng, (string, ('s, 'd) plugin_layer) dict) prog" where
  "restore_layers fo ops tensors per_layer [] acc = sret acc"
| "restore_layers fo ops tensors per_layer ((name, base) # rest) acc =
     sbind (restore_layer fo ops tensors per_layer name base)
       (\<lambda>l. restore_layers fo ops tensors per_layer rest (dict_set acc name l))"

text \<open>What \<^verbatim>\<open>load_adapter\<close> does with the tensors and the metadata it read.\<close>

definition rebuild ::
  "('w, 'd) file_ops \<Rightarrow> ('s, 'd) torch_ops \<Rightarrow> (string, ('s, 'd) linear) dict \<Rightarrow>
   (string, 'd tensor) dict \<Rightarrow> json option \<Rightarrow> (rng, (string, ('s, 'd) plugin_layer) dict) prog" where
  "rebuild fo ops base_layers tensors metadata =
     (case metadata of
        None \<Rightarrow> sraise ValueError
      | Some md \<Rightarrow>
          sbind (slift (json_contains metadata_key md)) (\<lambda>present.
            if \<not> present then sraise ValueError
            else
              sbind (slift (json_item md metadata_key)) (\<lambda>text.
              sbind (slift (loads_value text)) (\<lambda>per_layer.
              sbind (slift (json_keys per_layer)) (\<lambda>saved.
                if set saved \<noteq> set (dict_keys base_layers) then sraise KeyError
                else restore_layers fo ops tensors per_layer base_layers [])))))"

text \<open>The whole load works on the files and on the generator, from which the constructor draws.\<close>

definition on_files :: "('w, 'a) prog \<Rightarrow> ('w \<times> rng, 'a) prog" where
  "on_files f = (\<lambda>(w, g). case f w of (r, w') \<Rightarrow> (r, (w', g)))"

definition on_rng :: "(rng, 'a) prog \<Rightarrow> ('w \<times> rng, 'a) prog" where
  "on_rng f = (\<lambda>(w, g). case f g of (r, g') \<Rightarrow> (r, (w, g')))"

definition load_adapter_file ::
  "('w, 'd) file_ops \<Rightarrow> ('s, 'd) torch_ops \<Rightarrow> string \<Rightarrow> (string, ('s, 'd) linear) dict \<Rightarrow>
   string option \<Rightarrow> ('w \<times> rng, (string, ('s, 'd) plugin_layer) dict) prog" where
  "load_adapter_file fo ops path base_layers device =
     sbind (on_files (fo_exists fo path)) (\<lambda>there.
       if \<not> there then sraise FileNotFoundError
       else
         sbind (on_files (st_load fo path (case device of Some d \<Rightarrow> d | None \<Rightarrow> ''cpu''))) (\<lambda>tensors.
         sbind (on_files (read_metadata fo path)) (\<lambda>metadata.
           on_rng (rebuild fo ops base_layers tensors metadata))))"

section \<open>Lemmas about saving\<close>

lemma tensor_name_inj: "tensor_name n v = tensor_name m w \<longleftrightarrow> n = m \<and> v = w"
  by (cases v; cases w) (auto simp: tensor_name_def)

lemma slift_apply [prog_simps]: "slift r w = (r, w)"
  by (simp add: slift_def)

lemma on_part_iff [simp]:
  "on_files f (w, g) = (r, (w', g')) \<longleftrightarrow> f w = (r, w') \<and> g' = g"
  "on_rng h (w, g) = (r, (w', g')) \<longleftrightarrow> h g = (r, g') \<and> w' = w"
  by (auto simp: on_files_def on_rng_def split: prod.split)

text \<open>What saving records, whatever was recorded before, for layers under fresh names.\<close>

lemma collect_layers_ok:
  assumes "\<forall>(n, v) \<in> set kvs. \<exists>l m. v = LayerObj l \<and> layer_metadata l = Inr m"
    and "distinct (map fst md @ map fst kvs)" and "dict_ok ts"
  shows "\<exists>ts' ms. collect_layers kvs (ts, md) = Inr (ts', md @ ms) \<and> dict_ok ts' \<and>
    map fst ms = map fst kvs \<and>
    (\<forall>n l. (n, LayerObj l) \<in> set kvs \<longrightarrow>
       (\<exists>m. layer_metadata l = Inr m \<and> (n, m) \<in> set ms) \<and>
       dict_get ts' (tensor_name n ParamA) = Some (clone_param (matrix_A l)) \<and>
       dict_get ts' (tensor_name n ParamB) = Some (clone_param (matrix_B l))) \<and>
    (\<forall>n m. (n, m) \<in> set ms \<longrightarrow> (\<exists>l. (n, LayerObj l) \<in> set kvs \<and> layer_metadata l = Inr m)) \<and>
    (\<forall>n w. n \<notin> fst ` set kvs \<longrightarrow> dict_get ts' (tensor_name n w) = dict_get ts (tensor_name n w))"
  using assms
proof (induction kvs arbitrary: ts md)
  case (Cons kv kvs)
  obtain n l m where kv: "kv = (n, LayerObj l)" and m: "layer_metadata l = Inr m"
    using Cons.prems(1) by (cases kv) auto
  define ts1 where "ts1 = dict_set (dict_set ts (tensor_name n ParamA) (clone_param (matrix_A l)))
    (tensor_name n ParamB) (clone_param (matrix_B l))"
  have fresh: "dict_set md n m = md @ [(n, m)]"
    using Cons.prems(2) kv by (intro dict_set_fresh) (auto simp: map_of_eq_None_iff)
  have "\<forall>(n, v) \<in> set kvs. \<exists>l m. v = LayerObj l \<and> layer_metadata l = Inr m"
    "distinct (map fst (md @ [(n, m)]) @ map fst kvs)" "dict_ok ts1"
    using Cons.prems kv by (auto simp: ts1_def py_dict.ok_set)
  from Cons.IH [OF this] obtain ts' ms where IH:
    "collect_layers kvs (ts1, md @ [(n, m)]) = Inr (ts', (md @ [(n, m)]) @ ms)" "dict_ok ts'"
    "map fst ms = map fst kvs"
    "\<forall>n l. (n, LayerObj l) \<in> set kvs \<longrightarrow>
       (\<exists>m. layer_metadata l = Inr m \<and> (n, m) \<in> set ms) \<and>
       dict_get ts' (tensor_name n ParamA) = Some (clone_param (matrix_A l)) \<and>
       dict_get ts' (tensor_name n ParamB) = Some (clone_param (matrix_B l))"
    "\<forall>n m. (n, m) \<in> set ms \<longrightarrow> (\<exists>l. (n, LayerObj l) \<in> set kvs \<and> layer_metadata l = Inr m)"
    "\<forall>n w. n \<notin> fst ` set kvs \<longrightarrow> dict_get ts' (tensor_name n w) = dict_get ts1 (tensor_name n w)"
    by blast
  have step: "collect_layers (kv # kvs) (ts, md) = Inr (ts', md @ (n, m) # ms)"
    using IH(1) m by (simp add: kv fresh ts1_def [symmetric])
  have new: "n \<notin> fst ` set kvs" using Cons.prems(2) kv by auto
  have got: "dict_get ts1 (tensor_name n' w) = (if n' = n then Some (clone_param
      (case w of ParamA \<Rightarrow> matrix_A l | ParamB \<Rightarrow> matrix_B l)) else dict_get ts (tensor_name n' w))" for n' w
    by (cases w) (auto simp: ts1_def py_dict.get_set tensor_name_inj)
  show ?case
  proof (intro exI [of _ ts'] exI [of _ "(n, m) # ms"] conjI allI impI)
    fix n' l' assume "(n', LayerObj l') \<in> set (kv # kvs)"
    then consider "n' = n" "l' = l" | "(n', LayerObj l') \<in> set kvs" "n' \<noteq> n"
      using kv new by force
    note cases' = this
    show "\<exists>m'. layer_metadata l' = Inr m' \<and> (n', m') \<in> set ((n, m) # ms)"
      using cases'
    proof cases
      case 2
      with IH(4) obtain m' where "layer_metadata l' = Inr m'" "(n', m') \<in> set ms" by blast
      then show ?thesis by auto
    qed (simp add: m)
    show "dict_get ts' (tensor_name n' ParamA) = Some (clone_param (matrix_A l'))"
      "dict_get ts' (tensor_name n' ParamB) = Some (clone_param (matrix_B l'))"
      using cases' IH(4,6) new got by (cases, simp_all)+
  next
    fix n' m' assume "(n', m') \<in> set ((n, m) # ms)"
    then show "\<exists>l. (n', LayerObj l) \<in> set (kv # kvs) \<and> layer_metadata l = Inr m'"
      using kv m IH(5) by auto
  next
    fix n' w assume "n' \<notin> fst ` set (kv # kvs)"
    then show "dict_get ts' (tensor_name n' w) = dict_get ts (tensor_name n' w)"
      using IH(6) got kv by simp
  qed (use step IH kv in simp_all)
qed simp

section \<open>Lemmas about the header\<close>

lemma length_to_bytes [simp]: "length (to_bytes_little k n) = k"
  by (induction k arbitrary: n) simp_all

lemma from_to_bytes: "n < 256 ^ k \<Longrightarrow> from_bytes_little (to_bytes_little k n) = n"
proof (induction k arbitrary: n)
  case (Suc k)
  have "ord_of (char_of (n mod 256)) = n mod 256" by (simp add: ord_of_def)
  moreover have "n div 256 < 256 ^ k" using Suc.prems by (simp add: less_mult_imp_div_less mult.commute)
  ultimately show ?case using Suc.IH by simp
qed simp

lemma utf8_ascii: "\<forall>c \<in> set s. ord_of c < 128 \<Longrightarrow> utf8_decode s = Inr s"
  by (induction s) simp_all

lemma parse_header_format:
  assumes "length h < 256 ^ 8"
  shows "parse_header (to_bytes_little 8 (length h) @ h @ rest) = rbind (json_loads_bytes h) get_metadata"
  using assms by (simp add: parse_header_def from_to_bytes del: to_bytes_little.simps)

text \<open>
  The file format and \<^verbatim>\<open>load_file\<close>, as safetensors documents them: after a save, the file is
  there; loading gives the saved tensors on a device that is there; the file starts with the
  length of the header in 8 bytes, little-endian, and the header, a JSON object whose
  \<^verbatim>\<open>__metadata__\<close> is an object of the given strings. Reading does not change the world.
\<close>

definition safetensors_format :: "('w, 'd) file_ops \<Rightarrow> string \<Rightarrow> bool" where
  "safetensors_format fo dev \<longleftrightarrow>
     (\<forall>ts path md w w'. dict_ok ts \<longrightarrow> st_save fo ts path md w = (Inr (), w') \<longrightarrow>
        fo_exists fo path w' = (Inr True, w') \<and>
        (\<exists>ts'. st_load fo path dev w' = (Inr ts', w') \<and> (\<forall>k. dict_get ts' k = dict_get ts k)) \<and>
        (\<exists>h rest kvs mkvs.
           fo_content fo path w' = (Inr (to_bytes_little 8 (length h) @ h @ rest), w') \<and>
           length h < 256 ^ 8 \<and> json_loads_bytes h = Inr (JObject kvs) \<and>
           dict_get kvs ''__metadata__'' = Some (JObject mkvs) \<and>
           (\<forall>k. dict_get mkvs k = map_option JString (dict_get md k))))"

text \<open>\<^verbatim>\<open>copy_\<close> from a tensor of the same shape and type copies the elements.\<close>

definition copy_same :: "('w, 'd) file_ops \<Rightarrow> bool" where
  "copy_same fo \<longleftrightarrow> (\<forall>t. t_copy fo t (tn_shape t) (tn_dtype t) = Inr (tn_data t))"

lemma read_back:
  assumes "safetensors_format fo dev" and "dict_ok ts"
    and "st_save fo ts path md w = (Inr (), w')"
  obtains ts' mkvs where "fo_exists fo path w' = (Inr True, w')"
    "st_load fo path dev w' = (Inr ts', w')" "\<And>k. dict_get ts' k = dict_get ts k"
    "read_metadata fo path w' = (Inr (Some (JObject mkvs)), w')"
    "\<And>k. dict_get mkvs k = map_option JString (dict_get md k)"
proof -
  have fmt: "fo_exists fo path w' = (Inr True, w')"
    "\<exists>ts'. st_load fo path dev w' = (Inr ts', w') \<and> (\<forall>k. dict_get ts' k = dict_get ts k)"
    "\<exists>h rest kvs mkvs.
       fo_content fo path w' = (Inr (to_bytes_little 8 (length h) @ h @ rest), w') \<and>
       length h < 256 ^ 8 \<and> json_loads_bytes h = Inr (JObject kvs) \<and>
       dict_get kvs ''__metadata__'' = Some (JObject mkvs) \<and>
       (\<forall>k. dict_get mkvs k = map_option JString (dict_get md k))"
    using assms unfolding safetensors_format_def by blast+
  obtain ts' where ts': "st_load fo path dev w' = (Inr ts', w')" "\<forall>k. dict_get ts' k = dict_get ts k"
    using fmt(2) by blast
  obtain h rest kvs mkvs where h:
    "fo_content fo path w' = (Inr (to_bytes_little 8 (length h) @ h @ rest), w')"
    "length h < 256 ^ 8" "json_loads_bytes h = Inr (JObject kvs)"
    "dict_get kvs ''__metadata__'' = Some (JObject mkvs)"
    "\<forall>k. dict_get mkvs k = map_option JString (dict_get md k)"
    using fmt(3) by blast
  have "read_metadata fo path w' = (Inr (Some (JObject mkvs)), w')"
    using parse_header_format [OF h(2), of rest] h(1,3,4)
    by (simp add: read_metadata_def sbind_apply slift_apply get_metadata_def)
  with fmt(1) ts' h(5) that show thesis by blast
qed

section \<open>Lemmas about loading\<close>

text \<open>
  A layer as the constructor leaves it for the default type, with any matrix elements, hooks and
  gate: the scaling is a quotient by the rank, the shapes fit the base layer, which is frozen.
\<close>

definition layer_wf :: "('s, 'd) plugin_layer \<Rightarrow> bool" where
  "layer_wf l \<longleftrightarrow>
     0 < rank l \<and> rank l < 2 ^ 53 \<and>
     (\<exists>alpha. float_ok alpha \<and> fdiv alpha (Fin (of_int (rank l))) = Inr (scaling l)) \<and>
     freeze_linear (base_layer l) = base_layer l \<and>
     p_shape (matrix_A l) = (nat (rank l), snd (p_shape (weight (base_layer l)))) \<and>
     p_shape (matrix_B l) = (fst (p_shape (weight (base_layer l))), nat (rank l)) \<and>
     p_dtype (matrix_A l) = p_dtype (weight (base_layer l)) \<and>
     p_dtype (matrix_B l) = p_dtype (weight (base_layer l)) \<and>
     requires_grad (matrix_A l) \<and> requires_grad (matrix_B l)"

text \<open>The constructor returns, for ranks that a float represents.\<close>

lemma layer_init_eq:
  assumes "0 < r" and "r < 2 ^ 53" and "fdiv alpha (Fin (of_int r)) = Inr sc"
  shows "\<exists>g'. layer_init ops base r alpha None g = (Inr (built_layer ops base r None sc g), g')"
  using assms by (intro layer_init_returns [where rf = "Fin (of_int r)"]) (simp_all add: float_of_int_exact del: fdiv.simps)

lemma layer_init_wf:
  assumes "0 < r" and "r < 2 ^ 53" and "float_ok alpha" and "layer_init ops base r alpha None g = (Inr l, g')"
  shows "layer_wf l"
proof -
  obtain sc where "fdiv alpha (Fin (of_int r)) = Inr sc" "l = built_layer ops base r None sc g"
    using layer_init_built [OF assms(4)] assms(1,2) by (auto simp: float_of_int_exact simp del: fdiv.simps)
  with assms(1-3) show ?thesis
    by (auto simp: layer_wf_def built_layer_fields simp del: fdiv.simps)
qed

text \<open>Printing: the alpha that is written is a float whose text reads back.\<close>

definition alpha_prints :: "(rat \<Rightarrow> string) \<Rightarrow> ('s, 'd) plugin_layer \<Rightarrow> bool" where
  "alpha_prints repr l \<longleftrightarrow>
     (\<exists>q. fmul (scaling l) (Fin (of_int (rank l))) = Fin q \<and> float_repr_ok repr q)"

lemma int_limit_large: "\<bar>i\<bar> < 2 ^ 53 \<Longrightarrow> \<bar>i\<bar> < int_limit"
proof -
  assume "\<bar>i\<bar> < 2 ^ 53"
  also have "(2::int) ^ 53 < 10 ^ 16" by simp
  also have "(10::int) ^ 16 \<le> 10 ^ 4300" by (rule power_increasing) simp_all
  finally show ?thesis by (simp only: int_limit_def)
qed

lemma wf_metadata:
  assumes "layer_wf l" and "alpha_prints repr l"
  obtains q where "layer_metadata l = Inr (JObject
      [(''rank'', JInt (rank l)), (''alpha'', JFloat (Fin q)),
       (''routing_gate_enabled'', JBool (routing_gate_enabled l))])"
    "float_repr_ok repr q" "fmul (scaling l) (Fin (of_int (rank l))) = Fin q"
    "fdiv (Fin q) (Fin (of_int (rank l))) = Inr (scaling l)"
proof -
  obtain q where q: "fmul (scaling l) (Fin (of_int (rank l))) = Fin q" "float_repr_ok repr q"
    using assms(2) by (auto simp: alpha_prints_def)
  obtain alpha where alpha: "float_ok alpha" "fdiv alpha (Fin (of_int (rank l))) = Inr (scaling l)"
    and r: "0 < rank l" "rank l < 2 ^ 53"
    using assms(1) unfolding layer_wf_def by blast
  have "saved_alpha l = Inr (Fin q)"
    using r q(1) float_of_int_exact [of "rank l"] by (simp add: saved_alpha_def)
  moreover have "fdiv (Fin q) (Fin (of_int (rank l))) = Inr (scaling l)"
    using fdiv_fmul_fdiv [OF alpha(1) r alpha(2)] q(1) by (simp del: fdiv.simps)
  ultimately show thesis using that q by (simp add: layer_metadata_def)
qed

lemma restore_layer_ok:
  assumes wf: "layer_wf l" "alpha_prints repr l" and base: "freeze_linear base = base_layer l"
    and copy: "copy_same fo"
    and A: "dict_get ts (tensor_name name ParamA) = Some (clone_param (matrix_A l))"
    and B: "dict_get ts (tensor_name name ParamB) = Some (clone_param (matrix_B l))"
    and meta: "dict_get per_layer name = Some m" "layer_metadata l = Inr m"
  shows "\<exists>g'. restore_layer fo ops ts (JObject per_layer) name base g = (Inr (unhooked l), g')"
proof -
  obtain q where q: "layer_metadata l = Inr (JObject
      [(''rank'', JInt (rank l)), (''alpha'', JFloat (Fin q)),
       (''routing_gate_enabled'', JBool (routing_gate_enabled l))])"
    "fdiv (Fin q) (Fin (of_int (rank l))) = Inr (scaling l)"
    using wf_metadata [OF wf] by metis
  have shape: "p_shape (weight base) = p_shape (weight (base_layer l))"
    "p_dtype (weight base) = p_dtype (weight (base_layer l))"
    using base by (metis freeze_linear_shape)+
  have L: "0 < rank l" "rank l < 2 ^ 53"
    "p_shape (matrix_A l) = (nat (rank l), snd (p_shape (weight base)))"
    "p_shape (matrix_B l) = (fst (p_shape (weight base)), nat (rank l))"
    "p_dtype (matrix_A l) = p_dtype (weight base)" "p_dtype (matrix_B l) = p_dtype (weight base)"
    "requires_grad (matrix_A l)" "requires_grad (matrix_B l)"
    using wf(1) by (simp_all add: layer_wf_def shape)
  define l0 where "l0 = built_layer ops base (rank l) None (scaling l) g"
  obtain g' where init: "layer_of_json ops base (JInt (rank l)) (JFloat (Fin q)) g = (Inr l0, g')"
    using layer_init_eq [OF L(1,2) q(2), of ops base g] by (auto simp: layer_of_json_def l0_def sbind_apply slift_apply)
  have copies: "copy_param fo ts (tensor_name name ParamA) (matrix_A l0) =
      Inr ((matrix_A l0)\<lparr>p_data := p_data (matrix_A l)\<rparr>)"
    "copy_param fo ts (tensor_name name ParamB) (matrix_B l0) =
      Inr ((matrix_B l0)\<lparr>p_data := p_data (matrix_B l)\<rparr>)"
    using copy [unfolded copy_same_def, rule_format, of "clone_param (matrix_A l)"]
      copy [unfolded copy_same_def, rule_format, of "clone_param (matrix_B l)"] A B L
    by (simp_all add: copy_param_def l0_def built_layer_fields clone_param_def)
  have m: "m = JObject
      [(''rank'', JInt (rank l)), (''alpha'', JFloat (Fin q)),
       (''routing_gate_enabled'', JBool (routing_gate_enabled l))]"
    using meta(2) q(1) by simp
  have "restore_layer fo ops ts (JObject per_layer) name base g =
      (Inr (l0\<lparr>matrix_A := (matrix_A l0)\<lparr>p_data := p_data (matrix_A l)\<rparr>,
        matrix_B := (matrix_B l0)\<lparr>p_data := p_data (matrix_B l)\<rparr>,
        routing_gate_enabled := routing_gate_enabled l\<rparr>), g')"
    using meta(1) init copies by (simp add: restore_layer_def m dict_get_def sbind_apply slift_apply sret_apply)
  moreover have "l0\<lparr>matrix_A := (matrix_A l0)\<lparr>p_data := p_data (matrix_A l)\<rparr>,
      matrix_B := (matrix_B l0)\<lparr>p_data := p_data (matrix_B l)\<rparr>,
      routing_gate_enabled := routing_gate_enabled l\<rparr> = unhooked l"
    using L base by (cases l) (simp add: l0_def built_layer_def Let_def split_beta new_parameter_def unhooked_def set_hooks_def)
  ultimately show ?thesis by simp
qed

lemma restore_layers_ok:
  assumes "\<forall>(name, base) \<in> set bases. \<forall>g. \<exists>g'. restore_layer fo ops ts pl name base g = (Inr (f name), g')"
    and "distinct (map fst acc @ map fst bases)"
  shows "\<exists>g'. restore_layers fo ops ts pl bases acc g = (Inr (acc @ map (\<lambda>(name, _). (name, f name)) bases), g')"
  using assms
proof (induction bases arbitrary: acc g)
  case (Cons b bases)
  obtain name base where b: "b = (name, base)" by (cases b)
  have "dict_set acc name (f name) = acc @ [(name, f name)]"
    using Cons.prems(2) b by (intro dict_set_fresh) (auto simp: map_of_eq_None_iff)
  moreover obtain g1 where "restore_layer fo ops ts pl name base g = (Inr (f name), g1)"
    using Cons.prems(1) b by fastforce
  ultimately show ?case using Cons.IH [of "acc @ [(name, f name)]" g1] Cons.prems b by (simp add: sbind_apply)
qed (simp add: sret_apply)

text \<open>A load that succeeds rebuilt every given base layer, in order.\<close>

lemma restore_layers_Inr:
  assumes "restore_layers fo ops ts pl bases acc g = (Inr result, g')"
    and "distinct (map fst acc @ map fst bases)"
  shows "\<exists>ls. result = acc @ ls \<and>
    list_all2 (\<lambda>(n, base) (n', l). n' = n \<and> (\<exists>h h'. restore_layer fo ops ts pl n base h = (Inr l, h'))) bases ls"
  using assms
proof (induction bases arbitrary: acc g)
  case (Cons b bases)
  obtain name base where b: "b = (name, base)" by (cases b)
  from Cons.prems(1) b obtain l g1 where l: "restore_layer fo ops ts pl name base g = (Inr l, g1)"
    "restore_layers fo ops ts pl bases (dict_set acc name l) g1 = (Inr result, g')"
    by (auto simp: sbind_Inr_iff)
  have fresh: "dict_set acc name l = acc @ [(name, l)]"
    using Cons.prems(2) b by (intro dict_set_fresh) (auto simp: map_of_eq_None_iff)
  from l(2) have "restore_layers fo ops ts pl bases (acc @ [(name, l)]) g1 = (Inr result, g')"
    by (simp add: fresh)
  moreover have "distinct (map fst (acc @ [(name, l)]) @ map fst bases)" using Cons.prems(2) b by simp
  ultimately obtain ls where "result = (acc @ [(name, l)]) @ ls"
    "list_all2 (\<lambda>(n, base) (n', l). n' = n \<and> (\<exists>h h'. restore_layer fo ops ts pl n base h = (Inr l, h'))) bases ls"
    using Cons.IH by blast
  with l(1) b show ?case by (intro exI [of _ "(name, l) # ls"]) auto
qed (simp add: sret_apply)

section \<open>An example file system\<close>

text \<open>
  Files in memory, each with its bytes and the tensors that were saved: an instance of the file
  operations for which the documented format can be checked.
\<close>

type_synonym 'd example_files = "string \<Rightarrow> (string \<times> (string, 'd tensor) dict) option"

definition example_header :: "(string, string) dict \<Rightarrow> string" where
  "example_header md =
     json_dumps example_repr (JObject [(''__metadata__'', JObject (map (\<lambda>(k, v). (k, JString v)) md))])"

definition example_fo :: "('d example_files, 'd) file_ops" where
  "example_fo =
     \<lparr>fo_exists = (\<lambda>p w. (Inr (w p \<noteq> None), w)),
      fo_mkdir_parent = (\<lambda>p w. (Inr (), w)),
      fo_content = (\<lambda>p w. (case w p of None \<Rightarrow> Inl FileNotFoundError | Some (c, _) \<Rightarrow> Inr c, w)),
      st_save = (\<lambda>ts p md w.
        (let h = example_header md
         in if dict_ok md \<and> length h < 256 ^ 8
            then (Inr (), w(p \<mapsto> (to_bytes_little 8 (length h) @ h, ts))) else (Inl OSError, w))),
      st_load = (\<lambda>p d w. (case w p of None \<Rightarrow> Inl FileNotFoundError | Some (_, ts) \<Rightarrow> Inr ts, w)),
      t_copy = (\<lambda>t sh dt. if tn_shape t = sh then Inr (tn_data t) else Inl RuntimeError)\<rparr>"

lemma hex_char_ascii: "d < 16 \<Longrightarrow> ord_of (hex_char d) < 128"
  by (simp add: hex_char_def ord_of_def)

lemma escape_char_ascii: "x \<in> set (escape_char c) \<Longrightarrow> ord_of x < 128"
proof -
  assume x: "x \<in> set (escape_char c)"
  have "ord_of c div 16 < 16" using ord_of_less [of c] by (intro less_mult_imp_div_less) simp
  then have hex: "ord_of (hex_char (ord_of c div 16)) < 128" "ord_of (hex_char (ord_of c mod 16)) < 128"
    by (simp_all add: hex_char_ascii)
  have lits: "ord_of (CHR 0x5C) < 128" "ord_of (CHR 0x22) < 128" "ord_of (CHR ''n'') < 128"
    "ord_of (CHR ''r'') < 128" "ord_of (CHR ''t'') < 128" "ord_of (CHR ''f'') < 128"
    "ord_of (CHR ''b'') < 128" "ord_of (CHR ''u'') < 128" "ord_of (CHR ''0'') < 128"
    by (simp_all add: ord_of_def)
  from x hex lits show ?thesis unfolding escape_char_def by (auto split: if_splits)
qed

lemma dump_string_ascii: "x \<in> set (dump_string s) \<Longrightarrow> ord_of x < 128"
  by (auto simp: dump_string_def escape_char_ascii) (simp_all add: ord_of_def)

lemma join_items_set: "x \<in> set (join_items xs) \<Longrightarrow> x = CHR '','' \<or> x = CHR '' '' \<or> (\<exists>y \<in> set xs. x \<in> set y)"
  by (induction xs rule: join_items.induct) auto

lemma string_object_ascii:
  "x \<in> set (json_dumps repr (JObject (map (\<lambda>(k, v). (k, JString v)) md))) \<Longrightarrow> ord_of x < 128"
proof -
  have lits: "ord_of (CHR '','') < 128" "ord_of (CHR '' '') < 128" "ord_of (CHR '':'') < 128"
    "ord_of (CHR 0x7B) < 128" "ord_of (CHR 0x7D) < 128"
    by (simp_all add: ord_of_def)
  assume "x \<in> set (json_dumps repr (JObject (map (\<lambda>(k, v). (k, JString v)) md)))"
  with lits show ?thesis
    by (fastforce dest!: join_items_set dest: dump_string_ascii)
qed

lemma example_header_loads:
  assumes "dict_ok md"
  shows "json_loads_bytes (example_header md) =
    Inr (JObject [(''__metadata__'', JObject (map (\<lambda>(k, v). (k, JString v)) md))])"
proof -
  let ?v = "JObject [(''__metadata__'', JObject (map (\<lambda>(k, v). (k, JString v)) md))]"
  have lits: "ord_of (CHR '' '') < 128" "ord_of (CHR '':'') < 128"
    "ord_of (CHR 0x7B) < 128" "ord_of (CHR 0x7D) < 128"
    by (simp_all add: ord_of_def)
  have "ord_of x < 128" if "x \<in> set (example_header md)" for x
  proof -
    have "x \<in> {CHR '' '', CHR '':'', CHR 0x7B, CHR 0x7D} \<union> set (dump_string ''__metadata__'') \<union>
      set (json_dumps example_repr (JObject (map (\<lambda>(k, v). (k, JString v)) md)))"
      using that by (auto simp: example_header_def)
    then show ?thesis
      unfolding Un_iff insert_iff empty_iff using lits dump_string_ascii string_object_ascii by metis
  qed
  then have "utf8_decode (example_header md) = Inr (example_header md)" by (intro utf8_ascii) blast
  moreover have "json_ok example_repr ?v"
    using assms by (auto simp: dict_ok_def list_all_iff comp_def case_prod_unfold)
  then have "json_loads (example_header md) = Inr ?v"
    unfolding example_header_def by (rule json_round_trip)
  ultimately show ?thesis by (simp add: json_loads_bytes_def)
qed

lemma example_format: "safetensors_format example_fo dev"
  unfolding safetensors_format_def
proof (intro allI impI)
  fix ts path md and w w' :: "'d example_files"
  assume "st_save example_fo ts path md w = (Inr (), w')"
  then have md: "dict_ok md" "length (example_header md) < 256 ^ 8"
    and w': "w' = w(path \<mapsto> (to_bytes_little 8 (length (example_header md)) @ example_header md, ts))"
    by (auto simp: example_fo_def Let_def split: if_splits)
  have get: "dict_get (map (\<lambda>(k, v). (k, JString v)) md) k = map_option JString (dict_get md k)" for k
    by (simp add: dict_get_def map_of_map)
  show "fo_exists example_fo path w' = (Inr True, w') \<and>
      (\<exists>ts'. st_load example_fo path dev w' = (Inr ts', w') \<and> (\<forall>k. dict_get ts' k = dict_get ts k)) \<and>
      (\<exists>h rest kvs mkvs.
         fo_content example_fo path w' = (Inr (to_bytes_little 8 (length h) @ h @ rest), w') \<and>
         length h < 256 ^ 8 \<and> json_loads_bytes h = Inr (JObject kvs) \<and>
         dict_get kvs ''__metadata__'' = Some (JObject mkvs) \<and>
         (\<forall>k. dict_get mkvs k = map_option JString (dict_get md k)))"
  proof (intro conjI)
    show "\<exists>h rest kvs mkvs.
         fo_content example_fo path w' = (Inr (to_bytes_little 8 (length h) @ h @ rest), w') \<and>
         length h < 256 ^ 8 \<and> json_loads_bytes h = Inr (JObject kvs) \<and>
         dict_get kvs ''__metadata__'' = Some (JObject mkvs) \<and>
         (\<forall>k. dict_get mkvs k = map_option JString (dict_get md k))"
    proof -
      let ?h = "example_header md" and ?m = "map (\<lambda>(k, v). (k, JString v)) md"
      have "fo_content example_fo path w' = (Inr (to_bytes_little 8 (length ?h) @ ?h @ []), w')"
        by (simp add: w' example_fo_def)
      moreover have "dict_get [(''__metadata__'', JObject ?m)] ''__metadata__'' = Some (JObject ?m)"
        by (simp add: dict_get_def)
      ultimately show ?thesis using md(2) example_header_loads [OF md(1)] get by blast
    qed
  qed (simp_all add: w' example_fo_def)
qed

lemma example_copy: "copy_same example_fo"
  by (simp add: copy_same_def example_fo_def)

lemma example_layer_wf: "layer_wf example_layer"
proof (rule layer_init_wf [OF _ _ _ example_layer_init])
  have "to_float 12 = Fin 12" using to_float_dyadic [OF dyadic53_of_int [of 12]] by simp
  then show "float_ok (Fin 12)" by (metis float_ok_to_float)
qed simp_all

lemma example_alpha: "fmul (Fin 2) (Fin 6) = Fin 12"
  using to_float_dyadic [OF dyadic53_of_int [of 12]] by simp

lemma example_layer_rank: "rank example_layer = 6" "base_layer example_layer = freeze_linear example_linear"
  by (simp_all add: example_layer_def)

lemma example_alpha_prints: "alpha_prints example_repr example_layer"
  using example_repr_ok example_alpha by (simp add: alpha_prints_def example_layer_rank example_layer_facts)

section \<open>What a saved file holds\<close>

definition layer_saved ::
  "(rat \<Rightarrow> string) \<Rightarrow> (string, 'd tensor) dict \<Rightarrow> (string, json) dict \<Rightarrow> string \<Rightarrow>
   ('s, 'd) plugin_layer \<Rightarrow> bool" where
  "layer_saved repr ts ms n l \<longleftrightarrow>
     layer_wf l \<and> alpha_prints repr l \<and>
     (\<exists>m. layer_metadata l = Inr m \<and> dict_get ms n = Some m) \<and>
     dict_get ts (tensor_name n ParamA) = Some (clone_param (matrix_A l)) \<and>
     dict_get ts (tensor_name n ParamB) = Some (clone_param (matrix_B l))"

lemma wf_metadata_ok:
  assumes "layer_wf l" and "alpha_prints repr l"
  shows "\<exists>m. layer_metadata l = Inr m \<and> json_ok repr m"
proof -
  have "\<bar>rank l\<bar> < int_limit" using assms(1) by (intro int_limit_large) (simp add: layer_wf_def)
  moreover obtain q where "layer_metadata l = Inr (JObject
      [(''rank'', JInt (rank l)), (''alpha'', JFloat (Fin q)),
       (''routing_gate_enabled'', JBool (routing_gate_enabled l))])" "float_repr_ok repr q"
    using wf_metadata [OF assms] by metis
  ultimately show ?thesis by simp
qed

lemma collect_saved:
  assumes "dict_ok layers"
    and "\<forall>(name, v) \<in> set layers. \<exists>l. v = LayerObj l \<and> layer_wf l \<and> alpha_prints repr l"
  obtains ts ms where "collect_layers layers ([], []) = Inr (ts, ms)" "dict_ok ts"
    "dict_keys ms = dict_keys layers" "json_loads (json_dumps repr (JObject ms)) = Inr (JObject ms)"
    "\<And>n l. dict_get layers n = Some (LayerObj l) \<Longrightarrow> layer_saved repr ts ms n l"
proof -
  have metas: "\<forall>(n, v) \<in> set layers. \<exists>l m. v = LayerObj l \<and> layer_metadata l = Inr m"
  proof (intro ballI, unfold split_paired_all prod.case)
    fix n v assume "(n, v) \<in> set layers"
    then obtain l where "v = LayerObj l" "layer_wf l" "alpha_prints repr l" using assms(2) by auto
    with wf_metadata_ok show "\<exists>l m. v = LayerObj l \<and> layer_metadata l = Inr m" by blast
  qed
  obtain ts ms where saved: "collect_layers layers ([], []) = Inr (ts, ms)" "dict_ok ts"
    "map fst ms = map fst layers"
    "\<And>n l. (n, LayerObj l) \<in> set layers \<Longrightarrow>
       (\<exists>m. layer_metadata l = Inr m \<and> (n, m) \<in> set ms) \<and>
       dict_get ts (tensor_name n ParamA) = Some (clone_param (matrix_A l)) \<and>
       dict_get ts (tensor_name n ParamB) = Some (clone_param (matrix_B l))"
    "\<And>n m. (n, m) \<in> set ms \<Longrightarrow> \<exists>l. (n, LayerObj l) \<in> set layers \<and> layer_metadata l = Inr m"
    using collect_layers_ok [OF metas, of "[]" "[]"] assms(1) by (auto simp: dict_ok_def)
  have ms_ok: "dict_ok ms" using saved(3) assms(1) by (simp add: dict_ok_def)
  have "json_ok repr m" if nm: "(n, m) \<in> set ms" for n m
  proof -
    obtain l where l: "(n, LayerObj l) \<in> set layers" "layer_metadata l = Inr m" using saved(5) [OF nm] by blast
    then have "layer_wf l" "alpha_prints repr l" using assms(2) by auto
    with wf_metadata_ok l(2) show ?thesis by fastforce
  qed
  then have "json_ok repr (JObject ms)" using ms_ok by (auto simp: list_all_iff dict_ok_def)
  then have "json_loads (json_dumps repr (JObject ms)) = Inr (JObject ms)" by (rule json_round_trip)
  moreover have "layer_saved repr ts ms n l" if "dict_get layers n = Some (LayerObj l)" for n l
  proof -
    have nl: "(n, LayerObj l) \<in> set layers" using that assms(1) by (simp add: py_dict.get_Some_iff)
    then have "layer_wf l" "alpha_prints repr l" using assms(2) by auto
    with saved(4) [OF nl] ms_ok show ?thesis by (auto simp: layer_saved_def py_dict.get_Some_iff)
  qed
  ultimately show thesis using that saved(1,2,3) by (simp add: dict_keys_def)
qed

section \<open>Loading what was saved\<close>

lemma load_after_save:
  fixes layers :: "(string, ('s, 'd) layer_arg) dict"
  assumes format: "safetensors_format fo (case dev of Some d \<Rightarrow> d | None \<Rightarrow> ''cpu'')" "copy_same fo"
    and layers: "dict_ok layers"
      "\<forall>(name, v) \<in> set layers. \<exists>l. v = LayerObj l \<and> layer_wf l \<and> alpha_prints repr l"
    and save: "save_adapter fo repr path layers w = (Inr (), w')"
    and bases: "dict_ok bases" "set (dict_keys bases) = set (dict_keys layers)"
      "\<forall>name base l. dict_get bases name = Some base \<and> dict_get layers name = Some (LayerObj l) \<longrightarrow>
         freeze_linear base = base_layer l"
  shows "\<exists>result g'. load_adapter_file fo ops path bases dev (w', g) = (Inr result, (w', g')) \<and>
    dict_keys result = dict_keys bases \<and>
    (\<forall>name l. dict_get layers name = Some (LayerObj l) \<longrightarrow> dict_get result name = Some (unhooked l))"
proof -
  from collect_saved [OF layers] obtain ts ms where saved:
    "collect_layers layers ([], []) = Inr (ts, ms)" "dict_ok ts" "dict_keys ms = dict_keys layers"
    "json_loads (json_dumps repr (JObject ms)) = Inr (JObject ms)"
    "\<And>n l. dict_get layers n = Some (LayerObj l) \<Longrightarrow> layer_saved repr ts ms n l"
    by blast
  obtain w1 where st: "st_save fo ts path [(metadata_key, json_dumps repr (JObject ms))] w1 = (Inr (), w')"
    using save saved(1)
    by (auto simp: save_adapter_def sraise_apply sbind_apply split: if_splits prod.splits sum.splits)
  from read_back [OF format(1) saved(2) st] obtain ts' mkvs where rd:
    "fo_exists fo path w' = (Inr True, w')"
    "st_load fo path (case dev of Some d \<Rightarrow> d | None \<Rightarrow> ''cpu'') w' = (Inr ts', w')"
    "\<And>k. dict_get ts' k = dict_get ts k"
    "read_metadata fo path w' = (Inr (Some (JObject mkvs)), w')"
    "\<And>k. dict_get mkvs k = map_option JString (dict_get [(metadata_key, json_dumps repr (JObject ms))] k)"
    by metis
  have rebuild: "rebuild fo ops bases ts' (Some (JObject mkvs)) g =
      restore_layers fo ops ts' (JObject ms) bases [] g"
    using bases(2) saved(3,4)
    by (simp add: rebuild_def rd(5) dict_get_def [of "[_]"] sbind_apply slift_apply)
  define f where "f name = (case dict_get layers name of Some (LayerObj l) \<Rightarrow> unhooked l | _ \<Rightarrow> undefined)" for name
  have one: "\<forall>(name, base) \<in> set bases. \<forall>g. \<exists>g'. restore_layer fo ops ts' (JObject ms) name base g = (Inr (f name), g')"
  proof (intro ballI, unfold split_paired_all prod.case, intro allI)
    fix name base g assume nb: "(name, base) \<in> set bases"
    then have gb: "dict_get bases name = Some base" using bases(1) by (simp add: py_dict.get_Some_iff)
    have "name \<in> set (dict_keys layers)" using nb bases(2) by (force simp: dict_keys_def)
    then obtain v where "dict_get layers name = Some v" by (auto simp: dict_keys_get)
    with layers obtain l where gl: "dict_get layers name = Some (LayerObj l)"
      by (auto simp: py_dict.get_Some_iff)
    have "\<exists>g'. restore_layer fo ops ts' (JObject ms) name base g = (Inr (unhooked l), g')"
      using saved(5) [OF gl] rd(3) bases(3) [rule_format, OF conjI [OF gb gl]] format(2)
      unfolding layer_saved_def by (auto intro: restore_layer_ok)
    then show "\<exists>g'. restore_layer fo ops ts' (JObject ms) name base g = (Inr (f name), g')" by (simp add: f_def gl)
  qed
  let ?result = "map (\<lambda>(name, _). (name, f name)) bases"
  obtain g' where "restore_layers fo ops ts' (JObject ms) bases [] g = (Inr ?result, g')"
    using restore_layers_ok [OF one, of "[]"] bases(1) by (auto simp: dict_ok_def)
  then have "load_adapter_file fo ops path bases dev (w', g) = (Inr ?result, (w', g'))"
    using rd(1,2,4) rebuild by (simp add: load_adapter_file_def sbind_apply on_files_def on_rng_def)
  moreover have keys: "dict_keys ?result = dict_keys bases" by (simp add: dict_keys_def case_prod_unfold)
  moreover have "dict_get ?result name = Some (unhooked l)"
    if "dict_get layers name = Some (LayerObj l)" for name l
  proof -
    have "name \<in> set (dict_keys bases)" using that bases(2) by (simp add: dict_keys_get)
    then have "(name, f name) \<in> set ?result" by (force simp: dict_keys_def)
    moreover have "dict_ok ?result" using bases(1) keys unfolding dict_ok_def dict_keys_def by metis
    ultimately have "dict_get ?result name = Some (f name)" by (simp add: py_dict.get_Some_iff)
    with that show ?thesis by (simp add: f_def)
  qed
  ultimately show ?thesis by blast
qed

section \<open>Properties\<close>

text \<open>
  C5. Saving the layers of an adapter and loading the file over their base layers gives every
  layer back: the same rank, scaling, gate and matrix elements, over the same frozen base layer
  and without hooks, under exactly the given names in the order of the base layers. The scaling
  comes back bit for bit, although the file holds alpha as the rounded product of scaling and
  rank, in decimal; whatever the constructors draw for the first matrices is overwritten.
\<close>

theorem save_load_round_trip:
  fixes layers :: "(string, ('s, 'd) layer_arg) dict"
  assumes format: "safetensors_format fo (case dev of Some d \<Rightarrow> d | None \<Rightarrow> ''cpu'')" "copy_same fo"
    and layers: "dict_ok layers"
      "\<forall>(name, v) \<in> set layers. \<exists>l. v = LayerObj l \<and> layer_wf l \<and> alpha_prints repr l"
    and save: "save_adapter fo repr path layers w = (Inr (), w')"
    and bases: "dict_ok bases" "set (dict_keys bases) = set (dict_keys layers)"
      "\<forall>name base l. dict_get bases name = Some base \<and> dict_get layers name = Some (LayerObj l) \<longrightarrow>
         freeze_linear base = base_layer l"
  shows "\<exists>result g'. load_adapter_file fo ops path bases dev (w', g) = (Inr result, (w', g')) \<and>
    dict_keys result = dict_keys bases \<and>
    (\<forall>name l. dict_get layers name = Some (LayerObj l) \<longrightarrow> dict_get result name = Some (unhooked l))"
  using load_after_save [OF assms] .

text \<open>The example layer saved under the name \<^verbatim>\<open>q\<close>, and the file this leaves.\<close>

lemma example_saves:
  "\<exists>w'. save_adapter example_fo example_repr ''a'' [(''q'', LayerObj example_layer)] Map.empty = (Inr (), w')"
proof -
  have "saved_alpha example_layer = Inr (Fin 12)"
    using float_of_int_exact [of 6] example_alpha
    by (simp add: saved_alpha_def example_layer_rank example_layer_facts)
  then have "collect_layers [(''q'', LayerObj example_layer)] ([], []) =
      Inr ([(tensor_name ''q'' ParamA, clone_param (matrix_A example_layer)),
            (tensor_name ''q'' ParamB, clone_param (matrix_B example_layer))],
           [(''q'', JObject [(''rank'', JInt 6), (''alpha'', JFloat (Fin 12)),
             (''routing_gate_enabled'', JBool True)])])"
    by (simp add: layer_metadata_def example_layer_rank tensor_name_inj)
      (simp add: example_layer_def)
  moreover have "length (example_header [(metadata_key, json_dumps example_repr (JObject
      [(''q'', JObject [(''rank'', JInt 6), (''alpha'', JFloat (Fin 12)),
        (''routing_gate_enabled'', JBool True)])]))]) < 256 ^ 8"
    by (simp add: example_header_def dump_string_def escape_char_def ord_of_def metadata_key_def
        show_int_def show_nat.simps digit_char_def example_repr_def)
  ultimately show ?thesis
    by (simp add: save_adapter_def sbind_apply example_fo_def dict_ok_def Let_def del: json_dumps.simps)
qed

lemma example_premises:
  "dict_ok [(''q'', LayerObj example_layer)]"
  "\<forall>(name, v) \<in> set [(''q'', LayerObj example_layer)].
     \<exists>l. v = LayerObj l \<and> layer_wf l \<and> alpha_prints example_repr l"
  "dict_ok [(''q'', example_linear)]"
  "set (dict_keys [(''q'', example_linear)]) = set (dict_keys [(''q'', LayerObj example_layer)])"
  "\<forall>name base l. dict_get [(''q'', example_linear)] name = Some base \<and>
     dict_get [(''q'', LayerObj example_layer)] name = Some (LayerObj l) \<longrightarrow>
     freeze_linear base = base_layer l"
  by (auto simp: dict_ok_def dict_keys_def dict_get_def example_layer_wf example_alpha_prints
      example_layer_rank split: if_splits)

theorem save_load_round_trip_witness:
  "\<exists>w' result g.
     save_adapter example_fo example_repr ''a'' [(''q'', LayerObj example_layer)] Map.empty = (Inr (), w') \<and>
     load_adapter_file example_fo example_ops ''a'' [(''q'', example_linear)] None (w', 5) = (Inr result, (w', g)) \<and>
     dict_get result ''q'' = Some (unhooked example_layer)"
proof -
  obtain w' where w': "save_adapter example_fo example_repr ''a'' [(''q'', LayerObj example_layer)] Map.empty =
      (Inr (), w')"
    using example_saves by blast
  from save_load_round_trip [OF example_format example_copy example_premises(1,2) w' example_premises(3-5)]
  obtain result g where "load_adapter_file example_fo example_ops ''a'' [(''q'', example_linear)] None (w', 5) =
      (Inr result, (w', g))"
    "\<forall>name l. dict_get [(''q'', LayerObj example_layer)] name = Some (LayerObj l) \<longrightarrow>
       dict_get result name = Some (unhooked l)"
    by blast
  with w' show ?thesis by (auto simp: dict_get_def)
qed

lemma float_of_int_huge: "2 ^ 1024 \<le> i \<Longrightarrow> float_of_int i = Inl OverflowError"
proof -
  have "dyadic53 (2 ^ 1024)"
    unfolding dyadic53_def by (intro exI [of _ 1] exI [of _ 1024]) (simp add: power_int_def)
  then have "round53 (2 ^ 1024) = 2 ^ 1024" by (rule round53_dyadic)
  moreover assume "2 ^ 1024 \<le> i"
  then have "(2 ^ 1024 :: rat) \<le> of_int i" by (metis of_int_le_iff of_int_numeral of_int_power)
  then have "round53 (2 ^ 1024) \<le> round53 (of_int i)" by (rule round53_mono)
  ultimately show ?thesis by (simp add: float_of_int_def to_float_def)
qed

text \<open>
  An entry can be recorded when it is an adapter layer whose rank converts to a float. Entries
  before the first that cannot be recorded do not matter.
\<close>

definition recordable :: "('s, 'd) layer_arg \<Rightarrow> bool" where
  "recordable v \<longleftrightarrow> (\<exists>l x. v = LayerObj l \<and> float_of_int (rank l) = Inr x)"

lemma collect_layers_prefix:
  "\<forall>(k, u) \<in> set pre. recordable u \<Longrightarrow>
     \<exists>acc'. collect_layers (pre @ post) acc = collect_layers post acc'"
proof (induction pre arbitrary: acc)
  case (Cons kv pre)
  obtain k l x where kv: "kv = (k, LayerObj l)" "float_of_int (rank l) = Inr x"
    using Cons.prems by (cases kv) (auto simp: recordable_def)
  obtain ts md where "acc = (ts, md)" by (cases acc)
  with Cons kv show ?case by (simp add: layer_metadata_def saved_alpha_def)
qed auto

text \<open>
  C35. Every save that is refused leaves the file system untouched: no directory is made and no file
  is written. An empty dictionary is refused with a ValueError; otherwise the first entry that
  cannot be recorded decides, with a TypeError when it is not an adapter layer and with an
  OverflowError when it is one whose rank is too large for a float, so that its alpha cannot be
  computed. When there is no such entry, the call is exactly the making of the directory and the
  writing of the file: nothing but the file system can make it fail.
\<close>

theorem refused_save_writes_nothing:
  "save_adapter fo repr path [] w = (Inl ValueError, w) \<and>
   (layers = pre @ (n, v) # post \<and> (\<forall>(k, u) \<in> set pre. recordable u) \<and> \<not> recordable v \<longrightarrow>
      save_adapter fo repr path layers w =
        (Inl (case v of OtherObj \<Rightarrow> TypeError | LayerObj l \<Rightarrow> OverflowError), w)) \<and>
   (layers \<noteq> [] \<and> (\<forall>(k, u) \<in> set layers. recordable u) \<longrightarrow>
      (\<exists>ts text. save_adapter fo repr path layers w =
         sbind (fo_mkdir_parent fo path) (\<lambda>_. st_save fo ts path [(metadata_key, text)]) w))"
proof (intro conjI impI allI)
  assume *: "layers = pre @ (n, v) # post \<and> (\<forall>(k, u) \<in> set pre. recordable u) \<and> \<not> recordable v"
  then obtain acc where acc: "collect_layers layers ([], []) = collect_layers ((n, v) # post) acc"
    using collect_layers_prefix by blast
  obtain ts md where a: "acc = (ts, md)" by (cases acc)
  have "float_of_int (rank l) = Inl OverflowError" if "v = LayerObj l" for l
    using * that by (auto simp: recordable_def float_of_int_def split: pyfloat.splits)
  then have "collect_layers layers ([], []) = Inl (case v of OtherObj \<Rightarrow> TypeError | LayerObj l \<Rightarrow> OverflowError)"
    using acc a by (auto simp: layer_metadata_def saved_alpha_def split: layer_arg.split)
  with * show "save_adapter fo repr path layers w =
      (Inl (case v of OtherObj \<Rightarrow> TypeError | LayerObj l \<Rightarrow> OverflowError), w)"
    by (simp add: save_adapter_def sraise_apply)
next
  assume *: "layers \<noteq> [] \<and> (\<forall>(k, u) \<in> set layers. recordable u)"
  then have "\<forall>(k, u) \<in> set layers. recordable u" by (rule conjunct2)
  from collect_layers_prefix [OF this, of "[]" "([], [])"]
  obtain ts ms where "collect_layers layers ([], []) = Inr (ts, ms)" by auto
  with * have "save_adapter fo repr path layers w = sbind (fo_mkdir_parent fo path)
      (\<lambda>_. st_save fo ts path [(metadata_key, json_dumps repr (JObject ms))]) w"
    by (simp add: save_adapter_def)
  then show "\<exists>ts text. save_adapter fo repr path layers w =
      sbind (fo_mkdir_parent fo path) (\<lambda>_. st_save fo ts path [(metadata_key, text)]) w"
    by blast
qed (simp add: save_adapter_def sraise_apply)

theorem refused_save_writes_nothing_witness:
  "save_adapter example_fo example_repr ''a'' [(''p'', LayerObj example_layer), (''q'', OtherObj)] Map.empty =
     (Inl TypeError, Map.empty) \<and>
   save_adapter example_fo example_repr ''a''
     [(''p'', LayerObj example_layer), (''q'', LayerObj (example_layer\<lparr>rank := 2 ^ 1024\<rparr>))] Map.empty =
     (Inl OverflowError, Map.empty) \<and>
   (\<exists>ts text. save_adapter example_fo example_repr ''a'' [(''p'', LayerObj example_layer)] Map.empty =
      sbind (fo_mkdir_parent example_fo ''a'')
        (\<lambda>_. st_save example_fo ts ''a'' [(metadata_key, text)]) Map.empty)"
proof (intro conjI)
  let ?one = "[(''p'', LayerObj example_layer)]"
  have one: "\<forall>(k, u) \<in> set ?one. recordable u"
    by (simp add: recordable_def example_layer_rank float_of_int_exact)
  let ?other = "[(''p'', LayerObj example_layer), (''q'', OtherObj)]"
  have "?other = ?one @ (''q'', OtherObj) # []" "\<not> recordable (OtherObj :: (scripted_reader, matrix) layer_arg)"
    by (simp_all add: recordable_def)
  with one show "save_adapter example_fo example_repr ''a'' ?other Map.empty = (Inl TypeError, Map.empty)"
    using refused_save_writes_nothing [of example_fo example_repr "''a''" Map.empty ?other ?one "''q''" OtherObj "[]"]
    by auto
  let ?big = "example_layer\<lparr>rank := 2 ^ 1024\<rparr>"
  let ?huge = "[(''p'', LayerObj example_layer), (''q'', LayerObj ?big)]"
  have "?huge = ?one @ (''q'', LayerObj ?big) # []" "\<not> recordable (LayerObj ?big)"
    using float_of_int_huge [of "2 ^ 1024"] by (simp_all add: recordable_def)
  with one show "save_adapter example_fo example_repr ''a'' ?huge Map.empty = (Inl OverflowError, Map.empty)"
    using refused_save_writes_nothing [of example_fo example_repr "''a''" Map.empty ?huge ?one "''q''" "LayerObj ?big" "[]"]
    by auto
  show "\<exists>ts text. save_adapter example_fo example_repr ''a'' ?one Map.empty =
      sbind (fo_mkdir_parent example_fo ''a'')
        (\<lambda>_. st_save example_fo ts ''a'' [(metadata_key, text)]) Map.empty"
    using one refused_save_writes_nothing [of example_fo example_repr "''a''" Map.empty ?one] by blast
qed

lemma layer_of_json_Inr:
  assumes "layer_of_json ops base jr ja g = (Inr l, g')"
  shows "\<exists>r rf alpha. jr = JInt r \<and> 0 < r \<and> float_of_int r = Inr rf \<and>
    (case ja of JFloat x \<Rightarrow> alpha = x | JInt a \<Rightarrow> alpha = Fin (of_int a)
      | JBool b \<Rightarrow> alpha = Fin (if b then 1 else 0) | _ \<Rightarrow> False) \<and>
    fdiv alpha rf = Inr (scaling l) \<and> (\<exists>sc. l = built_layer ops base r None sc g)"
proof -
  obtain r where r: "jr = JInt r"
    using assms by (cases jr) (auto simp: layer_of_json_def sbind_apply slift_apply split: if_splits)
  have int: "layer_init ops base r (Fin (of_int a)) None g = (Inr l, g')"
    if "integer_alpha ops base r a g = (Inr l, g')" for a
    using that by (auto simp: integer_alpha_def split: prod.splits sum.splits if_splits)
  have "\<exists>alpha. layer_init ops base r alpha None g = (Inr l, g') \<and>
      (case ja of JFloat x \<Rightarrow> alpha = x | JInt a \<Rightarrow> alpha = Fin (of_int a)
        | JBool b \<Rightarrow> alpha = Fin (if b then 1 else 0) | _ \<Rightarrow> False)"
    using assms
    by (cases ja) (auto simp: r layer_of_json_def sbind_apply slift_apply sraise_apply dest: int)
  then obtain alpha where alpha: "layer_init ops base r alpha None g = (Inr l, g')"
    "case ja of JFloat x \<Rightarrow> alpha = x | JInt a \<Rightarrow> alpha = Fin (of_int a)
      | JBool b \<Rightarrow> alpha = Fin (if b then 1 else 0) | _ \<Rightarrow> False"
    by blast
  obtain rf sc where "0 < r" "float_of_int r = Inr rf" "fdiv alpha rf = Inr sc" "l = built_layer ops base r None sc g"
    using layer_init_built [OF alpha(1)] by blast
  then have "0 < r \<and> float_of_int r = Inr rf" "fdiv alpha rf = Inr (scaling l)"
    "\<exists>sc. l = built_layer ops base r None sc g" by (auto simp: built_layer_fields(3))
  with r alpha(2) show ?thesis by blast
qed

text \<open>
  A layer as the file has it: rank, scaling and gate from its entry in the metadata, both matrices
  copied from its two tensors, over the given base, frozen, in the shapes and the type of the
  base, without hooks.
\<close>

definition restored ::
  "('w, 'd) file_ops \<Rightarrow> (string, 'd tensor) dict \<Rightarrow> (string, json) dict \<Rightarrow> string \<Rightarrow>
   ('s, 'd) linear \<Rightarrow> ('s, 'd) plugin_layer \<Rightarrow> bool" where
  "restored fo tensors saved n base l \<longleftrightarrow>
     base_layer l = freeze_linear base \<and> 0 < rank l \<and>
     (\<exists>meta ja alpha rf gate.
        dict_get saved n = Some meta \<and> json_item meta ''rank'' = Inr (JInt (rank l)) \<and>
        json_item meta ''alpha'' = Inr ja \<and>
        (case ja of JFloat x \<Rightarrow> alpha = x | JInt a \<Rightarrow> alpha = Fin (of_int a)
          | JBool b \<Rightarrow> alpha = Fin (if b then 1 else 0) | _ \<Rightarrow> False) \<and>
        float_of_int (rank l) = Inr rf \<and> fdiv alpha rf = Inr (scaling l) \<and>
        json_item meta ''routing_gate_enabled'' = Inr gate \<and> routing_gate_enabled l = json_truth gate) \<and>
     (\<exists>tA tB.
        dict_get tensors (tensor_name n ParamA) = Some tA \<and>
        t_copy fo tA (p_shape (matrix_A l)) (p_dtype (matrix_A l)) = Inr (p_data (matrix_A l)) \<and>
        dict_get tensors (tensor_name n ParamB) = Some tB \<and>
        t_copy fo tB (p_shape (matrix_B l)) (p_dtype (matrix_B l)) = Inr (p_data (matrix_B l))) \<and>
     p_shape (matrix_A l) = (nat (rank l), snd (p_shape (weight base))) \<and>
     p_shape (matrix_B l) = (fst (p_shape (weight base)), nat (rank l)) \<and>
     p_dtype (matrix_A l) = p_dtype (weight base) \<and> p_dtype (matrix_B l) = p_dtype (weight base) \<and>
     (\<forall>w. hooks_of w l = []) \<and> gate_handles l = []"

lemma restore_layer_Inr:
  assumes "restore_layer fo ops ts (JObject saved) name base g = (Inr l, g')"
  shows "restored fo ts saved name base l"
proof -
  obtain m jr ja l0 h a b gate where r: "json_item (JObject saved) name = Inr m"
    "json_item m ''rank'' = Inr jr" "json_item m ''alpha'' = Inr ja"
    "layer_of_json ops base jr ja g = (Inr l0, h)"
    "copy_param fo ts (tensor_name name ParamA) (matrix_A l0) = Inr a"
    "copy_param fo ts (tensor_name name ParamB) (matrix_B l0) = Inr b"
    "json_item m ''routing_gate_enabled'' = Inr gate"
    "l = l0\<lparr>matrix_A := a, matrix_B := b, routing_gate_enabled := json_truth gate\<rparr>"
    using assms by (auto simp: restore_layer_def sbind_Inr_iff slift_apply sret_apply simp del: json_item.simps)
  obtain rk rf alpha sc where c: "jr = JInt rk" "0 < rk" "float_of_int rk = Inr rf"
    "case ja of JFloat x \<Rightarrow> alpha = x | JInt a \<Rightarrow> alpha = Fin (of_int a)
      | JBool b \<Rightarrow> alpha = Fin (if b then 1 else 0) | _ \<Rightarrow> False"
    "fdiv alpha rf = Inr (scaling l0)" "l0 = built_layer ops base rk None sc g"
    using layer_of_json_Inr [OF r(4)] by blast
  obtain da ta where a: "a = (matrix_A l0)\<lparr>p_data := da\<rparr>" "dict_get ts (tensor_name name ParamA) = Some ta"
    "t_copy fo ta (p_shape (matrix_A l0)) (p_dtype (matrix_A l0)) = Inr da"
    using r(5) by (auto simp: copy_param_def rbind_Inr_iff split: option.splits)
  obtain db tb where b: "b = (matrix_B l0)\<lparr>p_data := db\<rparr>" "dict_get ts (tensor_name name ParamB) = Some tb"
    "t_copy fo tb (p_shape (matrix_B l0)) (p_dtype (matrix_B l0)) = Inr db"
    using r(6) by (auto simp: copy_param_def rbind_Inr_iff split: option.splits)
  have m: "dict_get saved name = Some m" using r(1) by (simp split: option.splits)
  have l: "rank l = rk" "scaling l = scaling l0" "base_layer l = freeze_linear base" "gate_handles l = []"
    "routing_gate_enabled l = json_truth gate" "matrix_A l = a" "matrix_B l = b"
    by (simp_all add: r(8) c(6) built_layer_fields)
  have AB: "p_shape (matrix_A l) = (nat rk, snd (p_shape (weight base)))"
    "p_shape (matrix_B l) = (fst (p_shape (weight base)), nat rk)"
    "p_dtype (matrix_A l) = p_dtype (weight base)" "p_dtype (matrix_B l) = p_dtype (weight base)"
    "p_hooks (matrix_A l) = []" "p_hooks (matrix_B l) = []"
    by (simp_all add: l(6,7) a(1) b(1) c(6) built_layer_fields)
  have copies: "t_copy fo ta (p_shape (matrix_A l)) (p_dtype (matrix_A l)) = Inr (p_data (matrix_A l))"
    "t_copy fo tb (p_shape (matrix_B l)) (p_dtype (matrix_B l)) = Inr (p_data (matrix_B l))"
    using a(1,3) b(1,3) by (simp_all add: l(6,7))
  show ?thesis
    unfolding restored_def hooks_of_none
  proof (intro conjI)
    show "\<exists>meta ja alpha rf gate.
        dict_get saved name = Some meta \<and> json_item meta ''rank'' = Inr (JInt (rank l)) \<and>
        json_item meta ''alpha'' = Inr ja \<and>
        (case ja of JFloat x \<Rightarrow> alpha = x | JInt a \<Rightarrow> alpha = Fin (of_int a)
          | JBool b \<Rightarrow> alpha = Fin (if b then 1 else 0) | _ \<Rightarrow> False) \<and>
        float_of_int (rank l) = Inr rf \<and> fdiv alpha rf = Inr (scaling l) \<and>
        json_item meta ''routing_gate_enabled'' = Inr gate \<and> routing_gate_enabled l = json_truth gate"
      using m r(2,3,7) c(1,3-5) l(1,2,5) by metis
    show "\<exists>tA tB.
        dict_get ts (tensor_name name ParamA) = Some tA \<and>
        t_copy fo tA (p_shape (matrix_A l)) (p_dtype (matrix_A l)) = Inr (p_data (matrix_A l)) \<and>
        dict_get ts (tensor_name name ParamB) = Some tB \<and>
        t_copy fo tB (p_shape (matrix_B l)) (p_dtype (matrix_B l)) = Inr (p_data (matrix_B l))"
      using a(2) b(2) copies by blast
  qed (simp_all add: AB l(1,3,4) c(2))
qed

text \<open>
  C12. A load never yields part of an adapter, whatever the file holds: when it returns, the layers
  have exactly the names of the given base layers, in their order, these are exactly the names
  in the file's metadata, and each layer is restored from the file: rank, scaling and gate are
  those of its metadata, the elements of its two matrices are the copies of its own two tensors,
  it wraps its base layer, frozen, in the shapes and the type that the base layer demands, and
  has no hooks. The type of the saved layer plays no part.
\<close>

theorem load_never_partial:
  assumes "load_adapter_file fo ops path bases dev (w, g) = (Inr result, (w', g'))" and "dict_ok bases"
  shows "dict_keys result = dict_keys bases \<and>
    (\<exists>tensors w1 w2 md text saved.
       st_load fo path (case dev of Some d \<Rightarrow> d | None \<Rightarrow> ''cpu'') w1 = (Inr tensors, w2) \<and>
       read_metadata fo path w2 = (Inr (Some md), w') \<and>
       json_item md metadata_key = Inr (JString text) \<and> json_loads text = Inr (JObject saved) \<and>
       set (dict_keys saved) = set (dict_keys bases) \<and>
       list_all2 (\<lambda>(n, base) (n', l). n' = n \<and> restored fo tensors saved n base l) bases result)"
proof -
  obtain w1 ts w2 meta where run: "fo_exists fo path w = (Inr True, w1)"
    "st_load fo path (case dev of Some d \<Rightarrow> d | None \<Rightarrow> ''cpu'') w1 = (Inr ts, w2)"
    "read_metadata fo path w2 = (Inr meta, w')" "rebuild fo ops bases ts meta g = (Inr result, g')"
    using assms(1) unfolding load_adapter_file_def
    by (auto simp: sbind_Inr_iff sraise_apply split: if_splits)
  obtain md t pl saved where md: "meta = Some md" "json_item md metadata_key = Inr t"
    "loads_value t = Inr pl" "json_keys pl = Inr saved" "set saved = set (dict_keys bases)"
    "restore_layers fo ops ts pl bases [] g = (Inr result, g')"
    using run(4) by (auto simp: rebuild_def sbind_Inr_iff slift_apply sraise_apply
        simp del: json_item.simps split: option.splits if_splits)
  obtain u kvs where T: "t = JString u" "pl = JObject kvs" "json_loads u = Inr (JObject kvs)"
    "saved = dict_keys kvs"
    using md(3,4) by (cases t; cases pl) auto
  have "list_all2 (\<lambda>(n, base) (n', l). n' = n \<and> (\<exists>h h'. restore_layer fo ops ts pl n base h = (Inr l, h'))) bases result"
    using restore_layers_Inr [OF md(6)] assms(2) by (auto simp: dict_ok_def)
  then have ls: "list_all2 (\<lambda>(n, base) (n', l). n' = n \<and> restored fo ts kvs n base l) bases result"
    by (rule list_all2_mono) (auto simp: T(2) dest: restore_layer_Inr)
  then have "dict_keys result = dict_keys bases"
    unfolding dict_keys_def by (induction rule: list_all2_induct) auto
  with run(2,3) md(1,2,5) T ls show ?thesis by blast
qed

theorem load_never_partial_witness:
  "\<exists>w' result g. load_adapter_file example_fo example_ops ''a'' [(''q'', example_linear)] None (w', 5) = (Inr result, (w', g)) \<and>
     dict_keys result = [''q'']"
proof -
  obtain w' where w': "save_adapter example_fo example_repr ''a'' [(''q'', LayerObj example_layer)] Map.empty =
      (Inr (), w')"
    using example_saves by blast
  from load_after_save [OF example_format example_copy example_premises(1,2) w' example_premises(3-5)]
  obtain result g where result: "load_adapter_file example_fo example_ops ''a'' [(''q'', example_linear)] None (w', 5) =
      (Inr result, (w', g))"
    by blast
  have "dict_keys result = dict_keys [(''q'', example_linear)]"
    using load_never_partial [OF result example_premises(3)] by (rule conjunct1)
  then have "dict_keys result = [''q'']" by (simp add: dict_keys_def)
  with result show ?thesis by blast
qed

text \<open>
  C34. The errors of a load: FileNotFoundError for a path that is not there, before anything is
  read; ValueError for a file that is too short to have a header or whose metadata is not an
  adapter's; KeyError when the names in the metadata are not exactly those of the base layers,
  before any layer is built.
\<close>

theorem load_errors:
  "(fo_exists fo path w = (Inr False, w1) \<longrightarrow>
      load_adapter_file fo ops path bases dev (w, g) = (Inl FileNotFoundError, (w1, g))) \<and>
   (fo_exists fo path w = (Inr True, w1) \<and>
    st_load fo path (case dev of Some d \<Rightarrow> d | None \<Rightarrow> ''cpu'') w1 = (Inr tensors, w2) \<and>
    fo_content fo path w2 = (Inr content, w3) \<longrightarrow>
      (length content < 8 \<longrightarrow>
         load_adapter_file fo ops path bases dev (w, g) = (Inl ValueError, (w3, g))) \<and>
      (\<forall>md. parse_header content = Inr (Some (JObject md)) \<longrightarrow>
         (dict_get md metadata_key = None \<longrightarrow>
            load_adapter_file fo ops path bases dev (w, g) = (Inl ValueError, (w3, g))) \<and>
         (\<forall>text saved. dict_get md metadata_key = Some (JString text) \<and>
            json_loads text = Inr (JObject saved) \<and> set (dict_keys saved) \<noteq> set (dict_keys bases) \<longrightarrow>
            load_adapter_file fo ops path bases dev (w, g) = (Inl KeyError, (w3, g)))))"
proof (intro conjI impI allI)
  assume "fo_exists fo path w = (Inr False, w1)"
  then show "load_adapter_file fo ops path bases dev (w, g) = (Inl FileNotFoundError, (w1, g))"
    by (simp add: load_adapter_file_def sbind_apply sraise_apply on_files_def)
next
  assume run: "fo_exists fo path w = (Inr True, w1) \<and>
    st_load fo path (case dev of Some d \<Rightarrow> d | None \<Rightarrow> ''cpu'') w1 = (Inr tensors, w2) \<and>
    fo_content fo path w2 = (Inr content, w3)"
  then have load: "load_adapter_file fo ops path bases dev (w, g) =
      (case parse_header content of Inl e \<Rightarrow> (Inl e, (w3, g))
       | Inr meta \<Rightarrow> on_rng (rebuild fo ops bases tensors meta) (w3, g))"
    by (simp add: load_adapter_file_def read_metadata_def sbind_apply slift_apply on_files_def split: sum.split)
  show "load_adapter_file fo ops path bases dev (w, g) = (Inl ValueError, (w3, g))" if "length content < 8"
  proof -
    have "parse_header content = Inr None" using that by (simp add: parse_header_def)
    with load show ?thesis by (simp add: rebuild_def on_rng_def sraise_apply)
  qed
  fix md assume md: "parse_header content = Inr (Some (JObject md))"
  with load have l: "load_adapter_file fo ops path bases dev (w, g) =
      on_rng (rebuild fo ops bases tensors (Some (JObject md))) (w3, g)"
    by simp
  show "load_adapter_file fo ops path bases dev (w, g) = (Inl ValueError, (w3, g))" if "dict_get md metadata_key = None"
    using that by (simp add: l rebuild_def on_rng_def sbind_apply slift_apply sraise_apply)
  fix u saved assume "dict_get md metadata_key = Some (JString u) \<and>
      json_loads u = Inr (JObject saved) \<and> set (dict_keys saved) \<noteq> set (dict_keys bases)"
  then show "load_adapter_file fo ops path bases dev (w, g) = (Inl KeyError, (w3, g))"
    by (simp add: l rebuild_def on_rng_def sbind_apply slift_apply sraise_apply)
qed

theorem load_errors_witness:
  "load_adapter_file example_fo example_ops ''a'' [(''q'', example_linear)] None (Map.empty, 5) =
     (Inl FileNotFoundError, (Map.empty, 5)) \<and>
   load_adapter_file example_fo example_ops ''a'' [(''q'', example_linear)] None
     ([''a'' \<mapsto> (''short'', [])], 5) = (Inl ValueError, ([''a'' \<mapsto> (''short'', [])], 5))"
proof
  have "fo_exists example_fo ''a'' Map.empty = (Inr False, Map.empty)" by (simp add: example_fo_def)
  then show "load_adapter_file example_fo example_ops ''a'' [(''q'', example_linear)] None (Map.empty, 5) =
     (Inl FileNotFoundError, (Map.empty, 5))"
    using load_errors [of example_fo "''a''" Map.empty Map.empty example_ops "[(''q'', example_linear)]" None 5]
    by blast
  let ?w = "[''a'' \<mapsto> (''short'', [])] :: matrix example_files"
  have "fo_exists example_fo ''a'' ?w = (Inr True, ?w) \<and>
      st_load example_fo ''a'' (case None of Some d \<Rightarrow> d | None \<Rightarrow> ''cpu'') ?w = (Inr [], ?w) \<and>
      fo_content example_fo ''a'' ?w = (Inr ''short'', ?w)" "length ''short'' < 8"
    by (simp_all add: example_fo_def)
  then show "load_adapter_file example_fo example_ops ''a'' [(''q'', example_linear)] None (?w, 5) =
      (Inl ValueError, (?w, 5))"
    using load_errors [of example_fo "''a''" ?w ?w example_ops "[(''q'', example_linear)]" None 5 "[]" ?w
        "''short''" ?w]
    by blast
qed

text \<open>
  The alpha in the file is not always the alpha the layer was built with: for alpha 1 and rank
  49 it is the next float below 1, since the quotient and the product are both rounded.
\<close>

lemma saved_alpha_is_rounded:
  assumes "layer_init ops base 49 (Fin 1) None g = (Inr l, g')"
  shows "saved_alpha l = Inr (Fin (1 - 1 / 2 ^ 53)) \<and> fdiv (Fin (1 - 1 / 2 ^ 53)) (Fin 49) = Inr (scaling l)"
proof -
  have q: "to_float (1 / 49) = Fin (5882252574524729 / 288230376151711744)"
  proof (rule to_float_Fin)
    show "round53 (1 / 49) = 5882252574524729 / 288230376151711744"
      by (rule trans [OF round53_eqI [of _ 58 5882252574524729]]) simp_all
  qed simp
  then have q': "fdiv (Fin 1) (Fin 49) = Inr (Fin (5882252574524729 / 288230376151711744))" by simp
  have r: "float_of_int 49 = Inr (Fin 49)" using float_of_int_exact [of 49] by simp
  have sc: "scaling l = Fin (5882252574524729 / 288230376151711744)" "rank l = 49"
    using layer_init_built [OF assms] r q by (auto simp: built_layer_fields)
  have p: "to_float (5882252574524729 / 288230376151711744 * 49) = Fin (1 - 1 / 2 ^ 53)"
  proof (rule to_float_Fin)
    show "round53 (5882252574524729 / 288230376151711744 * 49) = 1 - 1 / 2 ^ 53"
      by (rule trans [OF round53_eqI [of _ 53 9007199254740991]]) simp_all
  qed simp
  have one: "float_ok (Fin 1)" using float_of_int_Inr [OF float_of_int_exact [of 1]] by simp
  have "fdiv (fmul (scaling l) (Fin (of_int 49))) (Fin (of_int 49)) = Inr (scaling l)"
    using q' p sc by (intro fdiv_fmul_fdiv [OF one]) (simp_all del: fdiv.simps)
  moreover have "fmul (scaling l) (Fin 49) = Fin (1 - 1 / 2 ^ 53)" using p sc(1) by simp
  ultimately show ?thesis by (simp add: saved_alpha_def sc(2) r del: fdiv.simps)
qed

lemma saved_alpha_is_rounded_example:
  "\<exists>l g. layer_init example_ops example_linear 49 (Fin 1) None 0 = (Inr l, g) \<and>
     saved_alpha l = Inr (Fin (1 - 1 / 2 ^ 53))"
proof -
  have "fdiv (Fin 1) (Fin (of_int 49)) = Inr (to_float (1 / 49))" by simp
  from layer_init_eq [OF _ _ this, of example_ops example_linear 0]
  obtain l g where "layer_init example_ops example_linear 49 (Fin 1) None 0 = (Inr l, g)" by auto
  with saved_alpha_is_rounded [OF this] show ?thesis by blast
qed

end
