(* ===== verification/Training.thy ===== *)
theory Training
  imports Transformer Persistence
begin

text \<open>
  \<^verbatim>\<open>src/examples/e2e_training.py\<close>: the synthetic task, the training loop with its arming and
  disarming of the gradient gates, and the phases of \<^verbatim>\<open>main\<close>. PyTorch's tensor operations, autograd
  and optimizer are parameters (\<open>train_ops\<close>); the gradients they hand out go through the hooks
  that the layers carry. Layers are references into the store of the session, so the blocks,
  the adapters and the manager see the same objects.
\<close>

section \<open>The training loop\<close>

text \<open>
  The state of the running program: the session with its store of layers and the next unused
  reference, the counter of hook handles, the state of the temperature reader, the optimizer,
  PyTorch's default random generator, and the file system.
\<close>

record ('s, 'd, 'o, 'f) app =
  session :: "('s, 'd) session"
  hook_ids :: nat
  device_state :: 's
  optimizer :: 'o
  generator :: rng
  next_ref :: layer_ref
  disk :: 'f

abbreviation live_layer :: "('s, 'd, 'o, 'f) app \<Rightarrow> layer_ref \<Rightarrow> ('s, 'd) plugin_layer" where
  "live_layer a r \<equiv> layer_at (session a) r"

definition set_layer ::
  "layer_ref \<Rightarrow> ('s, 'd) plugin_layer \<Rightarrow> ('s, 'd, 'o, 'f) app \<Rightarrow> ('s, 'd, 'o, 'f) app" where
  "set_layer r l a =
     a\<lparr>session := (session a)\<lparr>layer_at := (layer_at (session a))(r := l)\<rparr>\<rparr>"

text \<open>
  The computation a loss came from, as autograd recorded it: the values of the layers at the time
  of the forward pass, the model, and the batch.
\<close>

record ('s, 'd) graph =
  graph_layers :: "layer_ref \<Rightarrow> ('s, 'd) plugin_layer"
  graph_embedding :: "('s, 'd) parameter"
  graph_blocks :: "('s, 'd) tblock list"
  graph_head :: "('s, 'd) linear"
  graph_tokens :: "int list list"
  graph_targets :: "int list list"

text \<open>
  What the loop asks of PyTorch: random tokens; the embedding, the tensor operations of layers,
  blocks and output head; the loss; the gradients of the live parameters of a computation, in the
  order in which autograd reaches them; the optimizer, one parameter at a time.
\<close>

record ('s, 'd, 'o) train_ops =
  tr_randint :: "int \<Rightarrow> nat \<Rightarrow> nat \<Rightarrow> (rng, int list list) prog"
  tr_embed :: "('s, 'd) parameter \<Rightarrow> int list list \<Rightarrow> 'd result"
  tr_torch :: "('s, 'd) torch_ops"
  tr_modules :: "'d block_ops"
  tr_cross_entropy :: "'d \<Rightarrow> int list list \<Rightarrow> 'd result"
  tr_gradients :: "('s, 'd) graph \<Rightarrow> ((layer_ref \<times> which_param) \<times> gradient) list result"
  tr_adam_init :: "(layer_ref \<times> which_param) list \<Rightarrow> pyfloat \<Rightarrow> 'o result"
  tr_adam :: "layer_ref \<times> which_param \<Rightarrow> gradient \<Rightarrow> 'd \<Rightarrow> 'o \<Rightarrow> 'd \<times> 'o"
  tr_item :: "'d \<Rightarrow> pyfloat"

text \<open>A program on a part of the state.\<close>

definition on_generator :: "(rng, 'a) prog \<Rightarrow> (('s, 'd, 'o, 'f) app, 'a) prog" where
  "on_generator f a = (case f (generator a) of (r, w) \<Rightarrow> (r, a\<lparr>generator := w\<rparr>))"

definition on_device :: "('s, 'a) prog \<Rightarrow> (('s, 'd, 'o, 'f) app, 'a) prog" where
  "on_device f a = (case f (device_state a) of (r, s) \<Rightarrow> (r, a\<lparr>device_state := s\<rparr>))"

text \<open>Token tensors hold 64-bit integers: the sum wraps, the remainder has the divisor's sign.\<close>

definition shift_token :: "int \<Rightarrow> int \<Rightarrow> int \<Rightarrow> int" where
  "shift_token vocab shift t = sint (word_of_int (t + shift) :: 64 word) mod vocab"

definition synthetic_batch ::
  "('s, 'd, 'o) train_ops \<Rightarrow> int \<Rightarrow> nat \<Rightarrow> nat \<Rightarrow> int \<Rightarrow>
   (('s, 'd, 'o, 'f) app, int list list \<times> int list list) prog" where
  "synthetic_batch tops vocab batch seq_len shift =
     sbind (on_generator (tr_randint tops vocab batch seq_len))
       (\<lambda>tokens.
          if shift < - (2 ^ 63) \<or> 2 ^ 63 \<le> shift then sraise RuntimeError
          else sret (tokens, map (map (shift_token vocab shift)) tokens))"

definition model_forward ::
  "('s, 'd, 'o) train_ops \<Rightarrow> ('s, 'd) parameter \<Rightarrow> ('s, 'd) tblock list \<Rightarrow> ('s, 'd) linear \<Rightarrow>
   int list list \<Rightarrow> (('s, 'd, 'o, 'f) app, 'd) prog" where
  "model_forward tops emb blocks head tokens = (\<lambda>a.
     (rbind (tr_embed tops emb tokens)
        (\<lambda>x. rbind (run_blocks (tr_torch tops) (tr_modules tops) (layer_at (session a)) blocks x)
           (t_base (tr_torch tops) head)), a))"

text \<open>\<^verbatim>\<open>loss.backward()\<close>: each gradient passes the hooks of its parameter.\<close>

primrec run_backward ::
  "'s clock \<Rightarrow> ((layer_ref \<times> which_param) \<times> gradient) list \<Rightarrow>
   (('s, 'd, 'o, 'f) app, ((layer_ref \<times> which_param) \<times> gradient) list) prog" where
  "run_backward clock [] = sret []"
| "run_backward clock (g # gs) =
     (\<lambda>a. sbind (on_device (run_hooks clock (hooks_of (snd (fst g)) (live_layer a (fst (fst g)))) (snd g)))
        (\<lambda>h. sbind (run_backward clock gs) (\<lambda>hs. sret ((fst g, h) # hs))) a)"

definition param_of :: "which_param \<Rightarrow> ('s, 'd) plugin_layer \<Rightarrow> ('s, 'd) parameter" where
  "param_of w l = (case w of ParamA \<Rightarrow> matrix_A l | ParamB \<Rightarrow> matrix_B l)"

definition set_data :: "which_param \<Rightarrow> 'd \<Rightarrow> ('s, 'd) plugin_layer \<Rightarrow> ('s, 'd) plugin_layer" where
  "set_data w d l =
     (case w of
        ParamA \<Rightarrow> l\<lparr>matrix_A := (matrix_A l)\<lparr>p_data := d\<rparr>\<rparr>
      | ParamB \<Rightarrow> l\<lparr>matrix_B := (matrix_B l)\<lparr>p_data := d\<rparr>\<rparr>)"

text \<open>\<^verbatim>\<open>optimizer.step()\<close>: only the parameters it was given, and only those with a gradient.\<close>

definition adam_step ::
  "('s, 'd, 'o) train_ops \<Rightarrow> ((layer_ref \<times> which_param) \<times> gradient) list \<Rightarrow>
   layer_ref \<times> which_param \<Rightarrow> ('s, 'd, 'o, 'f) app \<Rightarrow> ('s, 'd, 'o, 'f) app" where
  "adam_step tops grads p a =
     (case map_of grads p of
        None \<Rightarrow> a
      | Some g \<Rightarrow>
          (case tr_adam tops p g (p_data (param_of (snd p) (live_layer a (fst p)))) (optimizer a) of
             (d, opt) \<Rightarrow> (set_layer (fst p) (set_data (snd p) d (live_layer a (fst p))) a)\<lparr>optimizer := opt\<rparr>))"

definition adapter_params :: "(string, layer_ref) dict \<Rightarrow> (layer_ref \<times> which_param) list" where
  "adapter_params layers = concat (map (\<lambda>r. [(r, ParamA), (r, ParamB)]) (dict_values layers))"

record task =
  vocab_size :: int
  task_shift :: int
  batch_size :: nat
  sequence_length :: nat

definition train_step ::
  "('s, 'd, 'o) train_ops \<Rightarrow> 's clock \<Rightarrow> ('s, 'd) parameter \<Rightarrow> ('s, 'd) tblock list \<Rightarrow> ('s, 'd) linear \<Rightarrow>
   (layer_ref \<times> which_param) list \<Rightarrow> task \<Rightarrow> (('s, 'd, 'o, 'f) app, pyfloat) prog" where
  "train_step tops clock emb blocks head params t =
     sbind (synthetic_batch tops (vocab_size t) (batch_size t) (sequence_length t) (task_shift t))
       (\<lambda>(tokens, targets).
     sbind (model_forward tops emb blocks head tokens) (\<lambda>logits.
     sbind (slift (tr_cross_entropy tops logits targets)) (\<lambda>loss.
     sbind (\<lambda>a. (tr_gradients tops
         \<lparr>graph_layers = layer_at (session a), graph_embedding = emb, graph_blocks = blocks, graph_head = head,
          graph_tokens = tokens, graph_targets = targets\<rparr>, a)) (\<lambda>raw.
     sbind (run_backward clock raw) (\<lambda>grads.
     sbind (supd (fold (adam_step tops grads) params)) (\<lambda>_.
       sret (tr_item tops loss)))))))"

primrec train_steps ::
  "nat \<Rightarrow> ('s, 'd, 'o) train_ops \<Rightarrow> 's clock \<Rightarrow> ('s, 'd) parameter \<Rightarrow> ('s, 'd) tblock list \<Rightarrow> ('s, 'd) linear \<Rightarrow>
   (layer_ref \<times> which_param) list \<Rightarrow> task \<Rightarrow> (('s, 'd, 'o, 'f) app, pyfloat list) prog" where
  "train_steps 0 tops clock emb blocks head params t = sret []"
| "train_steps (Suc n) tops clock emb blocks head params t =
     sbind (train_step tops clock emb blocks head params t)
       (\<lambda>loss. sbind (train_steps n tops clock emb blocks head params t) (\<lambda>ls. sret (loss # ls)))"

definition arm_layer :: "'s thermal_monitor \<Rightarrow> layer_ref \<Rightarrow> (('s, 'd, 'o, 'f) app, unit) prog" where
  "arm_layer m r a =
     (case gate_gradients m (live_layer a r, hook_ids a) of
        (res, l, n) \<Rightarrow> (res, (set_layer r l a)\<lparr>hook_ids := n\<rparr>))"

definition disarm_layer :: "layer_ref \<Rightarrow> (('s, 'd, 'o, 'f) app, unit) prog" where
  "disarm_layer r = supd (\<lambda>a. set_layer r (clear_gradient_gate (live_layer a r)) a)"

text \<open>\<^verbatim>\<open>try: ... finally: ...\<close>\<close>

definition try_finally :: "('a, 'b) prog \<Rightarrow> ('a, unit) prog \<Rightarrow> ('a, 'b) prog" where
  "try_finally body cleanup = (\<lambda>s.
     case body s of (r, s') \<Rightarrow>
       (case cleanup s' of (Inl e, s'') \<Rightarrow> (Inl e, s'') | (Inr _, s'') \<Rightarrow> (r, s'')))"

definition new_optimizer ::
  "('s, 'd, 'o) train_ops \<Rightarrow> (layer_ref \<times> which_param) list \<Rightarrow> pyfloat \<Rightarrow>
   (('s, 'd, 'o, 'f) app, unit) prog" where
  "new_optimizer tops params lr =
     sbind (slift (tr_adam_init tops params lr)) (\<lambda>opt. supd (\<lambda>a. a\<lparr>optimizer := opt\<rparr>))"

definition with_monitor ::
  "'s thermal_monitor option \<Rightarrow> (string, layer_ref) dict \<Rightarrow>
   ('s thermal_monitor \<Rightarrow> layer_ref \<Rightarrow> (('s, 'd, 'o, 'f) app, unit) prog) \<Rightarrow>
   (('s, 'd, 'o, 'f) app, unit) prog" where
  "with_monitor monitor layers f =
     (case monitor of None \<Rightarrow> sret () | Some m \<Rightarrow> sfor (dict_values layers) (f m))"

definition train_adapter ::
  "('s, 'd, 'o) train_ops \<Rightarrow> 's clock \<Rightarrow> ('s, 'd) parameter \<Rightarrow> ('s, 'd) tblock list \<Rightarrow> ('s, 'd) linear \<Rightarrow>
   (string, layer_ref) dict \<Rightarrow> task \<Rightarrow> nat \<Rightarrow> pyfloat \<Rightarrow> 's thermal_monitor option \<Rightarrow> (('s, 'd, 'o, 'f) app, pyfloat list) prog" where
  "train_adapter tops clock emb blocks head adapter_layers t steps lr monitor =
     sbind (with_monitor monitor adapter_layers arm_layer) (\<lambda>_.
     sbind (new_optimizer tops (adapter_params adapter_layers) lr) (\<lambda>_.
       try_finally
         (train_steps steps tops clock emb blocks head (adapter_params adapter_layers) t)
         (with_monitor monitor adapter_layers (\<lambda>_. disarm_layer))))"

section \<open>The program\<close>

definition on_session :: "(('s, 'd) session, 'a) prog \<Rightarrow> (('s, 'd, 'o, 'f) app, 'a) prog" where
  "on_session f a = (case f (session a) of (r, st) \<Rightarrow> (r, a\<lparr>session := st\<rparr>))"

definition on_disk :: "('f, 'a) prog \<Rightarrow> (('s, 'd, 'o, 'f) app, 'a) prog" where
  "on_disk f a = (case f (disk a) of (r, d) \<Rightarrow> (r, a\<lparr>disk := d\<rparr>))"

definition on_disk_and_generator :: "('f \<times> rng, 'a) prog \<Rightarrow> (('s, 'd, 'o, 'f) app, 'a) prog" where
  "on_disk_and_generator f a = (case f (disk a, generator a) of (r, (d, g)) \<Rightarrow> (r, a\<lparr>disk := d, generator := g\<rparr>))"

text \<open>Layers that were just constructed become objects of the store.\<close>

fun store_layers ::
  "(string, ('s, 'd) plugin_layer) dict \<Rightarrow> (('s, 'd, 'o, 'f) app, (string, layer_ref) dict) prog" where
  "store_layers [] = sret []"
| "store_layers ((name, l) # rest) =
     (\<lambda>a. sbind (store_layers rest) (\<lambda>refs. sret ((name, next_ref a) # refs))
        ((set_layer (next_ref a) l a)\<lparr>next_ref := next_ref a + 1\<rparr>))"

text \<open>Everything \<^verbatim>\<open>main\<close> uses that is not code of the repository.\<close>

record ('d, 'o, 'f) environment =
  e_linear :: "int \<Rightarrow> int \<Rightarrow> (rng, (scripted_reader, 'd) linear) prog"
  e_embedding :: "int \<Rightarrow> int \<Rightarrow> (rng, (scripted_reader, 'd) parameter) prog"
  e_train :: "(scripted_reader, 'd, 'o) train_ops"
  e_clock :: "scripted_reader clock"
  e_files :: "('f, 'd) file_ops"
  e_repr :: "rat \<Rightarrow> string"
  e_malloc :: malloc
  e_native :: bool
  e_mkdtemp :: "('f, string) prog"
  e_stat :: "string \<Rightarrow> ('f, int) prog"
  e_rmtree :: "string \<Rightarrow> ('f, unit) prog"

abbreviation e_torch :: "('d, 'o, 'f) environment \<Rightarrow> (scripted_reader, 'd) torch_ops" where
  "e_torch env \<equiv> tr_torch (e_train env)"

type_synonym ('d, 'o, 'f) program = "(scripted_reader, 'd, 'o, 'f) app"

text \<open>
  The bases are frozen when the adapters are attached, so the writes of the constructors to their
  \<^verbatim>\<open>requires_grad\<close> change nothing in the blocks. Each of the two calls draws its own matrices.
\<close>

definition main_setup ::
  "('d, 'o, 'f) environment \<Rightarrow>
   (('d, 'o, 'f) program, (scripted_reader, 'd) parameter \<times> (scripted_reader, 'd) tblock list \<times>
      (scripted_reader, 'd) linear \<times> (string, (scripted_reader, 'd) linear) dict \<times>
      (string, layer_ref) dict \<times> (string, layer_ref) dict) prog" where
  "main_setup env =
     sbind (on_generator (build_frozen_base (e_linear env) (e_embedding env) 12 32 4 64 2))
       (\<lambda>(emb, blocks, head).
     sbind (slift (collect_base_sublayers blocks)) (\<lambda>bases.
     sbind (on_generator (attach_adapters (e_torch env) bases 8 (Fin 16))) (\<lambda>objs_a.
     sbind (store_layers objs_a) (\<lambda>layers_a.
     sbind (on_generator (attach_adapters (e_torch env) bases 8 (Fin 16))) (\<lambda>objs_b.
     sbind (store_layers objs_b) (\<lambda>layers_b.
       sret (emb, blocks, head, bases, layers_a, layers_b)))))))"

definition learning_rate :: pyfloat where
  "learning_rate = to_float (1 / 100)"

definition main_train ::
  "('d, 'o, 'f) environment \<Rightarrow> (scripted_reader, 'd) parameter \<Rightarrow> (scripted_reader, 'd) tblock list \<Rightarrow>
   (scripted_reader, 'd) linear \<Rightarrow> (string, layer_ref) dict \<Rightarrow> int \<Rightarrow>
   nat \<Rightarrow> scripted_reader thermal_monitor option \<Rightarrow> (('d, 'o, 'f) program, unit) prog" where
  "main_train env emb blocks head layers shift steps monitor =
     sbind (train_adapter (e_train env) (e_clock env) emb blocks head layers
         \<lparr>vocab_size = 12, task_shift = shift, batch_size = 16, sequence_length = 4\<rparr>
         steps learning_rate monitor)
       (\<lambda>losses. if losses = [] then sraise IndexError else sret ())"

definition adapter_budget :: "int \<Rightarrow> int result" where
  "adapter_budget one = rbind (float_of_int one) (\<lambda>x. py_int (fmul x (Fin (3 / 2))))"

text \<open>Loading the second adapter must be rejected: success is an AssertionError.\<close>

definition expect_rejection ::
  "('d, 'o, 'f) environment \<Rightarrow> (string, layer_ref) dict \<Rightarrow> (('d, 'o, 'f) program, unit) prog" where
  "expect_rejection env layers a =
     (case on_session (load_adapter (e_malloc env) ''task-b-shift3'' layers) a of
        (Inr _, a') \<Rightarrow> (Inl AssertionError, a')
      | (Inl e, a') \<Rightarrow> (if e = AdapterBudgetError then Inr () else Inl e, a'))"

definition main_first_task ::
  "('d, 'o, 'f) environment \<Rightarrow> (scripted_reader, 'd) parameter \<Rightarrow> (scripted_reader, 'd) tblock list \<Rightarrow>
   (scripted_reader, 'd) linear \<Rightarrow> (string, layer_ref) dict \<Rightarrow>
   (string, layer_ref) dict \<Rightarrow> (('d, 'o, 'f) program, unit) prog" where
  "main_first_task env emb blocks head layers_a layers_b = (\<lambda>a.
     sbind (slift (adapter_budget (incoming (session a) layers_a))) (\<lambda>budget.
     sbind (slift (manager_init (e_native env) budget)) (\<lambda>m.
     sbind (supd (\<lambda>a. a\<lparr>session := (session a)\<lparr>manager := m\<rparr>\<rparr>)) (\<lambda>_.
     sbind (on_session (load_adapter (e_malloc env) ''task-a-shift1'' layers_a)) (\<lambda>_.
     sbind (on_session (activate ''task-a-shift1'')) (\<lambda>_.
     sbind (main_train env emb (plug_in blocks layers_a) head layers_a 1 150 None) (\<lambda>_.
       expect_rejection env layers_b)))))) a)"

text \<open>The dictionary of live layers that is handed to \<^verbatim>\<open>save_adapter\<close>.\<close>

definition live_args ::
  "('s, 'd, 'o, 'f) app \<Rightarrow> (string, layer_ref) dict \<Rightarrow> (string, ('s, 'd) layer_arg) dict" where
  "live_args a layers = map (\<lambda>(name, r). (name, LayerObj (live_layer a r))) layers"

definition main_swap ::
  "('d, 'o, 'f) environment \<Rightarrow> (scripted_reader, 'd) parameter \<Rightarrow> (scripted_reader, 'd) tblock list \<Rightarrow>
   (scripted_reader, 'd) linear \<Rightarrow> (string, layer_ref) dict \<Rightarrow>
   (string, layer_ref) dict \<Rightarrow> (('d, 'o, 'f) program, string \<times> string) prog" where
  "main_swap env emb blocks head layers_a layers_b =
     sbind (on_disk (e_mkdtemp env)) (\<lambda>dir.
       let path = dir @ ''/task-a-shift1.safetensors''
       in sbind (\<lambda>a. on_disk (save_adapter (e_files env) (e_repr env) path (live_args a layers_a)) a) (\<lambda>_.
          sbind (on_session (unload_adapter ''task-a-shift1'')) (\<lambda>_.
          sbind (on_disk (e_stat env path)) (\<lambda>_.
          sbind (on_session (load_adapter (e_malloc env) ''task-b-shift3'' layers_b)) (\<lambda>_.
          sbind (on_session (activate ''task-b-shift3'')) (\<lambda>_.
          sbind (main_train env emb blocks head layers_b 3 150 None) (\<lambda>_.
            sret (dir, path))))))))"

definition main_gated ::
  "('d, 'o, 'f) environment \<Rightarrow> (scripted_reader, 'd) parameter \<Rightarrow> (scripted_reader, 'd) tblock list \<Rightarrow>
   (scripted_reader, 'd) linear \<Rightarrow> (string, layer_ref) dict \<Rightarrow>
   (('d, 'o, 'f) program, unit) prog" where
  "main_gated env emb blocks head layers_b =
     sbind (slift (scripted_init (replicate 20 (Fin 80) @ replicate 20 (Fin 25)))) (\<lambda>hot_then_cool.
     sbind (slift (monitor_init (Some scripted_call) (Fin 75) (to_float (1 / 5)))) (\<lambda>m.
     sbind (supd (\<lambda>a. a\<lparr>device_state := hot_then_cool\<rparr>)) (\<lambda>_.
       main_train env emb blocks head layers_b 3 40 (Some m))))"

definition main_reload ::
  "('d, 'o, 'f) environment \<Rightarrow> (scripted_reader, 'd) parameter \<Rightarrow> (scripted_reader, 'd) tblock list \<Rightarrow>
   (scripted_reader, 'd) linear \<Rightarrow>
   (string, (scripted_reader, 'd) linear) dict \<Rightarrow> string \<Rightarrow> string \<Rightarrow>
   (('d, 'o, 'f) program, (string, layer_ref) dict) prog" where
  "main_reload env emb blocks head bases dir path =
     sbind (on_disk_and_generator (load_adapter_file (e_files env) (e_torch env) path bases None)) (\<lambda>objs.
     sbind (store_layers objs) (\<lambda>layers.
     sbind (on_session (unload_adapter ''task-b-shift3'')) (\<lambda>_.
     sbind (on_session (load_adapter (e_malloc env) ''task-a-shift1-reloaded'' layers)) (\<lambda>_.
     sbind (on_session (activate ''task-a-shift1-reloaded'')) (\<lambda>_.
     sbind (synthetic_batch (e_train env) 12 8 4 1) (\<lambda>(tokens, _).
     sbind (model_forward (e_train env) emb (plug_in blocks layers) head tokens) (\<lambda>_.
     sbind (on_disk (e_rmtree env dir)) (\<lambda>_.
       sret layers))))))))"

text \<open>The result is the dictionary of the reloaded layers, which \<^verbatim>\<open>main\<close> leaves in service.\<close>

definition main_program ::
  "('d, 'o, 'f) environment \<Rightarrow> (('d, 'o, 'f) program, (string, layer_ref) dict) prog" where
  "main_program env =
     sbind (main_setup env) (\<lambda>(emb, blocks, head, bases, layers_a, layers_b).
     sbind (main_first_task env emb blocks head layers_a layers_b) (\<lambda>_.
       let blocks_b = plug_in (plug_in blocks layers_a) layers_b
       in sbind (main_swap env emb blocks_b head layers_a layers_b) (\<lambda>(dir, path).
          sbind (main_gated env emb blocks_b head layers_b) (\<lambda>_.
            main_reload env emb blocks_b head bases dir path))))"

section \<open>What programs keep\<close>

definition keeps :: "('a \<Rightarrow> 'a \<Rightarrow> bool) \<Rightarrow> ('a, 'b) prog \<Rightarrow> bool" where
  "keeps R m \<longleftrightarrow> (\<forall>a. R a (snd (m a)))"

lemma keepsD: "keeps R m \<Longrightarrow> m a = (r, a') \<Longrightarrow> R a a'"
  by (metis keeps_def snd_conv)

text \<open>A preorder on states is kept by a program that is put together from programs that keep it.\<close>

locale kept =
  fixes R :: "'a \<Rightarrow> 'a \<Rightarrow> bool"
  assumes same: "R a a" and trans: "R a b \<Longrightarrow> R b c \<Longrightarrow> R a c"
begin

lemma pure: "keeps R (sret x)" "keeps R (sraise e)" "keeps R (slift y)"
  using same by (simp_all add: keeps_def sret_apply sraise_apply slift_apply)

lemma bind:
  assumes "keeps R m" and "\<And>x. keeps R (f x)"
  shows "keeps R (sbind m f)"
  unfolding keeps_def
proof
  fix a
  obtain r a' where m: "m a = (r, a')" by (metis surj_pair)
  with assms(1) have "R a a'" by (rule keepsD)
  with m trans assms(2) show "R a (snd (sbind m f a))"
    by (cases r) (auto simp: sbind_apply keeps_def)
qed

lemma iterate:
  assumes "\<And>r. r \<in> set rs \<Longrightarrow> keeps R (f r)"
  shows "keeps R (sfor rs f)"
  using assms
proof (induction rs)
  case (Cons r rs)
  then show ?case unfolding sfor.simps by (intro bind) auto
qed (simp add: pure)

lemma cleanup:
  assumes "keeps R m" and "keeps R f"
  shows "keeps R (try_finally m f)"
  unfolding keeps_def
proof
  fix a
  obtain r b where m: "m a = (r, b)" by (metis surj_pair)
  obtain r' c where f: "f b = (r', c)" by (metis surj_pair)
  have "R a c" using keepsD [OF assms(1) m] keepsD [OF assms(2) f] by (rule trans)
  then show "R a (snd (try_finally m f a))"
    by (cases r') (simp_all add: try_finally_def m f)
qed

lemma folded: "(\<And>x a. x \<in> set xs \<Longrightarrow> R a (g x a)) \<Longrightarrow> R a (fold g xs a)"
proof (induction xs arbitrary: a)
  case (Cons x xs)
  then have "R a (g x a)" "R (g x a) (fold g xs (g x a))" by simp_all
  then show ?case using trans by simp
qed (simp add: same)

end

text \<open>
  So the steps of the training loop keep whatever drawing tokens, reading temperatures in the
  hooks and updating the parameters at hand keep.
\<close>

locale kept_by_training = kept R
  for R :: "('s, 'd, 'o, 'f) app \<Rightarrow> ('s, 'd, 'o, 'f) app \<Rightarrow> bool" +
  fixes tops :: "('s, 'd, 'o) train_ops" and params :: "(layer_ref \<times> which_param) list"
  assumes generator: "keeps R (on_generator (f :: (rng, int list list) prog))"
    and device: "keeps R (on_device (g :: ('s, gradient) prog))"
    and adam: "p \<in> set params \<Longrightarrow> R a (adam_step tops grads p a)"
begin

lemma backward: "keeps R (run_backward clock gs)"
proof (induction gs)
  case (Cons g gs)
  have "keeps R (sbind (on_device h) (\<lambda>x. sbind (run_backward clock gs) (\<lambda>xs. sret ((fst g, x) # xs))))" for h
    by (intro bind device pure Cons)
  then show ?case by (simp add: keeps_def)
qed (simp add: pure)

lemma step: "keeps R (train_step tops clock emb blocks head params t)"
proof -
  have "keeps R (synthetic_batch tops v b n s)" for v b n s
    unfolding synthetic_batch_def by (intro bind generator) (auto simp: pure)
  moreover have "keeps R (model_forward tops emb blocks head tokens)" for tokens
    by (simp add: keeps_def model_forward_def same)
  moreover have "keeps R (\<lambda>a. (tr_gradients tops (G a), a))" for G
    by (simp add: keeps_def same)
  moreover have "keeps R (supd (fold (adam_step tops grads) params))" for grads
    using folded [where g = "adam_step tops grads", OF adam] by (simp add: keeps_def supd_apply)
  ultimately show ?thesis
    unfolding train_step_def case_prod_unfold by (intro bind pure backward) auto
qed

lemma steps: "keeps R (train_steps n tops clock emb blocks head params t)"
  by (induction n) (auto intro!: bind step pure)

end

text \<open>A layer whose matrices hold other elements, and nothing else changed.\<close>

definition same_but_data :: "('s, 'd) plugin_layer \<Rightarrow> ('s, 'd) plugin_layer \<Rightarrow> bool" where
  "same_but_data l l' \<longleftrightarrow> (\<exists>x y. l' = set_data ParamA x (set_data ParamB y l))"

lemma same_but_data_refl [simp]: "same_but_data l l"
  unfolding same_but_data_def
  by (intro exI [of _ "p_data (matrix_A l)"] exI [of _ "p_data (matrix_B l)"]) (simp add: set_data_def)

lemma same_but_data_trans: "same_but_data l l' \<Longrightarrow> same_but_data l' l'' \<Longrightarrow> same_but_data l l''"
  unfolding same_but_data_def by (elim exE, intro exI) (simp add: set_data_def)

lemma same_but_data_set: "same_but_data l (set_data w d l)"
proof (cases w)
  case ParamA
  then show ?thesis unfolding same_but_data_def
    by (intro exI [of _ d] exI [of _ "p_data (matrix_B l)"]) (simp add: set_data_def)
next
  case ParamB
  then show ?thesis unfolding same_but_data_def
    by (intro exI [of _ "p_data (matrix_A l)"] exI [of _ d]) (simp add: set_data_def)
qed

lemma same_but_data_fields:
  assumes "same_but_data l l'"
  shows "hooks_of w l' = hooks_of w l" "gate_handles l' = gate_handles l"
    "foreign_hooks w l' = foreign_hooks w l" "parameter_bytes l' = parameter_bytes l"
    "base_layer l' = base_layer l" "scaling l' = scaling l" "rank l' = rank l"
    "p_shape (matrix_A l') = p_shape (matrix_A l)" "p_shape (matrix_B l') = p_shape (matrix_B l)"
    "layer_wf l' = layer_wf l" "alpha_prints repr l' = alpha_prints repr l"
proof -
  obtain x y where l': "l' = set_data ParamA x (set_data ParamB y l)"
    using assms by (auto simp: same_but_data_def)
  show hooks: "hooks_of v l' = hooks_of v l" for v
    by (cases v) (simp_all add: l' set_data_def hooks_of_def)
  show "gate_handles l' = gate_handles l" by (simp add: l' set_data_def)
  then show "foreign_hooks w l' = foreign_hooks w l" by (simp add: foreign_hooks_def hooks)
  show "parameter_bytes l' = parameter_bytes l"
    by (simp add: l' set_data_def parameter_bytes_def param_bytes_def)
  show "base_layer l' = base_layer l" "scaling l' = scaling l" "rank l' = rank l"
    "p_shape (matrix_A l') = p_shape (matrix_A l)" "p_shape (matrix_B l') = p_shape (matrix_B l)"
    "layer_wf l' = layer_wf l" "alpha_prints repr l' = alpha_prints repr l"
    by (simp_all add: l' set_data_def layer_wf_def alpha_prints_def)
qed

text \<open>
  What the loop may do: change elements of the trained matrices, the device, the optimizer and
  the world outside; the registry, the native memory, the hooks and all other layers stay.
\<close>

definition trained :: "layer_ref set \<Rightarrow> ('s, 'd, 'o, 'f) app \<Rightarrow> ('s, 'd, 'o, 'f) app \<Rightarrow> bool" where
  "trained refs a a' \<longleftrightarrow>
     manager (session a') = manager (session a) \<and> host (session a') = host (session a) \<and>
     hook_ids a' = hook_ids a \<and> next_ref a' = next_ref a \<and> disk a' = disk a \<and>
     (\<forall>r. same_but_data (live_layer a r) (live_layer a' r)) \<and>
     (\<forall>r. r \<notin> refs \<longrightarrow> live_layer a' r = live_layer a r)"

lemma trained_refl [simp]: "trained refs a a"
  by (simp add: trained_def)

lemma trained_trans: "trained refs a b \<Longrightarrow> trained refs b c \<Longrightarrow> trained refs a c"
  using same_but_data_trans by (fastforce simp: trained_def)

interpretation trained: kept "trained refs" for refs
  by unfold_locales (auto intro: trained_trans)

lemma trained_on: "keeps (trained refs) (on_generator f)" "keeps (trained refs) (on_device g)"
  by (simp_all add: keeps_def on_generator_def on_device_def trained_def split: prod.split)

lemma trained_adam:
  assumes "fst p \<in> refs" shows "trained refs a (adam_step tops grads p a)"
  using assms
  by (auto simp: adam_step_def trained_def set_layer_def same_but_data_set split: option.split prod.split)

interpretation trained_loop: kept_by_training "trained (fst ` set params)" tops params for tops params
  by unfold_locales (simp_all add: trained_on trained_adam)

lemma trained_mono: "keeps (trained refs) m \<Longrightarrow> refs \<subseteq> refs' \<Longrightarrow> keeps (trained refs') m"
  unfolding keeps_def trained_def by (meson subset_iff)

lemma trained_step: "fst ` set params \<subseteq> refs \<Longrightarrow> keeps (trained refs) (train_step tops clock emb blocks head params t)"
  by (rule trained_mono [OF trained_loop.step])

lemma trained_steps: "fst ` set params \<subseteq> refs \<Longrightarrow> keeps (trained refs) (train_steps n tops clock emb blocks head params t)"
  by (rule trained_mono [OF trained_loop.steps])

lemma trained_optimizer: "keeps (trained refs) (new_optimizer tops params lr)"
  unfolding new_optimizer_def
proof (rule trained.bind)
  show "keeps (trained refs) (supd (\<lambda>a. a\<lparr>optimizer := opt\<rparr>))" for opt
    by (simp add: keeps_def supd_apply trained_def)
qed (rule trained.pure)

section \<open>Arming and disarming\<close>

lemma set_layer_simps [simp]:
  "live_layer (set_layer r l a) s = (if s = r then l else live_layer a s)"
  "hook_ids (set_layer r l a) = hook_ids a" "device_state (set_layer r l a) = device_state a"
  "manager (session (set_layer r l a)) = manager (session a)"
  "host (session (set_layer r l a)) = host (session a)" "generator (set_layer r l a) = generator a"
  "next_ref (set_layer r l a) = next_ref a" "disk (set_layer r l a) = disk a"
  by (simp_all add: set_layer_def)

text \<open>Everything but the layers and the handle counter is as before.\<close>

definition same_rest :: "('s, 'd, 'o, 'f) app \<Rightarrow> ('s, 'd, 'o, 'f) app \<Rightarrow> bool" where
  "same_rest a a' \<longleftrightarrow>
     manager (session a') = manager (session a) \<and> host (session a') = host (session a) \<and>
     device_state a' = device_state a \<and> generator a' = generator a \<and> next_ref a' = next_ref a \<and> disk a' = disk a"

lemma arm_layer_run:
  assumes "gate_stride m = Inr k" and "\<forall>s \<in> S. ids_below (hook_ids a) (live_layer a s)" and "r \<in> S"
  obtains a' where "arm_layer m r a = (Inr (), a')" "same_rest a a'"
    "\<forall>s \<in> S. ids_below (hook_ids a') (live_layer a' s)"
    "\<forall>s. unhooked (live_layer a' s) = unhooked (live_layer a s)"
    "\<forall>s \<in> S. \<forall>w. foreign_hooks w (live_layer a' s) = foreign_hooks w (live_layer a s)"
    "\<forall>s. s \<noteq> r \<longrightarrow> live_layer a' s = live_layer a s"
    "\<forall>w. \<exists>i. hooks_of w (live_layer a' r) =
       foreign_hooks w (live_layer a r) @ [(i, Gate k (fst (p_shape (param_of w (live_layer a r)))) m)]"
proof -
  let ?l = "live_layer a r" and ?n = "hook_ids a"
  obtain l' where l': "gate_gradients m (?l, ?n) = (Inr (), (l', ?n + 2))"
    "hooks_of ParamA l' = foreign_hooks ParamA ?l @ [(?n, Gate k (fst (p_shape (matrix_A ?l))) m)]"
    "hooks_of ParamB l' = foreign_hooks ParamB ?l @ [(?n + 1, Gate k (fst (p_shape (matrix_B ?l))) m)]"
    "unhooked l' = unhooked ?l"
    using gate_gradients_run [OF assms(1), of ?l ?n] by blast
  have below: "ids_below ?n ?l" using assms(2,3) by blast
  have F: "foreign_hooks w l' = foreign_hooks w ?l" for w
    using foreign_after_gate [OF assms(1) below l'(1)] .
  have sub: "set (foreign_hooks w ?l) \<subseteq> set (hooks_of w ?l)" for w by (auto simp: foreign_hooks_def)
  then have "\<forall>h \<in> set (foreign_hooks w ?l). fst h < ?n + 2" for w
    using below by (fastforce simp: ids_below_def)
  then have "\<forall>h \<in> set (hooks_of w l'). fst h < ?n + 2" for w
    using l'(2,3) by (cases w) auto
  then have below': "ids_below (?n + 2) l'" by (simp add: ids_below_def)
  let ?a = "(set_layer r l' a)\<lparr>hook_ids := ?n + 2\<rparr>"
  show thesis
  proof (rule that [of ?a])
    show "arm_layer m r a = (Inr (), ?a)" by (simp add: arm_layer_def l'(1))
    show "same_rest a ?a" by (simp add: same_rest_def)
    show "\<forall>s \<in> S. ids_below (hook_ids ?a) (live_layer ?a s)"
      using assms(2) below' by (fastforce simp: ids_below_def)
    show "\<forall>s. unhooked (live_layer ?a s) = unhooked (live_layer a s)" using l'(4) by simp
    show "\<forall>s \<in> S. \<forall>w. foreign_hooks w (live_layer ?a s) = foreign_hooks w (live_layer a s)"
      using F by simp
    show "\<forall>w. \<exists>i. hooks_of w (live_layer ?a r) =
        foreign_hooks w ?l @ [(i, Gate k (fst (p_shape (param_of w ?l))) m)]"
    proof
      fix w
      show "\<exists>i. hooks_of w (live_layer ?a r) =
          foreign_hooks w ?l @ [(i, Gate k (fst (p_shape (param_of w ?l))) m)]"
        using l'(2,3) by (cases w) (simp_all add: param_of_def)
    qed
  qed simp
qed

lemma unhooked_shape:
  "unhooked l = unhooked l' \<Longrightarrow> p_shape (param_of w l) = p_shape (param_of w l')"
  using unhooked_fields(6,7) by (cases w) (auto simp: param_of_def)

lemma arm_layers_run:
  assumes "gate_stride m = Inr k" and "\<forall>s \<in> S. ids_below (hook_ids a) (live_layer a s)" and "set rs \<subseteq> S"
  obtains a' where "sfor rs (arm_layer m) a = (Inr (), a')" "same_rest a a'"
    "\<forall>s. unhooked (live_layer a' s) = unhooked (live_layer a s)"
    "\<forall>s \<in> S. \<forall>w. foreign_hooks w (live_layer a' s) = foreign_hooks w (live_layer a s)"
    "\<forall>s. s \<notin> set rs \<longrightarrow> live_layer a' s = live_layer a s"
    "\<forall>s \<in> set rs. \<forall>w. \<exists>i. hooks_of w (live_layer a' s) =
       foreign_hooks w (live_layer a s) @ [(i, Gate k (fst (p_shape (param_of w (live_layer a s)))) m)]"
proof -
  have "\<exists>a'. sfor rs (arm_layer m) a = (Inr (), a') \<and> same_rest a a' \<and>
    (\<forall>s. unhooked (live_layer a' s) = unhooked (live_layer a s)) \<and>
    (\<forall>s \<in> S. \<forall>w. foreign_hooks w (live_layer a' s) = foreign_hooks w (live_layer a s)) \<and>
    (\<forall>s. s \<notin> set rs \<longrightarrow> live_layer a' s = live_layer a s) \<and>
    (\<forall>s \<in> set rs. \<forall>w. \<exists>i. hooks_of w (live_layer a' s) =
       foreign_hooks w (live_layer a s) @ [(i, Gate k (fst (p_shape (param_of w (live_layer a s)))) m)])"
    using assms(2,3)
  proof (induction rs arbitrary: a)
    case Nil
    show ?case by (simp add: sret_apply same_rest_def)
  next
    case (Cons r rs)
    have "r \<in> S" using Cons.prems by simp
    with assms(1) Cons.prems(1) obtain b where b: "arm_layer m r a = (Inr (), b)" "same_rest a b"
      "\<forall>s \<in> S. ids_below (hook_ids b) (live_layer b s)"
      "\<forall>s. unhooked (live_layer b s) = unhooked (live_layer a s)"
      "\<forall>s \<in> S. \<forall>w. foreign_hooks w (live_layer b s) = foreign_hooks w (live_layer a s)"
      "\<forall>s. s \<noteq> r \<longrightarrow> live_layer b s = live_layer a s"
      "\<forall>w. \<exists>i. hooks_of w (live_layer b r) =
         foreign_hooks w (live_layer a r) @ [(i, Gate k (fst (p_shape (param_of w (live_layer a r)))) m)]"
      by (rule arm_layer_run)
    have "set rs \<subseteq> S" using Cons.prems by simp
    from Cons.IH [OF b(3) this] obtain c where c: "sfor rs (arm_layer m) b = (Inr (), c)" "same_rest b c"
      "\<forall>s. unhooked (live_layer c s) = unhooked (live_layer b s)"
      "\<forall>s \<in> S. \<forall>w. foreign_hooks w (live_layer c s) = foreign_hooks w (live_layer b s)"
      "\<forall>s. s \<notin> set rs \<longrightarrow> live_layer c s = live_layer b s"
      "\<forall>s \<in> set rs. \<forall>w. \<exists>i. hooks_of w (live_layer c s) =
         foreign_hooks w (live_layer b s) @ [(i, Gate k (fst (p_shape (param_of w (live_layer b s)))) m)]"
      by blast
    have shapes: "p_shape (param_of w (live_layer b s)) = p_shape (param_of w (live_layer a s))" for w s
      using b(4) by (intro unhooked_shape) simp
    show ?case
    proof (intro exI [of _ c] conjI ballI allI impI)
      show "sfor (r # rs) (arm_layer m) a = (Inr (), c)" using b(1) c(1) by (simp add: sbind_apply)
      show "same_rest a c" using b(2) c(2) by (simp add: same_rest_def)
      fix s w assume s: "s \<in> set (r # rs)"
      show "\<exists>i. hooks_of w (live_layer c s) =
          foreign_hooks w (live_layer a s) @ [(i, Gate k (fst (p_shape (param_of w (live_layer a s)))) m)]"
      proof (cases "s \<in> set rs")
        case True
        then have "s \<in> S" using Cons.prems(2) by auto
        then have "foreign_hooks w (live_layer b s) = foreign_hooks w (live_layer a s)" using b(5) by simp
        with c(6) True shapes show ?thesis by metis
      next
        case False
        with s have "s = r" by simp
        with False b(7) c(5) show ?thesis by metis
      qed
    qed (use b c in auto)
  qed
  then show thesis using that by blast
qed

lemma disarm_layers_run:
  obtains a' where "sfor rs disarm_layer a = (Inr (), a')" "same_rest a a'" "hook_ids a' = hook_ids a"
    "\<forall>s. live_layer a' s = (if s \<in> set rs then clear_gradient_gate (live_layer a s) else live_layer a s)"
proof -
  have "\<exists>a'. sfor rs disarm_layer a = (Inr (), a') \<and> same_rest a a' \<and> hook_ids a' = hook_ids a \<and>
    (\<forall>s. live_layer a' s = (if s \<in> set rs then clear_gradient_gate (live_layer a s) else live_layer a s))"
  proof (induction rs arbitrary: a)
    case (Cons r rs)
    let ?b = "set_layer r (clear_gradient_gate (live_layer a r)) a"
    from Cons.IH [of ?b] obtain c where "sfor rs disarm_layer ?b = (Inr (), c)" "same_rest ?b c"
      "hook_ids c = hook_ids ?b"
      "\<forall>s. live_layer c s = (if s \<in> set rs then clear_gradient_gate (live_layer ?b s) else live_layer ?b s)"
      by blast
    moreover have "disarm_layer r a = (Inr (), ?b)" by (simp add: disarm_layer_def supd_apply)
    ultimately show ?case by (intro exI [of _ c]) (simp add: sbind_apply same_rest_def)
  qed (simp add: sret_apply same_rest_def)
  then show thesis using that by blast
qed

section \<open>What a call of the training loop touches\<close>

definition touched :: "layer_ref set \<Rightarrow> ('s, 'd, 'o, 'f) app \<Rightarrow> ('s, 'd, 'o, 'f) app \<Rightarrow> bool" where
  "touched refs a a' \<longleftrightarrow>
     manager (session a') = manager (session a) \<and> host (session a') = host (session a) \<and>
     next_ref a' = next_ref a \<and> disk a' = disk a \<and>
     (\<forall>r. same_but_data (unhooked (live_layer a r)) (unhooked (live_layer a' r))) \<and>
     (\<forall>r. r \<notin> refs \<longrightarrow> live_layer a' r = live_layer a r)"

lemma same_but_data_unhooked: "same_but_data l l' \<Longrightarrow> same_but_data (unhooked l) (unhooked l')"
proof -
  assume "same_but_data l l'"
  then obtain x y where "l' = set_data ParamA x (set_data ParamB y l)" by (auto simp: same_but_data_def)
  then have "unhooked l' = set_data ParamA x (set_data ParamB y (unhooked l))"
    by (cases l) (simp add: set_data_def unhooked_def set_hooks_def)
  then show ?thesis by (auto simp: same_but_data_def)
qed

lemma trained_touched: "trained refs a a' \<Longrightarrow> touched refs a a'"
  by (auto simp: trained_def touched_def same_but_data_unhooked)

lemma touched_refl [simp]: "touched refs a a"
  by (simp add: touched_def)

lemma touched_trans: "touched refs a b \<Longrightarrow> touched refs b c \<Longrightarrow> touched refs a c"
  using same_but_data_trans by (fastforce simp: touched_def)

interpretation touched: kept "touched refs" for refs
  by unfold_locales (auto intro: touched_trans)

lemma keeps_touched: "keeps (trained refs) m \<Longrightarrow> keeps (touched refs) m"
  by (simp add: keeps_def trained_touched)

lemma touched_arm:
  assumes r: "r \<in> refs"
  shows "keeps (touched refs) (arm_layer m r)"
  unfolding keeps_def
proof
  fix a
  have "unhooked (fst (snd (gate_gradients m (live_layer a r, hook_ids a)))) = unhooked (live_layer a r)"
  proof (cases "gate_stride m")
    case (Inl e)
    then show ?thesis by (simp add: gate_gradients_error)
  next
    case (Inr k)
    from gate_gradients_run [OF this, of "live_layer a r" "hook_ids a"] show ?thesis by auto
  qed
  with r show "touched refs a (snd (arm_layer m r a))"
    by (auto simp: arm_layer_def touched_def split: prod.split)
qed

lemma touched_disarm: "r \<in> refs \<Longrightarrow> keeps (touched refs) (disarm_layer r)"
  by (simp add: keeps_def disarm_layer_def supd_apply touched_def)

lemma adapter_params_refs: "fst ` set (adapter_params layers) = set (dict_values layers)"
  by (force simp: adapter_params_def)

lemma touched_train:
  "keeps (touched (set (dict_values layers)) :: ('s, 'd, 'o, 'f) app \<Rightarrow> _)
     (train_adapter tops clock emb blocks head layers t steps lr monitor)"
proof -
  let ?S = "set (dict_values layers)"
  have arm: "keeps (touched ?S :: ('s, 'd, 'o, 'f) app \<Rightarrow> _) (with_monitor monitor layers arm_layer)"
    by (cases monitor) (auto simp: with_monitor_def touched.pure intro!: touched.iterate touched_arm)
  have disarm: "keeps (touched ?S :: ('s, 'd, 'o, 'f) app \<Rightarrow> _) (with_monitor monitor layers (\<lambda>_. disarm_layer))"
    by (cases monitor) (auto simp: with_monitor_def touched.pure intro!: touched.iterate touched_disarm)
  show ?thesis
    unfolding train_adapter_def
    by (intro touched.bind touched.cleanup arm disarm keeps_touched trained_optimizer trained_steps)
      (simp_all add: adapter_params_refs)
qed

section \<open>Gates and the temperature script\<close>

lemma run_gate_script:
  assumes "scripted_ok s" and "mon_reader m = scripted_call"
    and "run_hooks (\<lambda>r. (now, r)) [(i, Gate k n m)] g s = (Inr h, s')"
  shows "s' = s\<lparr>script_idx := script_idx s + 1\<rparr> \<and>
    h = (if fgt (scripted_temp s (script_idx s)) (freeze_threshold_c m)
         then map2 mask_row (gate_mask k n) g else g)"
proof -
  let ?hot = "fgt (scripted_temp s (script_idx s)) (freeze_threshold_c m)"
  have "snd (scripted_call s) = s\<lparr>script_idx := script_idx s + 1\<rparr>"
    using assms(1) by (simp add: scripted_call_def scripted_ok_def)
  then have "is_throttling (\<lambda>r. (now, r)) m None s = (Inr ?hot, s\<lparr>script_idx := script_idx s + 1\<rparr>)"
    using scripted.is_throttling_run [OF assms(1,2)] by simp
  with assms(3) show ?thesis
    by (auto simp: sbind_apply sret_apply sraise_apply split: if_splits)
qed

lemma script_moves [simp]:
  "scripted_ok (s\<lparr>script_idx := i\<rparr>) = scripted_ok s"
  "scripted_temp (s\<lparr>script_idx := i\<rparr>) = scripted_temp s"
  by (simp_all add: scripted_ok_def scripted_temp_def fun_eq_iff)

text \<open>The parameters in a list of gradients all carry one gate of the monitor.\<close>

definition all_gated ::
  "'s thermal_monitor \<Rightarrow> int \<Rightarrow> ('s, 'd, 'o, 'f) app \<Rightarrow> ((layer_ref \<times> which_param) \<times> gradient) list \<Rightarrow> bool" where
  "all_gated m k a raw \<longleftrightarrow>
     (\<forall>((r, w), g) \<in> set raw. \<exists>i n. hooks_of w (live_layer a r) = [(i, Gate k n m)])"

lemma run_backward_script:
  fixes a :: "(scripted_reader, 'd, 'o, 'f) app"
  assumes "scripted_ok (device_state a)" and "mon_reader m = scripted_call" and "all_gated m k a raw"
    and "run_backward (\<lambda>r. (now, r)) raw a = (Inr grads, a')"
  shows "a' = a\<lparr>device_state := (device_state a)\<lparr>script_idx := script_idx (device_state a) + length raw\<rparr>\<rparr> \<and>
    length grads = length raw \<and>
    (\<forall>i < length raw. \<not> fgt (scripted_temp (device_state a) (script_idx (device_state a) + i)) (freeze_threshold_c m) \<longrightarrow>
       grads ! i = raw ! i)"
  using assms
proof (induction raw arbitrary: a grads)
  case Nil
  then show ?case by (simp add: sret_apply)
next
  case (Cons p raw)
  obtain r w g where p: "p = ((r, w), g)" by (metis surj_pair)
  obtain i n where hk: "hooks_of w (live_layer a r) = [(i, Gate k n m)]"
    using Cons.prems(3) p by (auto simp: all_gated_def)
  from Cons.prems(4) obtain h s1 hs where run:
    "run_hooks (\<lambda>r. (now, r)) [(i, Gate k n m)] g (device_state a) = (Inr h, s1)"
    "run_backward (\<lambda>r. (now, r)) raw (a\<lparr>device_state := s1\<rparr>) = (Inr hs, a')" "grads = ((r, w), h) # hs"
    by (auto simp: p hk sbind_Inr_iff on_device_def sret_apply simp del: run_hooks.simps split: prod.splits)
  have s1: "s1 = (device_state a)\<lparr>script_idx := script_idx (device_state a) + 1\<rparr>"
    "h = (if fgt (scripted_temp (device_state a) (script_idx (device_state a))) (freeze_threshold_c m)
         then map2 mask_row (gate_mask k n) g else g)"
    using run_gate_script [OF Cons.prems(1,2) run(1)] by auto
  let ?b = "a\<lparr>device_state := s1\<rparr>"
  have "scripted_ok (device_state ?b)" "all_gated m k ?b raw"
    using Cons.prems(1,3) by (auto simp: s1(1) all_gated_def)
  note IH = Cons.IH [OF this(1) Cons.prems(2) this(2) run(2)]
  have "grads ! j = (p # raw) ! j"
    if "j < Suc (length raw)"
      "\<not> fgt (scripted_temp (device_state a) (script_idx (device_state a) + j)) (freeze_threshold_c m)" for j
    using that IH s1 run(3) p by (cases j) auto
  with IH run(3) s1(1) show ?case by auto
qed

lemma train_step_script:
  fixes a :: "(scripted_reader, 'd, 'o, 'f) app"
  assumes s: "scripted_ok (device_state a)" and m: "mon_reader m = scripted_call"
    and raw: "\<And>G raw. graph_blocks G = blocks \<Longrightarrow> tr_gradients tops G = Inr raw \<Longrightarrow> length raw = K \<and> all_gated m k a raw"
    and run: "train_step tops (\<lambda>r. (now, r)) emb blocks head params t a = (Inr loss, a')"
    and refs: "fst ` set params \<subseteq> refs"
  shows "device_state a' = (device_state a)\<lparr>script_idx := script_idx (device_state a) + K\<rparr> \<and> trained refs a a'"
proof
  obtain toks tgts a1 logits rw grads a2 G where steps:
    "synthetic_batch tops (vocab_size t) (batch_size t) (sequence_length t) (task_shift t) a = (Inr (toks, tgts), a1)"
    "model_forward tops emb blocks head toks a1 = (Inr logits, a1)" "graph_blocks G = blocks" "tr_gradients tops G = Inr rw"
    "run_backward (\<lambda>r. (now, r)) rw a1 = (Inr grads, a2)" "a' = fold (adam_step tops grads) params a2"
    using run by (force simp: train_step_def sbind_Inr_iff slift_apply supd_apply sret_apply
        model_forward_def case_prod_unfold)
  have a1: "session a1 = session a" "device_state a1 = device_state a"
    using steps(1)
    by (auto simp: synthetic_batch_def sbind_Inr_iff on_generator_def sret_apply sraise_apply
        split: prod.splits if_splits)
  have "length rw = K" "all_gated m k a rw" using raw [OF steps(3,4)] by simp_all
  then have rw: "length rw = K" "all_gated m k a1 rw" by (simp_all add: all_gated_def a1)
  have "scripted_ok (device_state a1)" using s by (simp add: a1)
  from run_backward_script [OF this m rw(2) steps(5)] rw(1)
  have "device_state a2 = (device_state a)\<lparr>script_idx := script_idx (device_state a) + K\<rparr>"
    by (simp add: a1)
  moreover have "device_state (fold (adam_step tops grads) params b) = device_state b"
    for b :: "(scripted_reader, 'd, 'o, 'f) app"
    by (induction params arbitrary: b) (simp_all add: adam_step_def split: option.split prod.split)
  ultimately show "device_state a' = (device_state a)\<lparr>script_idx := script_idx (device_state a) + K\<rparr>"
    using steps(6) by simp
  show "trained refs a a'" using keepsD [OF trained_step [OF refs] run] .
qed

lemma train_steps_script:
  fixes a :: "(scripted_reader, 'd, 'o, 'f) app"
  assumes "scripted_ok (device_state a)" and m: "mon_reader m = scripted_call"
    and "\<And>G raw. graph_blocks G = blocks \<Longrightarrow> tr_gradients tops G = Inr raw \<Longrightarrow> length raw = K \<and> all_gated m k a raw"
    and "train_steps n tops (\<lambda>r. (now, r)) emb blocks head params t a = (Inr losses, a')"
    and refs: "fst ` set params \<subseteq> refs"
  shows "length losses = n \<and>
    device_state a' = (device_state a)\<lparr>script_idx := script_idx (device_state a) + n * K\<rparr>"
  using assms(1,3,4)
proof (induction n arbitrary: a losses)
  case 0
  then show ?case by (simp add: sret_apply)
next
  case (Suc n)
  from Suc.prems(3) obtain l b ls where run: "train_step tops (\<lambda>r. (now, r)) emb blocks head params t a = (Inr l, b)"
    "train_steps n tops (\<lambda>r. (now, r)) emb blocks head params t b = (Inr ls, a')" "losses = l # ls"
    by (auto simp: sbind_Inr_iff sret_apply)
  from train_step_script [OF Suc.prems(1) m Suc.prems(2) run(1) refs]
  have b: "device_state b = (device_state a)\<lparr>script_idx := script_idx (device_state a) + K\<rparr>"
    and tr: "trained refs a b" by simp_all
  have "hooks_of w (live_layer b r) = hooks_of w (live_layer a r)" for w r
    using tr same_but_data_fields(1) by (auto simp: trained_def)
  then have "all_gated m k b raw = all_gated m k a raw" for raw
    by (simp add: all_gated_def)
  then have "length ls = n \<and>
      device_state a' = (device_state b)\<lparr>script_idx := script_idx (device_state b) + n * K\<rparr>"
    using Suc.prems(1,2) b by (intro Suc.IH [OF _ _ run(2)]) simp_all
  with run(3) b show ?case by simp
qed

section \<open>An example program\<close>

definition example_train_ops :: "(scripted_reader, matrix, unit) train_ops" where
  "example_train_ops =
     \<lparr>tr_randint = (\<lambda>v b s. sret (replicate b (replicate s (v - 1)))), tr_embed = (\<lambda>_ _. Inr ((1, 4), \<lambda>_ _. 0)),
      tr_torch = example_ops, tr_modules = example_block_ops, tr_cross_entropy = (\<lambda>x _. Inr x),
      tr_gradients = (\<lambda>_. Inr [((0, ParamB), replicate 3 [Fin 1]), ((0, ParamA), replicate 6 [Fin 1])]),
      tr_adam_init = (\<lambda>_ _. Inr ()), tr_adam = (\<lambda>p g d opt. (d, opt)), tr_item = (\<lambda>_. Fin 0)\<rparr>"

definition example_app :: "(scripted_reader, matrix, unit, unit) app" where
  "example_app = \<lparr>session = example_session, hook_ids = 7,
     device_state = \<lparr>script = [Fin 80, Fin 60], script_idx = 0\<rparr>, optimizer = (), generator = 0, next_ref = 1, disk = ()\<rparr>"

definition example_embedding :: "(scripted_reader, matrix) parameter" where
  "example_embedding = new_parameter (12, 4) example_dtype ((12, 4), \<lambda>i j. of_nat (i + j))"

definition example_task :: task where
  "example_task = \<lparr>vocab_size = 12, task_shift = 1, batch_size = 1, sequence_length = 2\<rparr>"

lemma example_backward:
  fixes a :: "(scripted_reader, matrix, unit, unit) app"
  assumes "scripted_ok (device_state a)"
    and "\<exists>i. hooks_of ParamA (live_layer a 0) = [(i, Gate 5 6 example_monitor)]"
    and "\<exists>i. hooks_of ParamB (live_layer a 0) = [(i, Gate 5 3 example_monitor)]"
  shows "\<exists>grads a'. run_backward (\<lambda>r. (Fin 0, r))
    [((0, ParamB), replicate 3 [Fin 1]), ((0, ParamA), replicate 6 [Fin 1])] a = (Inr grads, a')"
proof -
  have one: "\<exists>h s'. run_hooks (\<lambda>r. (Fin 0, r)) [(i, Gate 5 n example_monitor)] (replicate n [Fin 1]) s = (Inr h, s') \<and>
      scripted_ok s'" if "scripted_ok s" for s i n
  proof -
    have m: "mon_reader example_monitor = scripted_call" by (simp add: example_monitor_def)
    have "scripted_ok (snd (scripted_call s))" using that by (simp add: scripted_call_def scripted_ok_def)
    with scripted.is_throttling_run [OF that m, of "Fin 0"] show ?thesis
      by (simp add: sbind_apply sret_apply)
  qed
  obtain i j where h: "hooks_of ParamA (live_layer a 0) = [(i, Gate 5 6 example_monitor)]"
    "hooks_of ParamB (live_layer a 0) = [(j, Gate 5 3 example_monitor)]" using assms by blast
  obtain h1 s1 where 1: "run_hooks (\<lambda>r. (Fin 0, r)) [(j, Gate 5 3 example_monitor)] (replicate 3 [Fin 1]) (device_state a) = (Inr h1, s1)"
    "scripted_ok s1" using one [OF assms(1)] by blast
  obtain h2 s2 where 2: "run_hooks (\<lambda>r. (Fin 0, r)) [(i, Gate 5 6 example_monitor)] (replicate 6 [Fin 1]) s1 = (Inr h2, s2)"
    using one [OF 1(2)] by blast
  show ?thesis using 1(1) 2
    by (simp add: h sbind_apply on_device_def sret_apply del: run_hooks.simps replicate.simps)
qed

text \<open>One token position of width 4 through the head, which is the example's linear layer.\<close>

lemma example_forward: "t_base example_ops example_linear ((Suc 0, 4), \<lambda>_ _. 0) = Inr ((Suc 0, 3), \<lambda>_ _. 0)"
  by (simp add: example_ops_def example_matmul_def example_transpose_def example_linear_def new_parameter_def)

lemma example_steps:
  fixes a :: "(scripted_reader, matrix, unit, unit) app"
  assumes "scripted_ok (device_state a)"
    and "\<exists>i. hooks_of ParamA (live_layer a 0) = [(i, Gate 5 6 example_monitor)]"
    and "\<exists>i. hooks_of ParamB (live_layer a 0) = [(i, Gate 5 3 example_monitor)]"
  shows "\<exists>losses a'. train_steps n example_train_ops (\<lambda>r. (Fin 0, r)) example_embedding [] example_linear [(0, ParamA), (0, ParamB)]
    example_task a = (Inr losses, a')"
  using assms
proof (induction n arbitrary: a)
  case (Suc n)
  let ?raw = "[((0, ParamB), replicate 3 [Fin 1]), ((0, ParamA), replicate 6 [Fin 1])] :: ((layer_ref \<times> which_param) \<times> gradient) list"
  have wa: "a\<lparr>generator := generator a\<rparr> = a" by simp
  obtain grads b where b: "run_backward (\<lambda>r. (Fin 0, r)) ?raw a = (Inr grads, b)"
    using example_backward [OF Suc.prems] by blast
  have "\<exists>l c. train_step example_train_ops (\<lambda>r. (Fin 0, r)) example_embedding [] example_linear [(0, ParamA), (0, ParamB)] example_task a = (Inr l, c)"
    using b
    by (simp add: train_step_def synthetic_batch_def on_generator_def wa model_forward_def sbind_apply slift_apply
        sret_apply supd_apply example_train_ops_def example_task_def example_forward del: replicate.simps run_backward.simps)
  then obtain l c where c: "train_step example_train_ops (\<lambda>r. (Fin 0, r)) example_embedding [] example_linear [(0, ParamA), (0, ParamB)] example_task a = (Inr l, c)"
    by blast
  have m: "mon_reader example_monitor = scripted_call" by (simp add: example_monitor_def)
  have "length raw = 2 \<and> all_gated example_monitor 5 a raw"
    if "tr_gradients example_train_ops G = Inr raw" for G raw
    using that Suc.prems(2,3) by (auto simp: example_train_ops_def all_gated_def)
  from train_step_script [OF Suc.prems(1) m this c subset_refl]
  have "scripted_ok (device_state c)" "\<forall>w. hooks_of w (live_layer c 0) = hooks_of w (live_layer a 0)"
    using Suc.prems(1) by (auto simp: trained_def same_but_data_fields)
  with Suc.IH [of c] Suc.prems(2,3) obtain losses d where
    "train_steps n example_train_ops (\<lambda>r. (Fin 0, r)) example_embedding [] example_linear [(0, ParamA), (0, ParamB)] example_task c = (Inr losses, d)"
    by auto
  with c show ?case by (simp add: sbind_apply sret_apply)
qed (simp add: sret_apply)

lemma example_fresh:
  "\<forall>r \<in> set (dict_values [(''q'', 0)]). ids_below (hook_ids example_app) (live_layer example_app r) \<and>
     (\<forall>w. foreign_hooks w (live_layer example_app r) = [])"
  by (simp add: dict_values_def example_app_def example_session_def ids_below_def example_layer_facts)

lemma example_training:
  "\<exists>losses a'. train_adapter example_train_ops (\<lambda>r. (Fin 0, r)) example_embedding [] example_linear [(''q'', 0)] example_task n (Fin 1)
     (Some example_monitor) example_app = (Inr losses, a')"
proof -
  have "\<forall>s \<in> {0}. ids_below (hook_ids example_app) (live_layer example_app s)"
    using example_fresh by (simp add: dict_values_def)
  then obtain b where b: "sfor [0] (arm_layer example_monitor) example_app = (Inr (), b)" "same_rest example_app b"
    "\<forall>s \<in> set [0]. \<forall>w. \<exists>i. hooks_of w (live_layer b s) = foreign_hooks w (live_layer example_app s) @
       [(i, Gate 5 (fst (p_shape (param_of w (live_layer example_app s)))) example_monitor)]"
    by (rule arm_layers_run [OF example_stride, where rs = "[0]"]) simp_all
  let ?c = "b\<lparr>optimizer := ()\<rparr>"
  have h: "\<exists>i. hooks_of w (live_layer b 0) =
      [(i, Gate 5 (fst (p_shape (param_of w (live_layer example_app 0)))) example_monitor)]" for w
    using b(3) example_fresh by (simp add: dict_values_def)
  have hooks: "\<exists>i. hooks_of ParamA (live_layer ?c 0) = [(i, Gate 5 6 example_monitor)]"
    "\<exists>i. hooks_of ParamB (live_layer ?c 0) = [(i, Gate 5 3 example_monitor)]"
    using h [of ParamA] h [of ParamB]
    by (simp_all add: param_of_def example_app_def example_session_def example_layer_facts)
  have ok: "scripted_ok (device_state ?c)" using b(2) by (simp add: same_rest_def example_app_def scripted_ok_def)
  obtain losses d where d: "train_steps n example_train_ops (\<lambda>r. (Fin 0, r)) example_embedding [] example_linear [(0, ParamA), (0, ParamB)]
      example_task ?c = (Inr losses, d)"
    using example_steps [OF ok hooks] by blast
  obtain e where e: "sfor [0] disarm_layer d = (Inr (), e)" by (rule disarm_layers_run)
  have "tr_adam_init example_train_ops ps lr = Inr ()" for ps lr by (simp add: example_train_ops_def)
  with b(1) d e show ?thesis
    by (simp add: train_adapter_def with_monitor_def sbind_apply new_optimizer_def slift_apply supd_apply
        try_finally_def dict_values_def adapter_params_def del: sfor.simps)
qed

section \<open>Properties of the training loop\<close>

text \<open>
  C9. A call of the training loop with a monitor, once its layers are armed. If the optimizer can be
  constructed, then whatever happens in the loop, return or exception, no gate hook is left
  behind: the hooks of the adapter's layers are those of others that were there before, in their
  order, also when a layer was armed already or appears under two names. If the constructor of
  the optimizer raises, which happens before the \<^verbatim>\<open>try\<close>, the call raises the same exception and every
  layer of the adapter stays armed, with one gate of the monitor on each matrix behind the hooks
  of others.
\<close>

theorem training_restores_hooks:
  assumes "gate_stride m = Inr k"
    and "\<forall>r \<in> set (dict_values layers). ids_below (hook_ids a) (live_layer a r)"
    and "train_adapter tops clock emb blocks head layers t steps lr (Some m) a = (res, a')"
  shows "case tr_adam_init tops (adapter_params layers) lr of
      Inr opt \<Rightarrow> (\<forall>r \<in> set (dict_values layers). gate_handles (live_layer a' r) = [] \<and>
        (\<forall>w. hooks_of w (live_layer a' r) = foreign_hooks w (live_layer a r)))
    | Inl e \<Rightarrow> res = Inl e \<and> (\<forall>r \<in> set (dict_values layers). \<forall>w. \<exists>i. hooks_of w (live_layer a' r) =
        foreign_hooks w (live_layer a r) @ [(i, Gate k (fst (p_shape (param_of w (live_layer a r)))) m)])"
proof -
  let ?rs = "dict_values layers"
  obtain b where b: "sfor ?rs (arm_layer m) a = (Inr (), b)"
    "\<forall>s \<in> set ?rs. \<forall>w. foreign_hooks w (live_layer b s) = foreign_hooks w (live_layer a s)"
    "\<forall>s \<in> set ?rs. \<forall>w. \<exists>i. hooks_of w (live_layer b s) =
       foreign_hooks w (live_layer a s) @ [(i, Gate k (fst (p_shape (param_of w (live_layer a s)))) m)]"
    by (rule arm_layers_run [OF assms(1,2) subset_refl])
  show ?thesis
  proof (cases "tr_adam_init tops (adapter_params layers) lr")
    case (Inl e)
    then have "train_adapter tops clock emb blocks head layers t steps lr (Some m) a = (Inl e, b)"
      by (simp add: train_adapter_def with_monitor_def sbind_apply b(1) new_optimizer_def slift_apply)
    with assms(3) Inl b(3) show ?thesis by simp
  next
    case (Inr opt)
    let ?c = "b\<lparr>optimizer := opt\<rparr>"
    have c: "new_optimizer tops (adapter_params layers) lr b = (Inr (), ?c)"
      using Inr by (simp add: new_optimizer_def sbind_apply slift_apply supd_apply)
    obtain r d where d: "train_steps steps tops clock emb blocks head (adapter_params layers) t ?c = (r, d)"
      by (metis surj_pair)
    have "trained (set ?rs) ?c d"
      using keepsD [OF trained_steps d] by (simp add: adapter_params_refs)
    then have hooks: "foreign_hooks w (live_layer d s) = foreign_hooks w (live_layer b s)" for w s
      by (simp add: trained_def same_but_data_fields)
    obtain e where e: "sfor ?rs disarm_layer d = (Inr (), e)"
      "\<forall>s. live_layer e s = (if s \<in> set ?rs then clear_gradient_gate (live_layer d s) else live_layer d s)"
      by (rule disarm_layers_run)
    have "train_adapter tops clock emb blocks head layers t steps lr (Some m) a = (r, e)"
      by (simp add: train_adapter_def with_monitor_def sbind_apply b(1) c try_finally_def d e(1))
    with assms(3) have "a' = e" by simp
    with e(2) hooks b(2) Inr show ?thesis by simp
  qed
qed

theorem training_restores_hooks_witness:
  "(\<exists>res a'. train_adapter example_train_ops (\<lambda>r. (Fin 0, r)) example_embedding [] example_linear [(''q'', 0)] example_task 3 (Fin 1)
       (Some example_monitor) example_app = (res, a') \<and>
     gate_handles (live_layer a' 0) = [] \<and> hooks_of ParamA (live_layer a' 0) = []) \<and>
   (\<exists>a'. train_adapter (example_train_ops\<lparr>tr_adam_init := \<lambda>_ _. Inl ValueError\<rparr>) (\<lambda>r. (Fin 0, r)) example_embedding []
       example_linear [(''q'', 0)] example_task 3 (Fin 1) (Some example_monitor) example_app = (Inl ValueError, a') \<and>
     hooks_of ParamA (live_layer a' 0) \<noteq> [])"
proof
  let ?bad = "example_train_ops\<lparr>tr_adam_init := \<lambda>_ _. Inl ValueError\<rparr>"
  have below: "\<forall>r \<in> set (dict_values [(''q'', 0)]). ids_below (hook_ids example_app) (live_layer example_app r)"
    using example_fresh by blast
  note C = training_restores_hooks [OF example_stride below]
  obtain res a' where run: "train_adapter example_train_ops (\<lambda>r. (Fin 0, r)) example_embedding [] example_linear [(''q'', 0)]
      example_task 3 (Fin 1) (Some example_monitor) example_app = (res, a')"
    by (metis surj_pair)
  have "tr_adam_init example_train_ops (adapter_params [(''q'', 0)]) (Fin 1) = Inr ()"
    by (simp add: example_train_ops_def)
  with C [OF run] have "\<forall>r \<in> set (dict_values [(''q'', 0)]). gate_handles (live_layer a' r) = [] \<and>
      (\<forall>w. hooks_of w (live_layer a' r) = foreign_hooks w (live_layer example_app r))" by simp
  with run example_fresh show "\<exists>res a'. train_adapter example_train_ops (\<lambda>r. (Fin 0, r)) example_embedding []
       example_linear [(''q'', 0)] example_task 3 (Fin 1) (Some example_monitor) example_app = (res, a') \<and>
     gate_handles (live_layer a' 0) = [] \<and> hooks_of ParamA (live_layer a' 0) = []"
    by (auto simp: dict_values_def)
  obtain res2 a2 where bad: "train_adapter ?bad (\<lambda>r. (Fin 0, r)) example_embedding [] example_linear [(''q'', 0)]
      example_task 3 (Fin 1) (Some example_monitor) example_app = (res2, a2)"
    by (metis surj_pair)
  have "tr_adam_init ?bad (adapter_params [(''q'', 0)]) (Fin 1) = Inl ValueError" by simp
  with C [OF bad] have "res2 = Inl ValueError \<and> (\<forall>r \<in> set (dict_values [(''q'', 0)]). \<forall>w. \<exists>i. hooks_of w (live_layer a2 r) =
      foreign_hooks w (live_layer example_app r) @
        [(i, Gate 5 (fst (p_shape (param_of w (live_layer example_app r)))) example_monitor)])" by simp
  then have "res2 = Inl ValueError" "hooks_of ParamA (live_layer a2 0) \<noteq> []"
    by (auto simp: dict_values_def) (metis append_is_Nil_conv not_Cons_self2)
  with bad show "\<exists>a'. train_adapter ?bad (\<lambda>r. (Fin 0, r)) example_embedding [] example_linear [(''q'', 0)]
      example_task 3 (Fin 1) (Some example_monitor) example_app = (Inl ValueError, a') \<and>
     hooks_of ParamA (live_layer a' 0) \<noteq> []" by blast
qed

text \<open>
  C11. Training never touches the frozen base or another adapter: a call of the training loop, with or
  without a monitor, whether it returns or raises, changes no layer outside the adapter, and of
  the adapter's own layers nothing but the elements of their two matrices and hooks; the
  manager's registry, its byte counts and the native memory stay as they were.
\<close>

theorem training_moves_only_adapter:
  assumes "train_adapter tops clock emb blocks head layers t steps lr monitor a = (res, a')"
  shows "manager (session a') = manager (session a) \<and> host (session a') = host (session a) \<and>
    resident_bytes (session a') = resident_bytes (session a) \<and>
    (\<forall>r. same_but_data (unhooked (live_layer a r)) (unhooked (live_layer a' r))) \<and>
    (\<forall>r. r \<notin> set (dict_values layers) \<longrightarrow> live_layer a' r = live_layer a r)"
proof -
  have t: "touched (set (dict_values layers)) a a'" using keepsD [OF touched_train assms] .
  have "parameter_bytes (live_layer a' r) = parameter_bytes (live_layer a r)" for r
  proof -
    have "parameter_bytes (unhooked l) = parameter_bytes l" for l :: "('a, 'b) plugin_layer"
      by (rule unhooked_fields) (simp add: unhooked_def set_hooks_def)
    then show ?thesis
      using same_but_data_fields(4) [of "unhooked (live_layer a r)" "unhooked (live_layer a' r)"] t
      by (simp add: touched_def)
  qed
  then have "resident_bytes (session a') = resident_bytes (session a)"
    using t by (intro resident_bytes_cong) (simp_all add: touched_def)
  with t show ?thesis by (simp add: touched_def)
qed

theorem training_moves_only_adapter_witness:
  "\<exists>res a'. train_adapter example_train_ops (\<lambda>r. (Fin 0, r)) example_embedding [] example_linear [(''q'', 0)] example_task 3 (Fin 1)
       None example_app = (res, a') \<and> live_layer a' 5 = example_layer"
proof -
  obtain res a' where run: "train_adapter example_train_ops (\<lambda>r. (Fin 0, r)) example_embedding [] example_linear [(''q'', 0)] example_task 3 (Fin 1)
      None example_app = (res, a')"
    by (metis surj_pair)
  from training_moves_only_adapter [OF this] have "live_layer a' 5 = live_layer example_app 5"
    by (simp add: dict_values_def)
  with run show ?thesis by (simp add: example_app_def example_session_def)
qed



text \<open>
  C10. Swapping adapters back restores the model: after the second adapter was plugged in over the
  first and a training call on it returned or raised, plugging the first one in again gives the
  function of inputs that the blocks computed with it before, for every input.
\<close>

theorem hot_swap_restores_model:
  assumes "set (dict_keys layers_b) \<subseteq> set (dict_keys layers_a)"
    and "set (dict_values layers_a) \<inter> set (dict_values layers_b) = {}"
    and "\<forall>blk \<in> set blocks. \<forall>name r. dict_get (sublayers blk) name = Some (Adapted r) \<longrightarrow>
      r \<notin> set (dict_values layers_b)"
    and "train_adapter tops clock emb (plug_in (plug_in blocks layers_a) layers_b) head layers_b t steps lr monitor a = (res, a')"
  shows "run_blocks ops bo (layer_at (session a')) (plug_in (plug_in (plug_in blocks layers_a) layers_b) layers_a) x =
    run_blocks ops bo (layer_at (session a)) (plug_in blocks layers_a) x"
proof -
  have t: "touched (set (dict_values layers_b)) a a'" using keepsD [OF touched_train assms(4)] .
  have again: "dict_get layers_b key = None" if "dict_get layers_a key = None" for key
    using that assms(1) by (auto simp: dict_keys_get)
  have live: "live_layer a' r = live_layer a r" if "r \<in> set (dict_values layers_a)" for r
    using that assms(2) t by (auto simp: touched_def)
  have "r \<in> set (dict_values layers_a)" if "dict_get layers_a key = Some r" for key r
    using that by (force simp: dict_get_def dict_values_def dest: map_of_SomeD)
  note live = live [OF this]
  have old: "live_layer a' r = live_layer a r"
    if "i < length blocks" "dict_get (sublayers (blocks ! i)) name = Some (Adapted r)" for i name r
    using that assms(3) t nth_mem by (fastforce simp: touched_def)
  have "list_all2 (same_blocks ops (live_layer a') (live_layer a))
      (plug_in (plug_in (plug_in blocks layers_a) layers_b) layers_a) (plug_in blocks layers_a)"
  proof (rule plug_in_same)
    fix i name
    assume "i < length (plug_in (plug_in blocks layers_a) layers_b)"
    then have i: "i < length blocks" by (simp add: plug_in_def)
    let ?A = "plug_names i layers_a adapted_sublayers (blocks ! i)"
    have "dict_get (sublayers (plug_names i layers_a adapted_sublayers (plug_names i layers_b adapted_sublayers ?A))) name =
        dict_get (sublayers ?A) name"
      using again by (auto simp: plug_names_get split: option.split)
    moreover have "live_layer a' r = live_layer a r" if "dict_get (sublayers ?A) name = Some (Adapted r)" for r
      using that live old [OF i] by (auto simp: plug_names_get split: if_splits option.splits)
    ultimately show "apply_sublayer ops (live_layer a') (plug_names i layers_a adapted_sublayers
        (plug_in (plug_in blocks layers_a) layers_b ! i)) name =
      apply_sublayer ops (live_layer a) (plug_in blocks layers_a ! i) name"
      using i by (auto simp: plug_in_def nth_plug_blocks apply_sublayer_def fun_eq_iff
          split: option.split submodule.split)
  qed (auto simp: plug_in_def nth_plug_blocks plug_names_sizes)
  from run_blocks_same [OF this] show ?thesis .
qed

theorem hot_swap_restores_model_witness:
  "\<exists>emb blocks head w' res a'.
     build_frozen_base example_mk example_embed 12 4 2 8 1 () = (Inr (emb, blocks, head), w') \<and>
     train_adapter example_train_ops (\<lambda>r. (Fin 0, r)) emb (plug_in (plug_in blocks [(''block0.fc1'', 1)]) [(''block0.fc1'', 0)]) head
       [(''block0.fc1'', 0)] example_task 3 (Fin 1) None example_app = (res, a') \<and>
     run_blocks example_ops example_block_ops (layer_at (session a')) (plug_in (plug_in (plug_in blocks [(''block0.fc1'', 1)])
       [(''block0.fc1'', 0)]) [(''block0.fc1'', 1)]) ((2, 4), \<lambda>_ _. 1) =
     run_blocks example_ops example_block_ops (layer_at (session example_app)) (plug_in blocks [(''block0.fc1'', 1)]) ((2, 4), \<lambda>_ _. 1)"
proof -
  obtain emb blocks head w' where b: "build_frozen_base example_mk example_embed 12 4 2 8 1 () = (Inr (emb, blocks, head), w')"
    by (rule example_base)
  obtain res a' where run: "train_adapter example_train_ops (\<lambda>r. (Fin 0, r)) emb
      (plug_in (plug_in blocks [(''block0.fc1'', 1)]) [(''block0.fc1'', 0)]) head [(''block0.fc1'', 0)]
      example_task 3 (Fin 1) None example_app = (res, a')"
    by (metis surj_pair)
  have "dict_get (sublayers blk) name \<noteq> Some (Adapted r)" if mem: "blk \<in> set blocks" for blk name r
  proof -
    obtain i where "i < length blocks" "blk = blocks ! i" using mem unfolding in_set_conv_nth by blast
    then have "fresh_block 4 2 blk" using built_fresh [OF b] by simp
    then show ?thesis by (force simp: fresh_block_def dict_get_def dict_values_def dest: map_of_SomeD)
  qed
  then have "run_blocks example_ops example_block_ops (layer_at (session a')) (plug_in (plug_in (plug_in blocks [(''block0.fc1'', 1)])
       [(''block0.fc1'', 0)]) [(''block0.fc1'', 1)]) ((2, 4), \<lambda>_ _. 1) =
     run_blocks example_ops example_block_ops (layer_at (session example_app)) (plug_in blocks [(''block0.fc1'', 1)]) ((2, 4), \<lambda>_ _. 1)"
    using hot_swap_restores_model [OF _ _ _ run, of example_ops example_block_ops "((2, 4), \<lambda>_ _. 1)"]
    by (simp add: dict_keys_def dict_values_def)
  with b run show ?thesis by blast
qed

end
