(* ===== verification/Shapes.thy ===== *)
theory Shapes
  imports Transformer
begin

text \<open>
  Type safety of the model of \<^verbatim>\<open>src/examples/e2e_training.py\<close>: a tensor has a type and a shape, and a
  model whose layers fit together never raises on inputs of the right shape. What the tensor
  operations do to types and shapes is their documented behaviour, named in \<open>tensor_laws\<close>; what
  it means that layers, adapters and blocks fit together is \<open>layer_typed\<close> and \<open>block_typed\<close>. The
  lemmas go up level by level: a layer, a sublayer of a block, attention, a block, the model.
\<close>

section \<open>Typed tensors\<close>

text \<open>
  The operations, the shape of a tensor, the linear modules that \<^verbatim>\<open>nn.Linear\<close> builds (their bias, if
  any, fits their weight), and the type of the model.
\<close>

record ('s, 'd) typing =
  ty_torch :: "('s, 'd) torch_ops"
  ty_modules :: "'d block_ops"
  ty_shape :: "'d \<Rightarrow> nat list"
  ty_linear :: "('s, 'd) linear \<Rightarrow> bool"
  ty_dtype :: dtype

definition has :: "('s, 'd) typing \<Rightarrow> dtype \<Rightarrow> nat list \<Rightarrow> 'd \<Rightarrow> bool" where
  "has T dt sh x \<longleftrightarrow> t_dtype (ty_torch T) x = dt \<and> ty_shape T x = sh"

definition layer_laws :: "('s, 'd) typing \<Rightarrow> bool" where
  "layer_laws T \<longleftrightarrow> (let ops = ty_torch T in
     (\<forall>l. ty_linear T l \<longrightarrow> ty_linear T (freeze_linear l)) \<and>
     (\<forall>l o_dim i_dim ls x. ty_linear T l \<and> p_dtype (weight l) = ty_dtype T \<and> p_shape (weight l) = (o_dim, i_dim) \<and>
        has T (ty_dtype T) (ls @ [i_dim]) x \<longrightarrow>
        (\<exists>y. t_base ops l x = Inr y \<and> has T (ty_dtype T) (ls @ [o_dim]) y)) \<and>
     (\<forall>dt dt' sh x. has T dt sh x \<longrightarrow> has T dt' sh (t_to ops dt' x)) \<and>
     (\<forall>dt m n x. has T dt [m, n] x \<longrightarrow> has T dt [n, m] (t_transpose ops x)) \<and>
     (\<forall>dt ls k n x y. has T dt (ls @ [k]) x \<and> has T dt [k, n] y \<longrightarrow>
        (\<exists>z. t_matmul ops x y = Inr z \<and> has T dt (ls @ [n]) z)) \<and>
     (\<forall>dt sh x c. has T dt sh x \<longrightarrow> has T dt sh (t_scale ops x c)) \<and>
     (\<forall>dt sh x y. has T dt sh x \<and> has T dt sh y \<longrightarrow> (\<exists>z. t_add ops x y = Inr z \<and> has T dt sh z)) \<and>
     (\<forall>dt m n. has T dt [m, n] (t_empty ops (m, n) dt) \<and> has T dt [m, n] (t_zeros ops (m, n) dt)) \<and>
     (\<forall>dt sh x g. has T dt sh x \<longrightarrow> has T dt sh (fst (t_kaiming_uniform ops g x)) \<and> has T dt sh (t_zero_fill ops x)))"

definition module_laws :: "('s, 'd) typing \<Rightarrow> bool" where
  "module_laws T \<longleftrightarrow> (let bo = ty_modules T; dt = ty_dtype T in
     (\<forall>ls d x. has T dt (ls @ [d]) x \<longrightarrow> (\<exists>y. bo_norm bo (int d) x = Inr y \<and> has T dt (ls @ [d]) y)) \<and>
     (\<forall>b s d x. has T dt [b, s, d] x \<longrightarrow> bo_shape bo x = Inr (b, s)) \<and>
     (\<forall>b s d h e x. has T dt [b, s, d] x \<and> 0 < h \<and> 0 < e \<and> h * e = int d \<longrightarrow>
        (\<exists>y. bo_heads bo (b, s) h e x = Inr y \<and> has T dt [b, nat h, s, nat e] y)) \<and>
     (\<forall>b h s e q k. has T dt [b, h, s, e] q \<and> has T dt [b, h, s, e] k \<longrightarrow>
        (\<exists>y. bo_scores bo q k = Inr y \<and> has T dt [b, h, s, s] y)) \<and>
     (\<forall>sh x c. has T dt sh x \<longrightarrow> has T dt sh (bo_div bo x c)) \<and>
     (\<forall>sh x. has T dt sh x \<longrightarrow> has T dt sh (bo_softmax bo x) \<and> has T dt sh (bo_gelu bo x)) \<and>
     (\<forall>b h s e w v. has T dt [b, h, s, s] w \<and> has T dt [b, h, s, e] v \<longrightarrow>
        (\<exists>y. bo_matmul bo w v = Inr y \<and> has T dt [b, h, s, e] y)) \<and>
     (\<forall>b h s e x. has T dt [b, h, s, e] x \<longrightarrow>
        (\<exists>y. bo_merge bo (b, s) (int (h * e)) x = Inr y \<and> has T dt [b, s, h * e] y)))"

definition tensor_laws :: "('s, 'd) typing \<Rightarrow> bool" where
  "tensor_laws T \<longleftrightarrow> layer_laws T \<and> module_laws T"

text \<open>The laws, one by one.\<close>

lemma layer_lawsD:
  assumes "layer_laws T"
  shows "ty_linear T l \<Longrightarrow> ty_linear T (freeze_linear l)"
    "ty_linear T l \<Longrightarrow> p_dtype (weight l) = ty_dtype T \<Longrightarrow> p_shape (weight l) = (o_dim, i_dim) \<Longrightarrow>
      has T (ty_dtype T) (ls @ [i_dim]) x \<Longrightarrow>
      \<exists>y. t_base (ty_torch T) l x = Inr y \<and> has T (ty_dtype T) (ls @ [o_dim]) y"
    "has T dt sh x \<Longrightarrow> has T dt' sh (t_to (ty_torch T) dt' x)"
    "has T dt [m, n] x \<Longrightarrow> has T dt [n, m] (t_transpose (ty_torch T) x)"
    "has T dt (ls @ [k]) x \<Longrightarrow> has T dt [k, n] y \<Longrightarrow>
      \<exists>z. t_matmul (ty_torch T) x y = Inr z \<and> has T dt (ls @ [n]) z"
    "has T dt sh x \<Longrightarrow> has T dt sh (t_scale (ty_torch T) x c)"
    "has T dt sh x \<Longrightarrow> has T dt sh y \<Longrightarrow> \<exists>z. t_add (ty_torch T) x y = Inr z \<and> has T dt sh z"
    "has T dt [m, n] (t_empty (ty_torch T) (m, n) dt)" "has T dt [m, n] (t_zeros (ty_torch T) (m, n) dt)"
    "has T dt sh x \<Longrightarrow> has T dt sh (fst (t_kaiming_uniform (ty_torch T) g x))"
    "has T dt sh x \<Longrightarrow> has T dt sh (t_zero_fill (ty_torch T) x)"
  using assms unfolding layer_laws_def Let_def by - ((elim conjE, blast) | (elim conjE, simp))+

lemma module_lawsD:
  assumes "module_laws T"
  shows "has T (ty_dtype T) (ls @ [d]) x \<Longrightarrow>
      \<exists>y. bo_norm (ty_modules T) (int d) x = Inr y \<and> has T (ty_dtype T) (ls @ [d]) y"
    "has T (ty_dtype T) [b, s, d] x \<Longrightarrow> bo_shape (ty_modules T) x = Inr (b, s)"
    "has T (ty_dtype T) [b, s, d] x \<Longrightarrow> 0 < h \<Longrightarrow> 0 < e \<Longrightarrow> h * e = int d \<Longrightarrow>
      \<exists>y. bo_heads (ty_modules T) (b, s) h e x = Inr y \<and> has T (ty_dtype T) [b, nat h, s, nat e] y"
    "has T (ty_dtype T) [b, k, s, n] q \<Longrightarrow> has T (ty_dtype T) [b, k, s, n] q' \<Longrightarrow>
      \<exists>y. bo_scores (ty_modules T) q q' = Inr y \<and> has T (ty_dtype T) [b, k, s, s] y"
    "has T (ty_dtype T) sh x \<Longrightarrow> has T (ty_dtype T) sh (bo_div (ty_modules T) x c)"
    "has T (ty_dtype T) sh x \<Longrightarrow> has T (ty_dtype T) sh (bo_softmax (ty_modules T) x)"
    "has T (ty_dtype T) sh x \<Longrightarrow> has T (ty_dtype T) sh (bo_gelu (ty_modules T) x)"
    "has T (ty_dtype T) [b, k, s, s] w \<Longrightarrow> has T (ty_dtype T) [b, k, s, n] v \<Longrightarrow>
      \<exists>y. bo_matmul (ty_modules T) w v = Inr y \<and> has T (ty_dtype T) [b, k, s, n] y"
    "has T (ty_dtype T) [b, k, s, n] x \<Longrightarrow>
      \<exists>y. bo_merge (ty_modules T) (b, s) (int (k * n)) x = Inr y \<and> has T (ty_dtype T) [b, s, k * n] y"
  using assms unfolding module_laws_def Let_def by - ((elim conjE, blast) | (elim conjE, simp))+

section \<open>Typed layers and blocks\<close>

definition linear_typed :: "('s, 'd) typing \<Rightarrow> nat \<times> nat \<Rightarrow> ('s, 'd) linear \<Rightarrow> bool" where
  "linear_typed T dims l \<longleftrightarrow> ty_linear T l \<and> p_dtype (weight l) = ty_dtype T \<and> p_shape (weight l) = dims"

definition layer_typed :: "('s, 'd) typing \<Rightarrow> nat \<times> nat \<Rightarrow> ('s, 'd) plugin_layer \<Rightarrow> bool" where
  "layer_typed T dims l \<longleftrightarrow> linear_typed T dims (base_layer l) \<and> p_dtype (matrix_B l) = p_dtype (matrix_A l) \<and>
     (\<exists>r. has T (p_dtype (matrix_A l)) [r, snd dims] (p_data (matrix_A l)) \<and>
          has T (p_dtype (matrix_A l)) [fst dims, r] (p_data (matrix_B l)))"

lemma forward_typed:
  assumes laws: "layer_laws T" and l: "layer_typed T (o_dim, i_dim) l"
    and x: "has T (ty_dtype T) (ls @ [i_dim]) x"
  shows "\<exists>y. forward (ty_torch T) l x = Inr y \<and> has T (ty_dtype T) (ls @ [o_dim]) y"
proof -
  note D = layer_lawsD [OF laws]
  let ?dt = "p_dtype (matrix_A l)"
  obtain r where r: "has T ?dt [r, i_dim] (p_data (matrix_A l))" "has T ?dt [o_dim, r] (p_data (matrix_B l))"
    and base: "ty_linear T (base_layer l)" "p_dtype (weight (base_layer l)) = ty_dtype T"
      "p_shape (weight (base_layer l)) = (o_dim, i_dim)"
    using l by (auto simp: layer_typed_def linear_typed_def)
  obtain b where b: "t_base (ty_torch T) (base_layer l) x = Inr b" "has T (ty_dtype T) (ls @ [o_dim]) b"
    using D(2) [OF base x] by blast
  show ?thesis
  proof (cases "routing_gate_enabled l")
    case True
    obtain h where h: "t_matmul (ty_torch T) (t_to (ty_torch T) ?dt x)
        (t_transpose (ty_torch T) (p_data (matrix_A l))) = Inr h" "has T ?dt (ls @ [r]) h"
      using D(5) [OF D(3) [OF x] D(4) [OF r(1)]] by blast
    obtain y where y: "t_matmul (ty_torch T) h (t_transpose (ty_torch T) (p_data (matrix_B l))) = Inr y"
      "has T ?dt (ls @ [o_dim]) y"
      using D(5) [OF h(2) D(4) [OF r(2)]] by blast
    let ?z = "t_to (ty_torch T) (t_dtype (ty_torch T) b) (t_scale (ty_torch T) y (scaling l))"
    have "t_dtype (ty_torch T) b = ty_dtype T" using b(2) by (simp add: has_def)
    then have "has T (ty_dtype T) (ls @ [o_dim]) ?z" using D(3) [OF D(6) [OF y(2)]] by simp
    then obtain s where "t_add (ty_torch T) b ?z = Inr s" "has T (ty_dtype T) (ls @ [o_dim]) s"
      using D(7) [OF b(2)] by blast
    with True b(1) h(1) y(1) show ?thesis by (simp add: forward_def Let_def)
  next
    case False
    with b show ?thesis by (simp add: closed_gate_is_base)
  qed
qed

lemma layer_init_typed:
  assumes laws: "layer_laws T" and base: "linear_typed T dims base"
    and init: "layer_init (ty_torch T) base r alpha None g = (Inr l, g')"
  shows "layer_typed T dims l \<and> requires_grad (matrix_A l) \<and> requires_grad (matrix_B l)"
proof -
  note D = layer_lawsD [OF laws]
  obtain o_dim i_dim where dims: "dims = (o_dim, i_dim)" by (cases dims)
  have b: "ty_linear T base" "p_dtype (weight base) = ty_dtype T" "p_shape (weight base) = (o_dim, i_dim)"
    using base by (simp_all add: linear_typed_def dims)
  have "has T (ty_dtype T) [nat r, i_dim]
      (fst (t_kaiming_uniform (ty_torch T) g (t_empty (ty_torch T) (nat r, i_dim) (ty_dtype T))))"
    "has T (ty_dtype T) [o_dim, nat r] (t_zero_fill (ty_torch T) (t_zeros (ty_torch T) (o_dim, nat r) (ty_dtype T)))"
    using D(8-11) by blast+
  with layer_init_built [OF init] b D(1) [OF b(1)] show ?thesis
    by (auto simp: built_layer_def Let_def new_parameter_def layer_typed_def linear_typed_def dims)
qed

text \<open>The dimensions of the sublayers of a block, output first.\<close>

definition sublayer_dims :: "nat \<Rightarrow> nat \<Rightarrow> string \<Rightarrow> nat \<times> nat" where
  "sublayer_dims d f name = (if name = ''fc1'' then (f, d) else if name = ''fc2'' then (d, f) else (d, d))"

definition sublayer_typed ::
  "('s, 'd) typing \<Rightarrow> (layer_ref \<Rightarrow> ('s, 'd) plugin_layer) \<Rightarrow> nat \<times> nat \<Rightarrow> ('s, 'd) submodule option \<Rightarrow> bool" where
  "sublayer_typed T lookup dims m \<longleftrightarrow>
     (case m of None \<Rightarrow> False | Some (BaseLinear l) \<Rightarrow> linear_typed T dims l
      | Some (Adapted r) \<Rightarrow> layer_typed T dims (lookup r))"

definition block_sized :: "nat \<Rightarrow> ('s, 'd) tblock \<Rightarrow> bool" where
  "block_sized d blk \<longleftrightarrow> d_model blk = int d \<and> 0 < n_heads blk \<and> 0 < head_dim blk \<and> head_dim blk \<le> 2 ^ 53 \<and>
     n_heads blk * head_dim blk = int d"

definition sublayer_names :: "string list" where
  "sublayer_names = [''q_proj'', ''k_proj'', ''v_proj'', ''out_proj'', ''fc1'', ''fc2'']"

definition block_typed ::
  "('s, 'd) typing \<Rightarrow> (layer_ref \<Rightarrow> ('s, 'd) plugin_layer) \<Rightarrow> nat \<Rightarrow> nat \<Rightarrow> ('s, 'd) tblock \<Rightarrow> bool" where
  "block_typed T lookup d f blk \<longleftrightarrow> block_sized d blk \<and>
     (\<forall>name \<in> set sublayer_names. sublayer_typed T lookup (sublayer_dims d f name) (dict_get (sublayers blk) name))"

section \<open>The model never raises\<close>

lemma apply_sublayer_typed:
  assumes "layer_laws T" and "block_typed T lookup d f blk" and "name \<in> set sublayer_names"
    and "sublayer_dims d f name = (o_dim, i_dim)" and x: "has T (ty_dtype T) (ls @ [i_dim]) x"
  shows "\<exists>y. apply_sublayer (ty_torch T) lookup blk name x = Inr y \<and> has T (ty_dtype T) (ls @ [o_dim]) y"
proof -
  have "sublayer_typed T lookup (o_dim, i_dim) (dict_get (sublayers blk) name)"
    using assms(2-4) by (metis block_typed_def)
  then show ?thesis
    using layer_lawsD(2) [OF assms(1) _ _ _ x] forward_typed [OF assms(1) _ x]
    by (auto simp: sublayer_typed_def apply_sublayer_def linear_typed_def split: option.splits submodule.splits)
qed

lemma float_sqrt_returns:
  assumes "0 \<le> e" and "e \<le> 2 ^ 53"
  shows "\<exists>r. float_sqrt e = Inr r"
proof -
  have "float_of_int e = Inr (Fin (of_int e))" using assms by (intro float_of_int_exact) simp
  with assms(1) show ?thesis by (simp add: float_sqrt_def Let_def)
qed

lemma project_heads_typed:
  assumes laws: "tensor_laws T" and blk: "block_typed T lookup d f blk"
    and name: "name \<in> {''q_proj'', ''k_proj'', ''v_proj''}" and x: "has T (ty_dtype T) [b, s, d] x"
  shows "\<exists>y. project_heads (ty_torch T) (ty_modules T) lookup blk (b, s) name x = Inr y \<and>
    has T (ty_dtype T) [b, nat (n_heads blk), s, nat (head_dim blk)] y"
proof -
  have l: "layer_laws T" "module_laws T" using laws by (simp_all add: tensor_laws_def)
  have "name \<in> set sublayer_names" "sublayer_dims d f name = (d, d)"
    using name by (auto simp: sublayer_names_def sublayer_dims_def)
  then obtain y where y: "apply_sublayer (ty_torch T) lookup blk name x = Inr y" "has T (ty_dtype T) [b, s, d] y"
    using apply_sublayer_typed [OF l(1) blk, of name d d "[b, s]" x] x by auto
  have "block_sized d blk" using blk by (simp add: block_typed_def)
  then show ?thesis
    using module_lawsD(3) [OF l(2) y(2)] y(1) by (simp add: project_heads_def block_sized_def)
qed

lemma self_attention_typed:
  assumes laws: "tensor_laws T" and blk: "block_typed T lookup d f blk" and x: "has T (ty_dtype T) [b, s, d] x"
  shows "\<exists>y. self_attention (ty_torch T) (ty_modules T) lookup blk x = Inr y \<and> has T (ty_dtype T) [b, s, d] y"
proof -
  have l: "layer_laws T" "module_laws T" using laws by (simp_all add: tensor_laws_def)
  note M = module_lawsD [OF l(2)]
  have sz: "d_model blk = int d" "0 < n_heads blk" "0 < head_dim blk" "head_dim blk \<le> 2 ^ 53"
    "n_heads blk * head_dim blk = int d"
    using blk by (simp_all add: block_typed_def block_sized_def)
  let ?h = "nat (n_heads blk)" and ?e = "nat (head_dim blk)"
  have he: "?h * ?e = d" using sz by (metis nat_int nat_mult_distrib less_imp_le)
  note P = project_heads_typed [OF laws blk _ x]
  obtain q where q: "project_heads (ty_torch T) (ty_modules T) lookup blk (b, s) ''q_proj'' x = Inr q"
    "has T (ty_dtype T) [b, ?h, s, ?e] q" using P [of "''q_proj''"] by auto
  obtain k where k: "project_heads (ty_torch T) (ty_modules T) lookup blk (b, s) ''k_proj'' x = Inr k"
    "has T (ty_dtype T) [b, ?h, s, ?e] k" using P [of "''k_proj''"] by auto
  obtain v where v: "project_heads (ty_torch T) (ty_modules T) lookup blk (b, s) ''v_proj'' x = Inr v"
    "has T (ty_dtype T) [b, ?h, s, ?e] v" using P [of "''v_proj''"] by auto
  obtain p where p: "bo_scores (ty_modules T) q k = Inr p" "has T (ty_dtype T) [b, ?h, s, s] p"
    using M(4) [OF q(2) k(2)] by blast
  obtain r where r: "float_sqrt (head_dim blk) = Inr r" using float_sqrt_returns [of "head_dim blk"] sz by auto
  obtain m where m: "bo_matmul (ty_modules T) (bo_softmax (ty_modules T) (bo_div (ty_modules T) p r)) v = Inr m"
    "has T (ty_dtype T) [b, ?h, s, ?e] m"
    using M(8) [OF M(6) [OF M(5) [OF p(2)]] v(2)] by blast
  obtain o' where o': "bo_merge (ty_modules T) (b, s) (int d) m = Inr o'" "has T (ty_dtype T) [b, s, d] o'"
    using M(9) [OF m(2)] unfolding he by blast
  obtain y where y: "apply_sublayer (ty_torch T) lookup blk ''out_proj'' o' = Inr y" "has T (ty_dtype T) [b, s, d] y"
    using apply_sublayer_typed [OF l(1) blk, of "''out_proj''" d d "[b, s]" o'] o'(2)
    by (auto simp: sublayer_names_def sublayer_dims_def)
  show ?thesis
    using M(2) [OF x] q(1) k(1) v(1) p(1) r m(1) o'(1) y by (simp add: self_attention_def Let_def sz(1))
qed

lemma block_forward_typed:
  assumes laws: "tensor_laws T" and blk: "block_typed T lookup d f blk" and x: "has T (ty_dtype T) [b, s, d] x"
  shows "\<exists>y. block_forward (ty_torch T) (ty_modules T) lookup blk x = Inr y \<and> has T (ty_dtype T) [b, s, d] y"
proof -
  have l: "layer_laws T" "module_laws T" using laws by (simp_all add: tensor_laws_def)
  have d: "d_model blk = int d" using blk by (simp add: block_typed_def block_sized_def)
  have norm: "\<exists>y. bo_norm (ty_modules T) (int d) z = Inr y \<and> has T (ty_dtype T) [b, s, d] y"
    if "has T (ty_dtype T) [b, s, d] z" for z
    using module_lawsD(1) [OF l(2), of "[b, s]" d z] that by simp
  have sub: "\<exists>y. apply_sublayer (ty_torch T) lookup blk name z = Inr y \<and> has T (ty_dtype T) [b, s, n] y"
    if "name \<in> set sublayer_names" "sublayer_dims d f name = (n, m)" "has T (ty_dtype T) [b, s, m] z" for name z n m
    using apply_sublayer_typed [OF l(1) blk that(1,2), of "[b, s]" z] that(3) by simp
  obtain n1 where n1: "bo_norm (ty_modules T) (int d) x = Inr n1" "has T (ty_dtype T) [b, s, d] n1"
    using norm [OF x] by blast
  obtain att where att: "self_attention (ty_torch T) (ty_modules T) lookup blk n1 = Inr att" "has T (ty_dtype T) [b, s, d] att"
    using self_attention_typed [OF laws blk n1(2)] by blast
  obtain x1 where x1: "t_add (ty_torch T) x att = Inr x1" "has T (ty_dtype T) [b, s, d] x1"
    using layer_lawsD(7) [OF l(1) x att(2)] by blast
  obtain n2 where n2: "bo_norm (ty_modules T) (int d) x1 = Inr n2" "has T (ty_dtype T) [b, s, d] n2"
    using norm [OF x1(2)] by blast
  obtain h1 where h1: "apply_sublayer (ty_torch T) lookup blk ''fc1'' n2 = Inr h1" "has T (ty_dtype T) [b, s, f] h1"
    using sub [of "''fc1''" f d n2] n2(2) by (auto simp: sublayer_names_def sublayer_dims_def)
  obtain h2 where h2: "apply_sublayer (ty_torch T) lookup blk ''fc2'' (bo_gelu (ty_modules T) h1) = Inr h2"
    "has T (ty_dtype T) [b, s, d] h2"
    using sub [of "''fc2''" d f] module_lawsD(7) [OF l(2) h1(2)] by (auto simp: sublayer_names_def sublayer_dims_def)
  obtain y where "t_add (ty_torch T) x1 h2 = Inr y" "has T (ty_dtype T) [b, s, d] y"
    using layer_lawsD(7) [OF l(1) x1(2) h2(2)] by blast
  with n1(1) att(1) x1(1) n2(1) h1(1) h2(1) show ?thesis by (simp add: block_forward_def d)
qed

lemma run_blocks_typed:
  assumes "tensor_laws T" and "\<forall>blk \<in> set blocks. block_typed T lookup d f blk"
    and "has T (ty_dtype T) [b, s, d] x"
  shows "\<exists>y. run_blocks (ty_torch T) (ty_modules T) lookup blocks x = Inr y \<and> has T (ty_dtype T) [b, s, d] y"
  using assms(2,3)
proof (induction blocks arbitrary: x)
  case (Cons blk blocks)
  obtain y where "block_forward (ty_torch T) (ty_modules T) lookup blk x = Inr y" "has T (ty_dtype T) [b, s, d] y"
    using block_forward_typed [OF assms(1) _ Cons.prems(2), of lookup f blk] Cons.prems(1) by auto
  with Cons.IH [of y] Cons.prems(1) show ?case by simp
qed simp

section \<open>The frozen base and what is plugged into it\<close>

text \<open>A block whose linear sublayers fit, apart from those that adapters may replace.\<close>

definition block_frame :: "('s, 'd) typing \<Rightarrow> nat \<Rightarrow> nat \<Rightarrow> ('s, 'd) tblock \<Rightarrow> bool" where
  "block_frame T d f blk \<longleftrightarrow> block_sized d blk \<and>
     (\<forall>name \<in> set sublayer_names. name \<notin> set adapted_sublayers \<longrightarrow>
        (\<exists>l. dict_get (sublayers blk) name = Some (BaseLinear l) \<and> linear_typed T (sublayer_dims d f name) l)) \<and>
     (\<forall>name r. dict_get (sublayers blk) name = Some (Adapted r) \<longrightarrow> name \<in> set adapted_sublayers)"

definition plugged_refs :: "('s, 'd) tblock list \<Rightarrow> layer_ref set" where
  "plugged_refs blocks =
     {r. \<exists>blk \<in> set blocks. \<exists>name \<in> set sublayer_names. dict_get (sublayers blk) name = Some (Adapted r)}"

text \<open>An adapter for every adapted sublayer of \<open>n\<close> blocks, each of the right dimensions.\<close>

definition adapter_typed ::
  "('s, 'd) typing \<Rightarrow> (layer_ref \<Rightarrow> ('s, 'd) plugin_layer) \<Rightarrow> nat \<Rightarrow> nat \<Rightarrow> nat \<Rightarrow> (string, layer_ref) dict \<Rightarrow> bool" where
  "adapter_typed T lookup d f n layers \<longleftrightarrow> dict_keys layers = block_keys 0 n \<and>
     (\<forall>i < n. \<forall>name \<in> set adapted_sublayers. \<exists>r. dict_get layers (sublayer_key i name) = Some r \<and>
        layer_typed T (sublayer_dims d f name) (lookup r))"

lemma plug_in_mem:
  "blk \<in> set (plug_in blocks layers) \<longleftrightarrow>
     (\<exists>i < length blocks. blk = plug_names i layers adapted_sublayers (blocks ! i))"
  unfolding plug_in_def in_set_conv_nth using nth_plug_blocks [of _ blocks 0 layers] by auto

lemma plug_in_frames:
  assumes "\<forall>blk \<in> set blocks. block_frame T d f blk"
  shows "\<forall>blk \<in> set (plug_in blocks layers). block_frame T d f blk"
proof
  fix blk assume "blk \<in> set (plug_in blocks layers)"
  then obtain i where i: "i < length blocks" "blk = plug_names i layers adapted_sublayers (blocks ! i)"
    by (auto simp: plug_in_mem)
  have "block_frame T d f (blocks ! i)" using assms i(1) by simp
  then show "block_frame T d f blk"
    using plug_names_sizes [of i layers adapted_sublayers "blocks ! i"]
    by (auto simp: block_frame_def block_sized_def i(2) plug_names_get split: if_splits)
qed

lemma plug_in_typed:
  assumes frames: "\<forall>blk \<in> set blocks. block_frame T d f blk"
    and adapter: "adapter_typed T lookup d f (length blocks) layers"
  shows "\<forall>blk \<in> set (plug_in blocks layers). block_typed T lookup d f blk"
proof
  fix blk assume mem: "blk \<in> set (plug_in blocks layers)"
  then obtain i where i: "i < length blocks" "blk = plug_names i layers adapted_sublayers (blocks ! i)"
    by (auto simp: plug_in_mem)
  have frame: "block_frame T d f blk" using plug_in_frames [OF frames] mem by blast
  have "sublayer_typed T lookup (sublayer_dims d f name) (dict_get (sublayers blk) name)"
    if name: "name \<in> set sublayer_names" for name
  proof (cases "name \<in> set adapted_sublayers")
    case True
    then obtain r where "dict_get layers (sublayer_key i name) = Some r"
      "layer_typed T (sublayer_dims d f name) (lookup r)"
      using adapter i(1) by (auto simp: adapter_typed_def)
    with True show ?thesis by (simp add: i(2) plug_names_get sublayer_typed_def)
  next
    case False
    with frame name show ?thesis by (auto simp: block_frame_def sublayer_typed_def)
  qed
  with frame show "block_typed T lookup d f blk" by (simp add: block_typed_def block_frame_def)
qed

lemma plugged_refs_plug_in:
  assumes frames: "\<forall>blk \<in> set blocks. block_frame T d f blk"
    and adapter: "adapter_typed T lookup d f (length blocks) layers"
  shows "plugged_refs (plug_in blocks layers) = set (dict_values layers)"
proof (intro set_eqI iffI)
  have keys: "dict_keys layers = block_keys 0 (length blocks)" using adapter by (simp add: adapter_typed_def)
  have ok: "dict_ok layers" using keys distinct_block_keys by (simp add: dict_ok_def dict_keys_def)
  fix r assume "r \<in> plugged_refs (plug_in blocks layers)"
  then obtain i name where i: "i < length blocks"
    "dict_get (sublayers (plug_names i layers adapted_sublayers (blocks ! i))) name = Some (Adapted r)"
    by (auto simp: plugged_refs_def plug_in_mem)
  have frame: "block_frame T d f (plug_names i layers adapted_sublayers (blocks ! i))"
    using plug_in_frames [OF frames, of layers] i(1) plug_in_mem by blast
  then have name: "name \<in> set adapted_sublayers" using i(2) by (auto simp: block_frame_def)
  then obtain r' where "dict_get layers (sublayer_key i name) = Some r'"
    using adapter i(1) by (auto simp: adapter_typed_def)
  with i(2) name have "dict_get layers (sublayer_key i name) = Some r" by (simp add: plug_names_get)
  then show "r \<in> set (dict_values layers)" by (force simp: dict_get_def dict_values_def dest: map_of_SomeD)
next
  have keys: "dict_keys layers = block_keys 0 (length blocks)" using adapter by (simp add: adapter_typed_def)
  have ok: "dict_ok layers" using keys distinct_block_keys by (simp add: dict_ok_def dict_keys_def)
  fix r assume "r \<in> set (dict_values layers)"
  then obtain key where mem: "(key, r) \<in> set layers" by (auto simp: dict_values_def)
  then have "key \<in> set (dict_keys layers)" by (force simp: dict_keys_def)
  then have "key \<in> set (block_keys 0 (length blocks))" by (simp only: keys)
  then obtain i name where i: "key = sublayer_key i name" "i < length blocks" "name \<in> set adapted_sublayers"
    by (auto simp: block_keys_mem)
  have "dict_get layers key = Some r" using mem ok by (simp add: py_dict.get_Some_iff)
  then have "dict_get (sublayers (plug_names i layers adapted_sublayers (blocks ! i))) name = Some (Adapted r)"
    using i by (simp add: plug_names_get)
  moreover have "plug_names i layers adapted_sublayers (blocks ! i) \<in> set (plug_in blocks layers)"
    using i(2) by (auto simp: plug_in_mem)
  moreover have "name \<in> set sublayer_names" using i(3) by (auto simp: adapted_sublayers_def sublayer_names_def)
  ultimately show "r \<in> plugged_refs (plug_in blocks layers)" unfolding plugged_refs_def by blast
qed

text \<open>What \<^verbatim>\<open>nn.Linear\<close> builds has the dimensions it was asked for.\<close>

definition linear_maker :: "('s, 'd) typing \<Rightarrow> (int \<Rightarrow> int \<Rightarrow> ('w, ('s, 'd) linear) prog) \<Rightarrow> bool" where
  "linear_maker T mk \<longleftrightarrow> (\<forall>i k w l w'. mk i k w = (Inr l, w') \<longrightarrow> linear_typed T (nat k, nat i) l)"

lemma linear_typed_freeze:
  "layer_laws T \<Longrightarrow> linear_typed T dims l \<Longrightarrow> linear_typed T dims (freeze_linear l)"
  using layer_lawsD(1) by (auto simp: linear_typed_def)

lemma block_init_typed:
  assumes "block_init mk (int d) heads (int f) w = (Inr blk, w')" and "linear_maker T mk"
    and "0 < d" and "0 < heads" and "int d div heads \<le> 2 ^ 53"
  shows "block_sized d blk \<and> (\<forall>name \<in> set sublayer_names. \<exists>l.
    dict_get (sublayers blk) name = Some (BaseLinear l) \<and> linear_typed T (sublayer_dims d f name) l)"
proof -
  have mk: "linear_typed T (nat k, nat i) l" if "mk i k w = (Inr l, w')" for i k w l w'
    using assms(2) that unfolding linear_maker_def by blast
  have run: "int d mod heads = 0" "d_model blk = int d" "n_heads blk = heads" "head_dim blk = int d div heads"
    using assms(1) by (auto simp: block_init_def sbind_Inr_iff sret_apply sraise_apply split: if_splits)
  then have "heads * (int d div heads) = int d" by auto
  moreover have "0 < int d div heads"
    using assms(3,4) calculation by (metis mult_nonneg_nonpos not_le of_nat_0_less_iff less_imp_le linorder_not_le)
  ultimately have "block_sized d blk" using run assms(4,5) by (simp add: block_sized_def)
  moreover have "\<forall>name \<in> set sublayer_names. \<exists>l.
      dict_get (sublayers blk) name = Some (BaseLinear l) \<and> linear_typed T (sublayer_dims d f name) l"
    using assms(1)
    by (auto simp: block_init_def sbind_Inr_iff sret_apply sraise_apply sublayer_names_def sublayer_dims_def
        dict_get_def dest!: mk split: if_splits)
  ultimately show ?thesis by blast
qed

lemma init_blocks_typed:
  assumes "init_blocks n (block_init mk (int d) heads (int f)) w = (Inr blocks, w')" and "linear_maker T mk"
    and "0 < d" and "0 < heads" and "int d div heads \<le> 2 ^ 53"
  shows "\<forall>blk \<in> set blocks. block_sized d blk \<and> (\<forall>name \<in> set sublayer_names. \<exists>l.
    dict_get (sublayers blk) name = Some (BaseLinear l) \<and> linear_typed T (sublayer_dims d f name) l)"
  using assms(1)
proof (induction n arbitrary: blocks w)
  case (Suc n)
  then obtain blk w1 blks where "block_init mk (int d) heads (int f) w = (Inr blk, w1)"
    "init_blocks n (block_init mk (int d) heads (int f)) w1 = (Inr blks, w')" "blocks = blk # blks"
    by (auto simp: sbind_Inr_iff sret_apply)
  with block_init_typed [OF _ assms(2-5)] Suc.IH show ?case by simp
qed (simp add: sret_apply)

lemma frozen_base_typed:
  assumes build: "build_frozen_base mk mk_embed vocab (int d) heads (int f) n_layers w = (Inr (emb, blocks, head), w')"
    and laws: "layer_laws T" and mk: "linear_maker T mk"
    and size: "0 < d" "0 < heads" "int d div heads \<le> 2 ^ 53"
  shows "\<forall>blk \<in> set blocks. block_sized d blk \<and> (\<forall>name \<in> set sublayer_names. \<exists>l.
    dict_get (sublayers blk) name = Some (BaseLinear l) \<and> linear_typed T (sublayer_dims d f name) l)"
proof
  fix blk assume "blk \<in> set blocks"
  moreover obtain bs w1 w2 where bs: "init_blocks (nat n_layers) (block_init mk (int d) heads (int f)) w1 = (Inr bs, w2)"
    "blocks = map freeze_block bs"
    using build by (auto simp: build_frozen_base_def sbind_Inr_iff sret_apply)
  ultimately obtain b where b: "b \<in> set bs" "blk = freeze_block b" by auto
  have get: "dict_get (sublayers (freeze_block b)) name = map_option freeze_submodule (dict_get (sublayers b) name)" for name
    by (simp add: freeze_block_def dict_get_def map_of_map)
  have "block_sized d (freeze_block b) = block_sized d b" by (simp add: block_sized_def freeze_block_def)
  moreover have "\<exists>l. dict_get (sublayers blk) name = Some (BaseLinear l) \<and> linear_typed T (sublayer_dims d f name) l"
    if "name \<in> set sublayer_names" for name
  proof -
    have "\<exists>l. dict_get (sublayers b) name = Some (BaseLinear l) \<and> linear_typed T (sublayer_dims d f name) l"
      using init_blocks_typed [OF bs(1) mk size] b(1) that by blast
    then obtain l where "dict_get (sublayers b) name = Some (BaseLinear l)" "linear_typed T (sublayer_dims d f name) l"
      by blast
    with linear_typed_freeze [OF laws this(2)] show ?thesis
      by (simp add: b(2) get freeze_submodule_eq del: freeze_submodule.simps)
  qed
  ultimately show "block_sized d blk \<and> (\<forall>name \<in> set sublayer_names. \<exists>l.
      dict_get (sublayers blk) name = Some (BaseLinear l) \<and> linear_typed T (sublayer_dims d f name) l)"
    using init_blocks_typed [OF bs(1) mk size] b by auto
qed

text \<open>So the blocks are frames, and the collected layers have the dimensions of their places.\<close>

lemma frozen_base_frames:
  assumes build: "build_frozen_base mk mk_embed vocab (int d) heads (int f) n_layers w = (Inr (emb, blocks, head), w')"
    and laws: "layer_laws T" and mk: "linear_maker T mk"
    and size: "0 < d" "0 < heads" "int d div heads \<le> 2 ^ 53"
    and bases: "collect_base_sublayers blocks = Inr bases"
  shows "\<forall>blk \<in> set blocks. block_frame T d f blk"
    "\<forall>i < length blocks. \<forall>name \<in> set adapted_sublayers. \<exists>l. dict_get bases (sublayer_key i name) = Some l \<and>
       linear_typed T (sublayer_dims d f name) l \<and> freeze_linear l = l"
proof -
  note typed = frozen_base_typed [OF build laws mk size]
  show "\<forall>blk \<in> set blocks. block_frame T d f blk"
  proof
    fix blk assume mem: "blk \<in> set blocks"
    then obtain i where "i < length blocks" "blk = blocks ! i" unfolding in_set_conv_nth by blast
    then have "fresh_block (int d) heads blk" using built_fresh [OF build] by simp
    then have "dict_get (sublayers blk) name \<noteq> Some (Adapted r)" for name r
      by (force simp: fresh_block_def dict_get_def dict_values_def dest: map_of_SomeD)
    with typed mem show "block_frame T d f blk" by (simp add: block_frame_def)
  qed
  show "\<forall>i < length blocks. \<forall>name \<in> set adapted_sublayers. \<exists>l. dict_get bases (sublayer_key i name) = Some l \<and>
      linear_typed T (sublayer_dims d f name) l \<and> freeze_linear l = l"
  proof (intro allI impI ballI)
    fix i name assume i: "i < length blocks" and name: "name \<in> set adapted_sublayers"
    obtain l where l: "dict_get (sublayers (blocks ! i)) name = Some (BaseLinear l)"
      "dict_get bases (sublayer_key i name) = Some l" "freeze_linear l = l"
      by (rule collected_base [OF build bases i name])
    have "name \<in> set sublayer_names" using name by (auto simp: adapted_sublayers_def sublayer_names_def)
    moreover have "blocks ! i \<in> set blocks" using i by simp
    ultimately have "\<exists>l. dict_get (sublayers (blocks ! i)) name = Some (BaseLinear l) \<and>
        linear_typed T (sublayer_dims d f name) l" using typed by blast
    with l(1) have "linear_typed T (sublayer_dims d f name) l" by simp
    with l show "\<exists>l. dict_get bases (sublayer_key i name) = Some l \<and>
        linear_typed T (sublayer_dims d f name) l \<and> freeze_linear l = l" by blast
  qed
qed

lemma attach_get:
  assumes "attach_adapters ops bases r alpha g = (Inr objs, g')"
  shows "dict_keys objs = dict_keys bases \<and>
    (\<forall>key base. dict_get bases key = Some base \<longrightarrow>
       (\<exists>l h h'. dict_get objs key = Some l \<and> layer_init ops base r alpha None h = (Inr l, h')))"
  using assms
proof (induction bases arbitrary: objs g)
  case (Cons b bases)
  obtain name base where b: "b = (name, base)" by (cases b)
  from Cons.prems obtain l h ls where l: "layer_init ops base r alpha None g = (Inr l, h)"
    "attach_adapters ops bases r alpha h = (Inr ls, g')" "objs = (name, l) # ls"
    by (auto simp: b sbind_Inr_iff sret_apply)
  with Cons.IH [OF l(2)] show ?case by (auto simp: b dict_keys_def dict_get_def)
qed (simp add: dict_keys_def dict_get_def sret_apply)

lemma attach_returns:
  assumes "0 < r" and "float_of_int r = Inr rf" and "fdiv alpha rf = Inr sc"
  shows "\<exists>objs g'. attach_adapters ops bases r alpha g = (Inr objs, g')"
proof (induction bases arbitrary: g)
  case (Cons b bases)
  obtain name base where "b = (name, base)" by (cases b)
  moreover obtain l h where "layer_init ops base r alpha None g = (Inr l, h)"
    using layer_init_returns [OF assms] by blast
  moreover obtain ls g' where "attach_adapters ops bases r alpha h = (Inr ls, g')" using Cons by blast
  ultimately show ?case by (simp add: sbind_apply sret_apply)
qed (simp add: sret_apply)

text \<open>Objects and references to them, under the same names.\<close>

definition stored :: "(layer_ref \<Rightarrow> ('s, 'd) plugin_layer) \<Rightarrow> (string, ('s, 'd) plugin_layer) dict \<Rightarrow>
    (string, layer_ref) dict \<Rightarrow> bool" where
  "stored lookup objs layers \<longleftrightarrow> list_all2 (\<lambda>(n, l) (n', r). n' = n \<and> lookup r = l) objs layers"

lemma stored_get:
  assumes "stored lookup objs layers"
  shows "dict_keys layers = dict_keys objs \<and>
    (\<forall>key l. dict_get objs key = Some l \<longrightarrow> (\<exists>r. dict_get layers key = Some r \<and> lookup r = l))"
  using assms unfolding stored_def
  by (induction rule: list_all2_induct) (auto simp: dict_keys_def dict_get_def)

lemma stored_exists: "\<exists>lookup layers. stored lookup objs layers"
proof (intro exI)
  show "stored (\<lambda>i. snd (objs ! i)) objs (map (\<lambda>i. (fst (objs ! i), i)) [0..<length objs])"
    unfolding stored_def by (rule list_all2_all_nthI) (simp_all add: case_prod_unfold)
qed

lemma attached_typed:
  assumes laws: "layer_laws T" and attach: "attach_adapters (ty_torch T) bases r alpha g = (Inr objs, g')"
    and stored: "stored lookup objs layers" and keys: "dict_keys bases = block_keys 0 n"
    and bases: "\<forall>i < n. \<forall>name \<in> set adapted_sublayers. \<exists>l. dict_get bases (sublayer_key i name) = Some l \<and>
       linear_typed T (sublayer_dims d f name) l \<and> freeze_linear l = l"
  shows "adapter_typed T lookup d f n layers"
  unfolding adapter_typed_def
proof (intro conjI allI impI ballI)
  show "dict_keys layers = block_keys 0 n"
    using attach_get [OF attach] stored_get [OF stored] keys by simp
  fix i name assume "i < n" "name \<in> set adapted_sublayers"
  then obtain base where base: "dict_get bases (sublayer_key i name) = Some base"
    "linear_typed T (sublayer_dims d f name) base" using bases by blast
  then obtain l h h' where l: "dict_get objs (sublayer_key i name) = Some l"
    "layer_init (ty_torch T) base r alpha None h = (Inr l, h')" using attach_get [OF attach] by blast
  then obtain ref where "dict_get layers (sublayer_key i name) = Some ref" "lookup ref = l"
    using stored_get [OF stored] by blast
  with layer_init_typed [OF laws base(2) l(2)]
  show "\<exists>ref. dict_get layers (sublayer_key i name) = Some ref \<and> layer_typed T (sublayer_dims d f name) (lookup ref)"
    by blast
qed

section \<open>Shapes as tensors\<close>

text \<open>
  The laws hold for tensors that consist of a type, a shape and one number in the place of the
  elements, with operations that raise on what does not fit. The number tells tensors apart: the
  generator draws a new one each time, products multiply and sums add.
\<close>

type_synonym shape_tensor = "dtype \<times> nat list \<times> nat"

definition shape_matmul :: "shape_tensor \<Rightarrow> shape_tensor \<Rightarrow> shape_tensor result" where
  "shape_matmul = (\<lambda>(dt, sh, c) (dt', sh', c').
     (case (rev sh, sh') of
        (k # ls, [k', n]) \<Rightarrow> if k = k' \<and> dt = dt' then Inr (dt, rev ls @ [n], c * c') else Inl RuntimeError
      | _ \<Rightarrow> Inl RuntimeError))"

definition shape_base :: "('s, shape_tensor) linear \<Rightarrow> shape_tensor \<Rightarrow> shape_tensor result" where
  "shape_base l x =
     shape_matmul x (p_dtype (weight l), [snd (p_shape (weight l)), fst (p_shape (weight l))], snd (snd (p_data (weight l))))"

definition shape_ops :: "('s, shape_tensor) torch_ops" where
  "shape_ops =
     \<lparr>t_empty = (\<lambda>(m, n) dt. (dt, [m, n], 0)), t_zeros = (\<lambda>(m, n) dt. (dt, [m, n], 0)),
      t_kaiming_uniform = (\<lambda>g (dt, sh, c). ((dt, sh, Suc g), Suc g)), t_zero_fill = (\<lambda>(dt, sh, c). (dt, sh, 0)),
      t_base = shape_base, t_dtype = fst, t_to = (\<lambda>dt x. (dt, snd x)),
      t_transpose = (\<lambda>(dt, sh, c). (dt, rev sh, c)), t_matmul = shape_matmul, t_scale = (\<lambda>x c. x),
      t_add = (\<lambda>(dt, sh, c) (dt', sh', c'). if dt = dt' \<and> sh = sh' then Inr (dt, sh, c + c') else Inl RuntimeError),
      t_on_cuda = (\<lambda>_. False), t_in_stream = (\<lambda>c. c)\<rparr>"

definition shape_modules :: "shape_tensor block_ops" where
  "shape_modules =
     \<lparr>bo_norm = (\<lambda>d (dt, sh, c). if sh \<noteq> [] \<and> int (last sh) = d then Inr (dt, sh, c) else Inl RuntimeError),
      bo_shape = (\<lambda>(dt, sh, c). case sh of [b, s, d] \<Rightarrow> Inr (b, s) | _ \<Rightarrow> Inl ValueError),
      bo_heads = (\<lambda>(b, s) h e (dt, sh, c). Inr (dt, [b, nat h, s, nat e], c)),
      bo_scores = (\<lambda>(dt, sh, c) (dt', sh', c'). case sh of
          [b, h, s, e] \<Rightarrow> if dt = dt' \<and> sh = sh' then Inr (dt, [b, h, s, s], c * c') else Inl RuntimeError
        | _ \<Rightarrow> Inl RuntimeError),
      bo_div = (\<lambda>x c. x), bo_softmax = (\<lambda>x. x),
      bo_matmul = (\<lambda>(dt, sh, c) (dt', sh', c'). case (sh, sh') of
          ([b, h, s, t], [b', h', t', e]) \<Rightarrow>
            if b = b' \<and> h = h' \<and> t = t' \<and> dt = dt' then Inr (dt, [b, h, s, e], c * c') else Inl RuntimeError
        | _ \<Rightarrow> Inl RuntimeError),
      bo_merge = (\<lambda>(b, s) d (dt, sh, c). Inr (dt, [b, s, nat d], c)), bo_gelu = (\<lambda>x. x)\<rparr>"

definition shape_typing :: "('s, shape_tensor) typing" where
  "shape_typing = \<lparr>ty_torch = shape_ops, ty_modules = shape_modules, ty_shape = (\<lambda>x. fst (snd x)),
     ty_linear = (\<lambda>_. True), ty_dtype = example_dtype\<rparr>"

lemma has_shape: "has shape_typing dt sh x \<longleftrightarrow> (\<exists>c. x = (dt, sh, c))"
  by (cases x) (auto simp: has_def shape_typing_def shape_ops_def)

lemma shape_layer_laws: "layer_laws shape_typing"
  unfolding layer_laws_def Let_def has_shape
  by (auto simp: shape_typing_def shape_ops_def shape_base_def shape_matmul_def)

lemma shape_module_laws: "module_laws shape_typing"
  unfolding module_laws_def Let_def has_shape
  by (auto simp: shape_typing_def shape_modules_def nat_mult_distrib)

lemma shape_laws: "tensor_laws shape_typing"
  by (simp add: tensor_laws_def shape_layer_laws shape_module_laws)

text \<open>Linear layers and the embedding draw from the generator as well.\<close>

definition shape_mk :: "int \<Rightarrow> int \<Rightarrow> (rng, (scripted_reader, shape_tensor) linear) prog" where
  "shape_mk d_in d_out g =
     (Inr \<lparr>weight = new_parameter (nat d_out, nat d_in) example_dtype (example_dtype, [nat d_out, nat d_in], Suc g),
           bias = None\<rparr>, Suc g)"

definition shape_embed :: "int \<Rightarrow> int \<Rightarrow> (rng, (scripted_reader, shape_tensor) parameter) prog" where
  "shape_embed v d g = (Inr (new_parameter (nat v, nat d) example_dtype (example_dtype, [nat v, nat d], Suc g)), Suc g)"

lemma shape_maker: "linear_maker shape_typing shape_mk"
  by (simp add: linear_maker_def shape_mk_def linear_typed_def shape_typing_def new_parameter_def)

section \<open>Type safety\<close>

text \<open>
  C20. A model with adapters never raises: for every vocabulary, width, number of heads and blocks, any
  rank and alpha, the blocks built over linear layers of the right dimensions, with fresh adapters
  attached and plugged in, map a batch of activations of the model's width to activations of the
  same type and shape, and so do the bare blocks.
\<close>

theorem well_typed_model_returns:
  assumes laws: "tensor_laws T" and mk: "linear_maker T mk"
    and build: "build_frozen_base mk mk_embed vocab (int d) heads (int f) n_layers w = (Inr (emb, blocks, head), w')"
    and size: "0 < d" "0 < heads" "int d div heads \<le> 2 ^ 53"
    and bases: "collect_base_sublayers blocks = Inr bases"
    and attach: "attach_adapters (ty_torch T) bases r alpha g = (Inr objs, g')" "stored lookup objs layers"
    and x: "has T (ty_dtype T) [b, s, d] x"
  shows "(\<exists>y. run_blocks (ty_torch T) (ty_modules T) lookup (plug_in blocks layers) x = Inr y \<and>
      has T (ty_dtype T) [b, s, d] y) \<and>
    (\<exists>y. run_blocks (ty_torch T) (ty_modules T) lookup blocks x = Inr y \<and> has T (ty_dtype T) [b, s, d] y)"
proof -
  have l: "layer_laws T" using laws by (simp add: tensor_laws_def)
  note frames = frozen_base_frames [OF build l mk size bases]
  have n: "dict_keys bases = block_keys 0 (length blocks)" using frozen_base [OF build] bases by auto
  have "adapter_typed T lookup d f (length blocks) layers"
    by (rule attached_typed [OF l attach n frames(2)])
  then have "\<forall>blk \<in> set (plug_in blocks layers). block_typed T lookup d f blk" by (rule plug_in_typed [OF frames(1)])
  moreover have "\<forall>blk \<in> set blocks. block_typed T lookup d f blk"
    using frozen_base_typed [OF build l mk size] by (fastforce simp: block_typed_def sublayer_typed_def)
  ultimately show ?thesis using run_blocks_typed [OF laws _ x] by blast
qed

theorem well_typed_model_returns_witness:
  "\<exists>emb blocks head w' bases objs layers lookup.
     build_frozen_base shape_mk shape_embed 12 (int 32) 4 (int 64) 2 0 = (Inr (emb, blocks, head), w') \<and>
     collect_base_sublayers blocks = Inr bases \<and> stored lookup objs layers \<and> length objs = 6 \<and>
     (\<exists>y. run_blocks shape_ops shape_modules lookup (plug_in blocks layers) (example_dtype, [8, 4, 32], 1) = Inr y)"
proof -
  obtain emb blocks head w' where b:
    "build_frozen_base shape_mk shape_embed 12 (int 32) 4 (int 64) 2 0 = (Inr (emb, blocks, head), w')"
    by (simp add: build_frozen_base_def shape_mk_def shape_embed_def sbind_apply sret_apply block_init_def
        numeral_2_eq_2)
  obtain bases where bases: "collect_base_sublayers blocks = Inr bases" "length bases = 6"
    using frozen_base [OF b] by auto
  have ops: "ty_torch shape_typing = shape_ops" "ty_modules shape_typing = shape_modules"
    "ty_dtype shape_typing = example_dtype"
    by (simp_all add: shape_typing_def)
  have "float_of_int 6 = Inr (Fin 6)" using float_of_int_exact [of 6] by simp
  moreover have "fdiv (Fin 12) (Fin 6) = Inr (to_float 2)" by simp
  ultimately obtain objs g where objs: "attach_adapters (ty_torch shape_typing) bases 6 (Fin 12) w' = (Inr objs, g)"
    using attach_returns [of 6] by fastforce
  then have "length objs = 6" using attach_get [OF objs] bases(2) by (metis dict_keys_def length_map)
  moreover obtain lookup layers where "stored lookup objs layers" using stored_exists by blast
  moreover have "has shape_typing (ty_dtype shape_typing) [8, 4, 32] (example_dtype, [8, 4, 32], 1)"
    by (simp add: has_shape ops)
  ultimately show ?thesis
    using well_typed_model_returns [OF shape_laws shape_maker b _ _ _ bases(1) objs] b bases(1)
    unfolding ops by fastforce
qed

end
