(* ===== verification/Progress.thy ===== *)
theory Progress
  imports Training Shapes
begin

text \<open>
  The training loop of \<^verbatim>\<open>src/examples/e2e_training.py\<close> goes through: with layers that fit together, an
  open trainable adapter in the forward path, and operations that behave as documented (a backward
  pass hands out one gradient for each live parameter of the computation, \<open>training_laws\<close>), every
  call of \<open>train_adapter\<close> runs all its steps and returns, armed or not, and leaves the model as
  well typed as before. The store of layers is typed like a heap: each update of the optimizer
  keeps the type and shape of the elements it replaces (\<open>data_kept\<close>).
\<close>

section \<open>What the loop relies on\<close>

text \<open>Token tensors: \<open>b\<close> rows of \<open>n\<close> tokens of the vocabulary.\<close>

definition token_batch :: "int \<Rightarrow> nat \<Rightarrow> nat \<Rightarrow> int list list \<Rightarrow> bool" where
  "token_batch v b n toks \<longleftrightarrow> length toks = b \<and>
     (\<forall>row \<in> set toks. length row = n \<and> (\<forall>t \<in> set row. 0 \<le> t \<and> t < v))"

text \<open>A layer through which the loss depends on trainable matrices.\<close>

definition trainable :: "('s, 'd) plugin_layer \<Rightarrow> bool" where
  "trainable l \<longleftrightarrow> routing_gate_enabled l \<and> requires_grad (matrix_A l) \<and> requires_grad (matrix_B l)"

definition loss_of :: "('s, 'd, 'o) train_ops \<Rightarrow> ('s, 'd) graph \<Rightarrow> 'd result" where
  "loss_of tops G =
     rbind (tr_embed tops (graph_embedding G) (graph_tokens G)) (\<lambda>x.
     rbind (run_blocks (tr_torch tops) (tr_modules tops) (graph_layers G) (graph_blocks G) x) (\<lambda>y.
     rbind (t_base (tr_torch tops) (graph_head G) y) (\<lambda>logits. tr_cross_entropy tops logits (graph_targets G))))"

text \<open>
  The adapter parameters that a computation depends on: those of the layers that stand in the
  sublayers the blocks call, with an open gate, as far as they require gradients.
\<close>

definition sublayer_params ::
  "(layer_ref \<Rightarrow> ('s, 'd) plugin_layer) \<Rightarrow> ('s, 'd) submodule option \<Rightarrow> (layer_ref \<times> which_param) list" where
  "sublayer_params lookup m =
     (case m of
        Some (Adapted r) \<Rightarrow>
          (if routing_gate_enabled (lookup r)
           then filter (\<lambda>(r, p). requires_grad (param_of p (lookup r))) [(r, ParamB), (r, ParamA)] else [])
      | _ \<Rightarrow> [])"

definition live_params :: "('s, 'd) graph \<Rightarrow> (layer_ref \<times> which_param) list" where
  "live_params G = remdups (concat (map (\<lambda>blk. concat (map
     (\<lambda>name. sublayer_params (graph_layers G) (dict_get (sublayers blk) name)) sublayer_names)) (graph_blocks G)))"

lemma sublayer_params_mem:
  "(r, p) \<in> set (sublayer_params lookup m) \<longleftrightarrow>
     m = Some (Adapted r) \<and> routing_gate_enabled (lookup r) \<and> requires_grad (param_of p (lookup r))"
  by (cases p) (auto simp: sublayer_params_def split: option.split submodule.split)

lemma live_params_mem:
  "(r, p) \<in> set (live_params G) \<longleftrightarrow> r \<in> plugged_refs (graph_blocks G) \<and>
     routing_gate_enabled (graph_layers G r) \<and> requires_grad (param_of p (graph_layers G r))"
proof -
  have "(r, p) \<in> set (live_params G) \<longleftrightarrow> (\<exists>blk \<in> set (graph_blocks G). \<exists>name \<in> set sublayer_names.
      (r, p) \<in> set (sublayer_params (graph_layers G) (dict_get (sublayers blk) name)))"
    by (simp add: live_params_def)
  then show ?thesis unfolding sublayer_params_mem plugged_refs_def by blast
qed

lemma live_trainable:
  "r \<in> plugged_refs (graph_blocks G) \<Longrightarrow> trainable (graph_layers G r) \<Longrightarrow> live_params G \<noteq> []"
  using live_params_mem [of r ParamA G] by (auto simp: trainable_def param_of_def)

text \<open>An embedding of \<open>v\<close> tokens in the width of the model.\<close>

definition embedding_typed :: "('s, 'd) typing \<Rightarrow> int \<Rightarrow> nat \<Rightarrow> ('s, 'd) parameter \<Rightarrow> bool" where
  "embedding_typed T v d p \<longleftrightarrow>
     p_shape p = (nat v, d) \<and> p_dtype p = ty_dtype T \<and> has T (ty_dtype T) [nat v, d] (p_data p)"

text \<open>
  The documented behaviour, for a model of width \<open>d\<close> over \<open>v\<close> tokens: random tokens are in range, the
  embedding maps tokens in range to activations, the loss accepts targets in range; \<^verbatim>\<open>backward\<close>
  returns for a loss that was computed and depends on a parameter that requires gradients, and
  hands out one gradient, of the parameter's shape, for each such parameter and for nothing else;
  the optimizer takes any parameters but none and keeps types and shapes.
\<close>

definition training_laws :: "('s, 'd) typing \<Rightarrow> ('s, 'd, 'o) train_ops \<Rightarrow> nat \<Rightarrow> int \<Rightarrow> pyfloat \<Rightarrow> bool" where
  "training_laws T tops d v lr \<longleftrightarrow>
     tensor_laws T \<and> ty_torch T = tr_torch tops \<and> ty_modules T = tr_modules tops \<and>
     (\<forall>b n g. \<exists>toks g'. tr_randint tops v b n g = (Inr toks, g') \<and> token_batch v b n toks) \<and>
     (\<forall>p b n toks. embedding_typed T v d p \<and> 0 < b \<and> token_batch v b n toks \<longrightarrow>
        (\<exists>x. tr_embed tops p toks = Inr x \<and> has T (ty_dtype T) [b, n, d] x)) \<and>
     (\<forall>b n z targets. has T (ty_dtype T) [b, n, nat v] z \<and> token_batch v b n targets \<longrightarrow>
        (\<exists>loss. tr_cross_entropy tops z targets = Inr loss)) \<and>
     (\<forall>G loss. loss_of tops G = Inr loss \<and> live_params G \<noteq> [] \<longrightarrow>
        (\<exists>raw. tr_gradients tops G = Inr raw \<and> distinct (map fst raw) \<and> set (map fst raw) = set (live_params G) \<and>
           (\<forall>((r, p), g) \<in> set raw. length g = fst (p_shape (param_of p (graph_layers G r))) \<and>
              (\<forall>row \<in> set g. length row = snd (p_shape (param_of p (graph_layers G r))))))) \<and>
     (\<forall>params. params \<noteq> [] \<longrightarrow> (\<exists>opt. tr_adam_init tops params lr = Inr opt)) \<and>
     (\<forall>p g x opt dt sh. has T dt sh x \<longrightarrow> has T dt sh (fst (tr_adam tops p g x opt)))"

lemma training_lawsD:
  assumes "training_laws T tops d v lr"
  shows "tensor_laws T" "ty_torch T = tr_torch tops" "ty_modules T = tr_modules tops"
    "\<exists>toks g'. tr_randint tops v b n g = (Inr toks, g') \<and> token_batch v b n toks"
    "embedding_typed T v d p \<Longrightarrow> 0 < b \<Longrightarrow> token_batch v b n toks \<Longrightarrow>
      \<exists>x. tr_embed tops p toks = Inr x \<and> has T (ty_dtype T) [b, n, d] x"
    "has T (ty_dtype T) [b, n, nat v] z \<Longrightarrow> token_batch v b n targets \<Longrightarrow> \<exists>loss. tr_cross_entropy tops z targets = Inr loss"
    "params \<noteq> [] \<Longrightarrow> \<exists>opt. tr_adam_init tops params lr = Inr opt"
proof -
  note L1 = assms [unfolded training_laws_def]
  note L2 = L1 [THEN conjunct2]
  note L3 = L2 [THEN conjunct2]
  note L4 = L3 [THEN conjunct2]
  note L5 = L4 [THEN conjunct2]
  note L6 = L5 [THEN conjunct2]
  note L7 = L6 [THEN conjunct2]
  note L8 = L7 [THEN conjunct2]
  show "tensor_laws T" "ty_torch T = tr_torch tops" "ty_modules T = tr_modules tops"
    "\<exists>toks g'. tr_randint tops v b n g = (Inr toks, g') \<and> token_batch v b n toks"
    using L1 [THEN conjunct1] L2 [THEN conjunct1] L3 [THEN conjunct1] L4 [THEN conjunct1] by blast+
  show "embedding_typed T v d p \<Longrightarrow> 0 < b \<Longrightarrow> token_batch v b n toks \<Longrightarrow>
      \<exists>x. tr_embed tops p toks = Inr x \<and> has T (ty_dtype T) [b, n, d] x"
    using L5 [THEN conjunct1] by blast
  show "has T (ty_dtype T) [b, n, nat v] z \<Longrightarrow> token_batch v b n targets \<Longrightarrow>
      \<exists>loss. tr_cross_entropy tops z targets = Inr loss"
    using L6 [THEN conjunct1] by blast
  show "params \<noteq> [] \<Longrightarrow> \<exists>opt. tr_adam_init tops params lr = Inr opt"
    using L8 [THEN conjunct1] by blast
qed

lemma gradients_exact:
  assumes "training_laws T tops d v lr" and "loss_of tops G = Inr loss" and "live_params G \<noteq> []"
  shows "\<exists>raw. tr_gradients tops G = Inr raw \<and> set (map fst raw) = set (live_params G)"
proof -
  note L = assms(1) [unfolded training_laws_def, THEN conjunct2, THEN conjunct2, THEN conjunct2, THEN conjunct2,
    THEN conjunct2, THEN conjunct2, THEN conjunct1]
  from L [rule_format, OF conjI [OF assms(2,3)]] show ?thesis by blast
qed

lemma gradients_returned:
  assumes "training_laws T tops d v lr" and "loss_of tops G = Inr loss"
    and "r \<in> plugged_refs (graph_blocks G)" and "trainable (graph_layers G r)"
  obtains raw where "tr_gradients tops G = Inr raw"
    "\<forall>((r, p), g) \<in> set raw. r \<in> plugged_refs (graph_blocks G) \<and>
       length g = fst (p_shape (param_of p (graph_layers G r)))"
proof -
  have "\<forall>G loss. loss_of tops G = Inr loss \<and> live_params G \<noteq> [] \<longrightarrow>
        (\<exists>raw. tr_gradients tops G = Inr raw \<and> distinct (map fst raw) \<and> set (map fst raw) = set (live_params G) \<and>
           (\<forall>((r, p), g) \<in> set raw. length g = fst (p_shape (param_of p (graph_layers G r))) \<and>
              (\<forall>row \<in> set g. length row = snd (p_shape (param_of p (graph_layers G r))))))"
    using assms(1) unfolding training_laws_def by (elim conjE)
  with assms(2) live_trainable [OF assms(3,4)] obtain raw where raw: "tr_gradients tops G = Inr raw"
    "set (map fst raw) = set (live_params G)"
    "\<forall>((r, p), g) \<in> set raw. length g = fst (p_shape (param_of p (graph_layers G r))) \<and>
       (\<forall>row \<in> set g. length row = snd (p_shape (param_of p (graph_layers G r))))"
    by blast
  have "r \<in> plugged_refs (graph_blocks G)" if "((r, p), g) \<in> set raw" for r p g
  proof -
    have "(r, p) \<in> set (map fst raw)" using that by force
    then show ?thesis using raw(2) by (simp add: live_params_mem)
  qed
  with that raw show thesis by fast
qed

lemma adam_keeps_type:
  assumes "training_laws T tops d v lr" and "has T dt sh x" and "tr_adam tops p g x opt = (y, opt')"
  shows "has T dt sh y"
proof -
  have "\<forall>p g x opt dt sh. has T dt sh x \<longrightarrow> has T dt sh (fst (tr_adam tops p g x opt))"
    using assms(1) unfolding training_laws_def by (elim conjE)
  with assms(2) have "has T dt sh (fst (tr_adam tops p g x opt))" by blast
  with assms(3) show ?thesis by simp
qed

text \<open>A monitor whose decisions always return, and the states of the device in which they do.\<close>

definition decides :: "('s \<Rightarrow> bool) \<Rightarrow> 's clock \<Rightarrow> 's thermal_monitor \<Rightarrow> bool" where
  "decides P clock m \<longleftrightarrow>
     (\<forall>s. P s \<longrightarrow> (\<exists>hot s'. is_throttling clock m None s = (Inr hot, s') \<and> P s'))"

context temperature_source
begin

lemma source_decides: "mon_reader m = rd \<Longrightarrow> decides inv clock m"
  using is_throttling_run clock_inv rd_inv by (simp add: decides_def)

end

definition ready :: "('s \<Rightarrow> bool) \<Rightarrow> 's clock \<Rightarrow> 's thermal_monitor option \<Rightarrow> bool" where
  "ready P clock monitor \<longleftrightarrow> (\<forall>m. monitor = Some m \<longrightarrow> decides P clock m \<and> (\<exists>k. gate_stride m = Inr k))"

section \<open>Typed stores\<close>

text \<open>Every matrix of the store keeps the type and shape of its elements.\<close>

definition data_kept :: "('s, 'd) typing \<Rightarrow> ('s, 'd, 'o, 'f) app \<Rightarrow> ('s, 'd, 'o, 'f) app \<Rightarrow> bool" where
  "data_kept T a a' \<longleftrightarrow> (\<forall>r p dt sh. has T dt sh (p_data (param_of p (live_layer a r))) \<longrightarrow>
     has T dt sh (p_data (param_of p (live_layer a' r))))"

lemma data_kept_refl [simp]: "data_kept T a a"
  by (simp add: data_kept_def)

lemma data_kept_trans: "data_kept T a b \<Longrightarrow> data_kept T b c \<Longrightarrow> data_kept T a c"
  by (simp add: data_kept_def)

lemma data_kept_unhooked:
  assumes "\<And>r. unhooked (live_layer a' r) = unhooked (live_layer a r)"
  shows "data_kept T a a'"
proof -
  have "p_data (param_of p (live_layer a' r)) = p_data (param_of p (live_layer a r))" for p r
    using unhooked_fields(8,9) [OF assms] by (cases p) (simp_all add: param_of_def)
  then show ?thesis by (simp add: data_kept_def)
qed

lemma data_kept_adam:
  assumes "training_laws T tops d v lr"
  shows "data_kept T a (adam_step tops grads p a)"
proof -
  have "p_data (param_of w (set_data w' x l)) = (if w = w' then x else p_data (param_of w l))"
    for w w' x and l :: "('a, 'b) plugin_layer"
    by (cases w; cases w') (simp_all add: param_of_def set_data_def)
  then show ?thesis
    by (auto simp: adam_step_def data_kept_def split: option.split prod.split intro: adam_keeps_type [OF assms])
qed


text \<open>A step keeps the types: only the optimizer writes elements.\<close>

interpretation typed: kept "data_kept T" for T
  by unfold_locales (auto intro: data_kept_trans)

lemma data_kept_step:
  assumes "training_laws T tops d v lr"
  shows "keeps (data_kept T) (train_step tops clock emb blocks head params t)"
proof -
  have "kept_by_training (data_kept T) tops params"
    by unfold_locales
      (simp_all add: data_kept_adam [OF assms], simp_all add: keeps_def on_generator_def on_device_def data_kept_def split: prod.split)
  then show ?thesis by (rule kept_by_training.step)
qed

section \<open>Layers and blocks over a typed store\<close>

lemma same_but_data_more:
  assumes "same_but_data l l'"
  shows "routing_gate_enabled l' = routing_gate_enabled l" "requires_grad (matrix_A l') = requires_grad (matrix_A l)"
    "requires_grad (matrix_B l') = requires_grad (matrix_B l)" "p_dtype (matrix_A l') = p_dtype (matrix_A l)"
    "p_dtype (matrix_B l') = p_dtype (matrix_B l)"
  using assms by (auto simp: same_but_data_def set_data_def)

lemma unhooked_params [simp]:
  "p_dtype (matrix_A (unhooked l)) = p_dtype (matrix_A l)" "p_dtype (matrix_B (unhooked l)) = p_dtype (matrix_B l)"
  "p_data (matrix_A (unhooked l)) = p_data (matrix_A l)" "p_data (matrix_B (unhooked l)) = p_data (matrix_B l)"
  "requires_grad (matrix_A (unhooked l)) = requires_grad (matrix_A l)"
  "requires_grad (matrix_B (unhooked l)) = requires_grad (matrix_B l)"
  "p_shape (matrix_A (unhooked l)) = p_shape (matrix_A l)" "p_shape (matrix_B (unhooked l)) = p_shape (matrix_B l)"
  "base_layer (unhooked l) = base_layer l" "routing_gate_enabled (unhooked l) = routing_gate_enabled l"
  by (simp_all add: unhooked_def set_hooks_def)

lemma unhooked_typed [simp]:
  "layer_typed T dims (unhooked l) = layer_typed T dims l" "trainable (unhooked l) = trainable l"
  by (simp_all add: layer_typed_def trainable_def)

text \<open>The same layer up to hooks and elements, the elements of the same types and shapes.\<close>

definition retyped :: "('s, 'd) typing \<Rightarrow> ('s, 'd) plugin_layer \<Rightarrow> ('s, 'd) plugin_layer \<Rightarrow> bool" where
  "retyped T l l' \<longleftrightarrow> same_but_data (unhooked l) (unhooked l') \<and>
     (\<forall>p dt sh. has T dt sh (p_data (param_of p l)) \<longrightarrow> has T dt sh (p_data (param_of p l')))"

lemma retyped_refl [simp]: "retyped T l l"
  by (simp add: retyped_def)

lemma retyped_trans: "retyped T l l' \<Longrightarrow> retyped T l' l'' \<Longrightarrow> retyped T l l''"
  using same_but_data_trans by (fastforce simp: retyped_def)

lemma retyped_unhooked:
  assumes "unhooked l' = unhooked l"
  shows "retyped T l l'"
proof -
  have "p_data (param_of p l') = p_data (param_of p l)" for p
    using unhooked_fields(8,9) [OF assms] by (cases p) (simp_all add: param_of_def)
  then show ?thesis using assms by (simp add: retyped_def)
qed

lemma retyped_typed:
  assumes "retyped T l l'"
  shows "layer_typed T dims l \<Longrightarrow> layer_typed T dims l'" "trainable l' = trainable l"
proof -
  have s: "same_but_data (unhooked l) (unhooked l')" using assms by (simp add: retyped_def)
  have "has T dt sh (p_data (matrix_A l)) \<Longrightarrow> has T dt sh (p_data (matrix_A l'))"
    "has T dt sh (p_data (matrix_B l)) \<Longrightarrow> has T dt sh (p_data (matrix_B l'))" for dt sh
    using assms unfolding retyped_def param_of_def by (metis which_param.simps(3), metis which_param.simps(4))
  then show "layer_typed T dims l \<Longrightarrow> layer_typed T dims l'"
    using same_but_data_more(4,5) [OF s] same_but_data_fields(5) [OF s]
    unfolding layer_typed_def by simp blast
  show "trainable l' = trainable l"
    using same_but_data_more(1-3) [OF s] by (simp add: trainable_def)
qed

lemma retyped_app:
  assumes "touched refs a a'" and "data_kept T a a'"
  shows "retyped T (live_layer a r) (live_layer a' r)"
  using assms by (simp add: touched_def data_kept_def retyped_def)

lemma block_typed_kept:
  assumes "block_typed T lookup d f blk" and "\<And>r. retyped T (lookup r) (lookup' r)"
  shows "block_typed T lookup' d f blk"
  using assms(1) retyped_typed(1) [OF assms(2)]
  by (auto simp: block_typed_def sublayer_typed_def split: option.splits submodule.splits)

section \<open>One step\<close>

text \<open>What may hang on a parameter of the adapter: nothing, or one gate of the monitor in use.\<close>

definition gates_fit :: "'s thermal_monitor option \<Rightarrow> ('s, 'd) plugin_layer \<Rightarrow> bool" where
  "gates_fit monitor l \<longleftrightarrow> (\<forall>p. hooks_of p l = [] \<or>
     (\<exists>m i k. monitor = Some m \<and> hooks_of p l = [(i, Gate k (fst (p_shape (param_of p l))) m)]))"

lemma run_hooks_total:
  assumes "ready P clock monitor" and "P s" and "gates_fit monitor l" and "length g = fst (p_shape (param_of p l))"
  shows "\<exists>h s'. run_hooks clock (hooks_of p l) g s = (Inr h, s') \<and> P s'"
proof (cases "hooks_of p l = []")
  case True
  with assms(2) show ?thesis by (simp add: sret_apply)
next
  case False
  then obtain m i k where m: "monitor = Some m" "hooks_of p l = [(i, Gate k (fst (p_shape (param_of p l))) m)]"
    using assms(3) unfolding gates_fit_def by metis
  then obtain hot s' where "is_throttling clock m None s = (Inr hot, s')" "P s'"
    using assms(1,2) unfolding ready_def decides_def by blast
  with m(2) assms(4) show ?thesis by (simp add: sbind_apply sret_apply)
qed

lemma run_backward_total:
  assumes "ready P clock monitor" and "P (device_state a)"
    and "\<forall>((r, p), g) \<in> set raw. gates_fit monitor (live_layer a r) \<and> length g = fst (p_shape (param_of p (live_layer a r)))"
  shows "\<exists>grads s. run_backward clock raw a = (Inr grads, a\<lparr>device_state := s\<rparr>) \<and> P s"
  using assms(2,3)
proof (induction raw arbitrary: a)
  case Nil
  then show ?case by (intro exI [of _ "[]"] exI [of _ "device_state a"]) (simp add: sret_apply)
next
  case (Cons x raw)
  obtain r p g where x: "x = ((r, p), g)" by (metis surj_pair)
  obtain h s where h: "run_hooks clock (hooks_of p (live_layer a r)) g (device_state a) = (Inr h, s)" "P s"
    using run_hooks_total [OF assms(1) Cons.prems(1)] Cons.prems(2) x by force
  obtain hs s' where "run_backward clock raw (a\<lparr>device_state := s\<rparr>) = (Inr hs, a\<lparr>device_state := s\<rparr>\<lparr>device_state := s'\<rparr>)" "P s'"
    using Cons.IH [of "a\<lparr>device_state := s\<rparr>"] h(2) Cons.prems(2) by auto
  with h(1) show ?case
    by (intro exI [of _ "((r, p), h) # hs"] exI [of _ s']) (simp add: x sbind_apply sret_apply on_device_def)
qed

text \<open>The program can take a training step: the model is well typed, it can be trained, its gates fit.\<close>

definition steppable ::
  "('s, 'd) typing \<Rightarrow> nat \<Rightarrow> nat \<Rightarrow> ('s \<Rightarrow> bool) \<Rightarrow> 's thermal_monitor option \<Rightarrow> ('s, 'd) tblock list \<Rightarrow>
   ('s, 'd, 'o, 'f) app \<Rightarrow> bool" where
  "steppable T d f P monitor blocks a \<longleftrightarrow>
     (\<forall>blk \<in> set blocks. block_typed T (layer_at (session a)) d f blk) \<and>
     (\<exists>r \<in> plugged_refs blocks. trainable (live_layer a r)) \<and>
     (\<forall>r \<in> plugged_refs blocks. gates_fit monitor (live_layer a r)) \<and> P (device_state a)"

lemma batch_total:
  assumes laws: "training_laws T tops d v lr" and v: "0 < v" and shift: "- (2 ^ 63) \<le> shift" "shift < 2 ^ 63"
  shows "\<exists>tokens targets g. synthetic_batch tops v b n shift a = (Inr (tokens, targets), a\<lparr>generator := g\<rparr>) \<and>
    token_batch v b n tokens \<and> token_batch v b n targets"
proof -
  obtain toks g where toks: "tr_randint tops v b n (generator a) = (Inr toks, g)" "token_batch v b n toks"
    using training_lawsD(4) [OF laws] by blast
  have "0 \<le> shift_token v shift t \<and> shift_token v shift t < v" for t
    using v by (simp add: shift_token_def)
  then have "token_batch v b n (map (map (shift_token v shift)) toks)"
    using toks(2) by (auto simp: token_batch_def)
  moreover have "synthetic_batch tops v b n shift a =
      (Inr (toks, map (map (shift_token v shift)) toks), a\<lparr>generator := g\<rparr>)"
    using toks(1) shift by (simp add: synthetic_batch_def sbind_apply on_generator_def sret_apply)
  ultimately show ?thesis using toks(2) by blast
qed

lemma forward_total:
  assumes laws: "training_laws T tops d v lr"
    and blocks: "\<forall>blk \<in> set blocks. block_typed T (layer_at (session a)) d f blk"
    and ends: "embedding_typed T v d emb" "linear_typed T (nat v, d) head"
    and toks: "0 < b" "token_batch v b n tokens"
  shows "\<exists>logits. model_forward tops emb blocks head tokens a = (Inr logits, a) \<and> has T (ty_dtype T) [b, n, nat v] logits"
proof -
  note D = training_lawsD [OF laws]
  obtain x where x: "tr_embed tops emb tokens = Inr x" "has T (ty_dtype T) [b, n, d] x"
    using D(5) [OF ends(1) toks] by blast
  obtain y where y: "run_blocks (tr_torch tops) (tr_modules tops) (layer_at (session a)) blocks x = Inr y"
    "has T (ty_dtype T) [b, n, d] y"
    using run_blocks_typed [OF D(1) blocks x(2)] D(2,3) by auto
  have "layer_laws T" using D(1) by (simp add: tensor_laws_def)
  from layer_lawsD(2) [OF this, of head "nat v" d "[b, n]" y] ends(2) y(2) D(2)
  obtain z where "t_base (tr_torch tops) head y = Inr z" "has T (ty_dtype T) [b, n, nat v] z"
    by (auto simp: linear_typed_def)
  with x(1) y(1) show ?thesis by (simp add: model_forward_def)
qed

lemma adam_all_device: "device_state (fold (adam_step tops grads) params b) = device_state b"
  by (induction params arbitrary: b) (simp_all add: adam_step_def split: option.split prod.split)

lemma train_step_total:
  assumes laws: "training_laws T tops d (vocab_size t) lr" and v: "0 < vocab_size t"
    and shift: "- (2 ^ 63) \<le> task_shift t" "task_shift t < 2 ^ 63" and size: "0 < batch_size t"
    and ends: "embedding_typed T (vocab_size t) d emb" "linear_typed T (nat (vocab_size t), d) head"
    and ready: "ready P clock monitor" and ok: "steppable T d f P monitor blocks a"
  shows "\<exists>loss a'. train_step tops clock emb blocks head params t a = (Inr loss, a') \<and> P (device_state a')"
proof -
  let ?b = "batch_size t" and ?n = "sequence_length t" and ?v = "vocab_size t"
  have typed: "\<forall>blk \<in> set blocks. block_typed T (layer_at (session a)) d f blk"
    and grad: "\<exists>r \<in> plugged_refs blocks. trainable (live_layer a r)"
    and fit: "\<forall>r \<in> plugged_refs blocks. gates_fit monitor (live_layer a r)" and P: "P (device_state a)"
    using ok by (simp_all add: steppable_def)
  obtain tokens targets g where batch:
    "synthetic_batch tops ?v ?b ?n (task_shift t) a = (Inr (tokens, targets), a\<lparr>generator := g\<rparr>)"
    "token_batch ?v ?b ?n tokens" "token_batch ?v ?b ?n targets"
    using batch_total [OF laws v shift] by blast
  let ?a = "a\<lparr>generator := g\<rparr>"
  obtain logits where logits: "model_forward tops emb blocks head tokens ?a = (Inr logits, ?a)"
    "has T (ty_dtype T) [?b, ?n, nat ?v] logits"
    using forward_total [OF laws _ ends size batch(2), of blocks ?a] typed by auto
  obtain loss where loss: "tr_cross_entropy tops logits targets = Inr loss"
    using training_lawsD(6) [OF laws logits(2) batch(3)] by blast
  let ?G = "\<lparr>graph_layers = layer_at (session a), graph_embedding = emb, graph_blocks = blocks, graph_head = head,
    graph_tokens = tokens, graph_targets = targets\<rparr>"
  have computed: "loss_of tops ?G = Inr loss"
    using logits(1) loss by (auto simp: loss_of_def model_forward_def rbind_Inr_iff)
  obtain r where "r \<in> plugged_refs (graph_blocks ?G)" "trainable (graph_layers ?G r)" using grad by auto
  from gradients_returned [OF laws computed this] obtain raw where raw: "tr_gradients tops ?G = Inr raw"
    "\<forall>((r, p), g) \<in> set raw. r \<in> plugged_refs blocks \<and> length g = fst (p_shape (param_of p (live_layer a r)))"
    by auto
  have "\<forall>((r, p), g) \<in> set raw. gates_fit monitor (live_layer ?a r) \<and> length g = fst (p_shape (param_of p (live_layer ?a r)))"
    using raw(2) fit by auto
  then obtain grads s where bw: "run_backward clock raw ?a = (Inr grads, ?a\<lparr>device_state := s\<rparr>)" "P s"
    using run_backward_total [OF ready, of ?a raw] P by auto
  show ?thesis
    using batch(1) logits(1) loss raw(1) bw
    by (simp add: train_step_def sbind_apply slift_apply supd_apply sret_apply adam_all_device)
qed

text \<open>
  What a step does to a live parameter that the optimizer was given: its elements are those that
  the optimizer computes from them and from a gradient that the backward pass produced.
\<close>

lemma adam_other:
  "q \<noteq> p \<Longrightarrow> p_data (param_of (snd p) (live_layer (adam_step tops grads q a) (fst p))) =
     p_data (param_of (snd p) (live_layer a (fst p)))"
  by (cases "snd p"; cases "snd q")
    (auto simp: adam_step_def set_layer_def set_data_def param_of_def prod_eq_iff split: option.split prod.split)

lemma adam_all_other:
  "p \<notin> set params \<Longrightarrow> p_data (param_of (snd p) (live_layer (fold (adam_step tops grads) params a) (fst p))) =
     p_data (param_of (snd p) (live_layer a (fst p)))"
proof (induction params arbitrary: a)
  case (Cons q params)
  then have "q \<noteq> p" "p \<notin> set params" by auto
  with Cons.IH [of "adam_step tops grads q a"] adam_other [of q p tops grads a] show ?case by simp
qed simp

lemma adam_all_moves:
  assumes "distinct params" and "p \<in> set params" and g: "map_of grads p = Some g"
  shows "\<exists>opt. p_data (param_of (snd p) (live_layer (fold (adam_step tops grads) params a) (fst p))) =
     fst (tr_adam tops p g (p_data (param_of (snd p) (live_layer a (fst p)))) opt)"
  using assms(1,2)
proof (induction params arbitrary: a)
  case (Cons q params)
  let ?b = "adam_step tops grads q a"
  show ?case
  proof (cases "q = p")
    case True
    have "p_data (param_of (snd p) (live_layer ?b (fst p))) =
        fst (tr_adam tops p g (p_data (param_of (snd p) (live_layer a (fst p)))) (optimizer a))"
      using g by (cases "snd p") (auto simp: True adam_step_def set_layer_def set_data_def param_of_def split: prod.split)
    moreover have "p \<notin> set params" using Cons.prems True by simp
    ultimately show ?thesis using adam_all_other [of p params tops grads ?b] by auto
  next
    case False
    with Cons.prems have "distinct params" "p \<in> set params" by auto
    from Cons.IH [OF this, of ?b] adam_other [OF False, of tops grads a] show ?thesis by simp
  qed
qed simp

lemma run_backward_session:
  "run_backward clock raw a = (Inr grads, b) \<Longrightarrow> session b = session a \<and> map fst grads = map fst raw"
proof (induction raw arbitrary: a grads)
  case (Cons x raw)
  then obtain h c hs where run: "on_device (run_hooks clock (hooks_of (snd (fst x)) (live_layer a (fst (fst x)))) (snd x)) a = (Inr h, c)"
    "run_backward clock raw c = (Inr hs, b)" "grads = (fst x, h) # hs"
    by (auto simp: sbind_Inr_iff sret_apply)
  have "session c = session a" using run(1) by (auto simp: on_device_def split: prod.splits)
  with Cons.IH [OF run(2)] run(3) show ?case by simp
qed (simp add: sret_apply)

lemma train_step_moves:
  assumes laws: "training_laws T tops d v lr"
    and run: "train_step tops clock emb blocks head params t a = (Inr loss, a')"
    and params: "distinct params" "(r, p) \<in> set params"
    and live: "r \<in> plugged_refs blocks" "trainable (live_layer a r)"
  shows "\<exists>g opt. p_data (param_of p (live_layer a' r)) =
    fst (tr_adam tops (r, p) g (p_data (param_of p (live_layer a r))) opt)"
proof -
  obtain toks tgts a1 logits l raw grads a2 where steps:
    "synthetic_batch tops (vocab_size t) (batch_size t) (sequence_length t) (task_shift t) a = (Inr (toks, tgts), a1)"
    "model_forward tops emb blocks head toks a1 = (Inr logits, a1)" "tr_cross_entropy tops logits tgts = Inr l"
    "tr_gradients tops \<lparr>graph_layers = layer_at (session a1), graph_embedding = emb, graph_blocks = blocks,
       graph_head = head, graph_tokens = toks, graph_targets = tgts\<rparr> = Inr raw"
    "run_backward clock raw a1 = (Inr grads, a2)" "a' = fold (adam_step tops grads) params a2"
    using run by (force simp: train_step_def sbind_Inr_iff slift_apply supd_apply sret_apply
        model_forward_def case_prod_unfold)
  let ?G = "\<lparr>graph_layers = layer_at (session a1), graph_embedding = emb, graph_blocks = blocks,
     graph_head = head, graph_tokens = toks, graph_targets = tgts\<rparr>"
  have a1: "session a1 = session a"
    using steps(1) by (auto simp: synthetic_batch_def sbind_Inr_iff on_generator_def sret_apply sraise_apply
        split: prod.splits if_splits)
  have loss: "loss_of tops ?G = Inr l"
    using steps(2,3) by (auto simp: loss_of_def model_forward_def rbind_Inr_iff)
  have mem: "(r, p) \<in> set (live_params ?G)"
    using live by (cases p) (auto simp: live_params_mem a1 trainable_def param_of_def)
  then have "live_params ?G \<noteq> []" by auto
  from gradients_exact [OF laws loss this] steps(4) have "set (map fst raw) = set (live_params ?G)" by auto
  with mem have mem_raw: "(r, p) \<in> set (map fst raw)" by blast
  have same: "session a2 = session a1" "map fst grads = map fst raw"
    using run_backward_session [OF steps(5)] by simp_all
  have "(r, p) \<in> set (map fst grads)" by (simp only: same mem_raw)
  then obtain g where "map_of grads (r, p) = Some g"
    by (metis map_of_eq_None_iff not_Some_eq set_map)
  from adam_all_moves [OF params this, of tops a2] show ?thesis
    by (auto simp: steps(6) same a1)
qed

lemma gates_fit_kept:
  assumes "same_but_data l l'"
  shows "gates_fit monitor l' = gates_fit monitor l"
proof -
  have "p_shape (param_of p l') = p_shape (param_of p l)" for p
    using same_but_data_fields(8,9) [OF assms] by (cases p) (simp_all add: param_of_def)
  then show ?thesis using same_but_data_fields(1) [OF assms] by (simp add: gates_fit_def)
qed

lemma steppable_kept:
  assumes "steppable T d f P monitor blocks a" and "trained refs a a'" and "data_kept T a a'" and "P (device_state a')"
  shows "steppable T d f P monitor blocks a'"
proof -
  have re: "retyped T (live_layer a r) (live_layer a' r)" for r
    by (rule retyped_app [OF trained_touched [OF assms(2)] assms(3)])
  have "gates_fit monitor (live_layer a' r) = gates_fit monitor (live_layer a r)" for r
    using assms(2) by (intro gates_fit_kept) (simp add: trained_def)
  with assms(1,4) show ?thesis
    using block_typed_kept [OF _ re] retyped_typed(2) [OF re] by (simp add: steppable_def)
qed

lemma train_steps_total:
  assumes laws: "training_laws T tops d (vocab_size t) lr" and v: "0 < vocab_size t"
    and shift: "- (2 ^ 63) \<le> task_shift t" "task_shift t < 2 ^ 63" and size: "0 < batch_size t"
    and ends: "embedding_typed T (vocab_size t) d emb" "linear_typed T (nat (vocab_size t), d) head"
    and ready: "ready P clock monitor" and refs: "fst ` set params \<subseteq> refs"
  shows "steppable T d f P monitor blocks a \<Longrightarrow>
    \<exists>losses a'. train_steps n tops clock emb blocks head params t a = (Inr losses, a') \<and> length losses = n \<and>
      steppable T d f P monitor blocks a' \<and> trained refs a a' \<and> data_kept T a a'"
proof (induction n arbitrary: a)
  case 0
  then show ?case by (intro exI [of _ "[]"] exI [of _ a]) (simp add: sret_apply)
next
  case (Suc n)
  obtain loss b where b: "train_step tops clock emb blocks head params t a = (Inr loss, b)" "P (device_state b)"
    using train_step_total [OF laws v shift size ends ready Suc.prems] by blast
  have kept: "trained refs a b" "data_kept T a b"
    using keepsD [OF trained_step [OF refs] b(1)] keepsD [OF data_kept_step [OF laws] b(1)] by simp_all
  obtain losses c where c: "train_steps n tops clock emb blocks head params t b = (Inr losses, c)" "length losses = n"
    "steppable T d f P monitor blocks c" "trained refs b c" "data_kept T b c"
    using Suc.IH [OF steppable_kept [OF Suc.prems kept b(2)]] by blast
  have "train_steps (Suc n) tops clock emb blocks head params t a = (Inr (loss # losses), c)"
    using b(1) c(1) by (simp add: sbind_apply sret_apply)
  with c(2,3) trained_trans [OF kept(1) c(4)] data_kept_trans [OF kept(2) c(5)] show ?case by fastforce
qed

section \<open>A whole call\<close>

definition bare :: "('s, 'd) plugin_layer \<Rightarrow> bool" where
  "bare l \<longleftrightarrow> gate_handles l = [] \<and> (\<forall>p. hooks_of p l = [])"

lemma bare_hooks: "bare l \<Longrightarrow> foreign_hooks p l = []" "bare l \<Longrightarrow> ids_below n l" "bare l \<Longrightarrow> gates_fit monitor l"
  by (simp_all add: bare_def foreign_hooks_def ids_below_def gates_fit_def)

lemma arm_fits:
  assumes "\<forall>m. monitor = Some m \<longrightarrow> (\<exists>k. gate_stride m = Inr k)"
    and "\<forall>r \<in> set (dict_values layers). bare (live_layer a r)"
  obtains b where "with_monitor monitor layers arm_layer a = (Inr (), b)" "same_rest a b"
    "\<forall>r. unhooked (live_layer b r) = unhooked (live_layer a r)"
    "\<forall>r. r \<notin> set (dict_values layers) \<longrightarrow> live_layer b r = live_layer a r"
    "\<forall>r \<in> set (dict_values layers). gates_fit monitor (live_layer b r) \<and> (\<forall>p. foreign_hooks p (live_layer b r) = [])"
    "monitor = None \<longrightarrow> b = a"
proof (cases monitor)
  case None
  have "\<forall>r \<in> set (dict_values layers). gates_fit monitor (live_layer a r) \<and> (\<forall>p. foreign_hooks p (live_layer a r) = [])"
    using assms(2) bare_hooks(1,3) by blast
  with None show thesis using that [of a] by (simp add: with_monitor_def sret_apply same_rest_def)
next
  case (Some m)
  let ?rs = "dict_values layers"
  obtain k where k: "gate_stride m = Inr k" using assms(1) Some by blast
  have below: "\<forall>s \<in> set ?rs. ids_below (hook_ids a) (live_layer a s)" using assms(2) bare_hooks(2) by blast
  obtain b where b: "sfor ?rs (arm_layer m) a = (Inr (), b)" "same_rest a b"
    "\<forall>s. unhooked (live_layer b s) = unhooked (live_layer a s)"
    "\<forall>s \<in> set ?rs. \<forall>p. foreign_hooks p (live_layer b s) = foreign_hooks p (live_layer a s)"
    "\<forall>s. s \<notin> set ?rs \<longrightarrow> live_layer b s = live_layer a s"
    "\<forall>s \<in> set ?rs. \<forall>p. \<exists>i. hooks_of p (live_layer b s) =
       foreign_hooks p (live_layer a s) @ [(i, Gate k (fst (p_shape (param_of p (live_layer a s)))) m)]"
    by (rule arm_layers_run [OF k below subset_refl])
  have "gates_fit monitor (live_layer b s) \<and> (\<forall>p. foreign_hooks p (live_layer b s) = [])" if s: "s \<in> set ?rs" for s
  proof -
    have none: "foreign_hooks p (live_layer a s) = []" for p using assms(2) s bare_hooks(1) by blast
    have "p_shape (param_of p (live_layer b s)) = p_shape (param_of p (live_layer a s))" for p
      using b(3) by (intro unhooked_shape) simp
    moreover have "\<exists>i. hooks_of p (live_layer b s) = [(i, Gate k (fst (p_shape (param_of p (live_layer a s)))) m)]" for p
      using b(6) none s by (metis append_Nil)
    ultimately have "gates_fit monitor (live_layer b s)" unfolding gates_fit_def Some by (metis (no_types, lifting))
    then show ?thesis using none b(4) s by simp
  qed
  with b Some show thesis using that [of b] by (simp add: with_monitor_def)
qed

lemma disarm_bare:
  obtains e where "with_monitor monitor layers (\<lambda>_. disarm_layer) d = (Inr (), e)" "same_rest d e"
    "\<forall>r. unhooked (live_layer e r) = unhooked (live_layer d r)"
    "\<forall>r. r \<notin> set (dict_values layers) \<longrightarrow> live_layer e r = live_layer d r"
    "\<forall>r \<in> set (dict_values layers). monitor \<noteq> None \<longrightarrow>
       gate_handles (live_layer e r) = [] \<and> (\<forall>p. hooks_of p (live_layer e r) = foreign_hooks p (live_layer d r))"
    "monitor = None \<longrightarrow> e = d"
proof (cases monitor)
  case None
  then show thesis using that [of d] by (simp add: with_monitor_def sret_apply same_rest_def)
next
  case (Some m)
  obtain e where e: "sfor (dict_values layers) disarm_layer d = (Inr (), e)" "same_rest d e"
    "\<forall>s. live_layer e s = (if s \<in> set (dict_values layers) then clear_gradient_gate (live_layer d s) else live_layer d s)"
    by (rule disarm_layers_run)
  with Some show thesis using that [of e] by (simp add: with_monitor_def)
qed

lemma train_adapter_total:
  assumes laws: "training_laws T tops d (vocab_size t) lr" and v: "0 < vocab_size t"
    and shift: "- (2 ^ 63) \<le> task_shift t" "task_shift t < 2 ^ 63" and size: "0 < batch_size t"
    and ends: "embedding_typed T (vocab_size t) d emb" "linear_typed T (nat (vocab_size t), d) head"
    and ready: "ready P clock monitor" and P: "P (device_state a)"
    and typed: "\<forall>blk \<in> set blocks. block_typed T (layer_at (session a)) d f blk"
    and refs: "plugged_refs blocks \<subseteq> set (dict_values layers)"
    and grad: "\<exists>r \<in> plugged_refs blocks. trainable (live_layer a r)"
    and bare: "\<forall>r \<in> set (dict_values layers). bare (live_layer a r)"
  shows "\<exists>losses a'. train_adapter tops clock emb blocks head layers t steps lr monitor a = (Inr losses, a') \<and>
    length losses = steps \<and> P (device_state a') \<and> data_kept T a a' \<and>
    (\<forall>r \<in> set (dict_values layers). bare (live_layer a' r))"
proof -
  let ?rs = "set (dict_values layers)" and ?ps = "adapter_params layers"
  have "\<forall>m. monitor = Some m \<longrightarrow> (\<exists>k. gate_stride m = Inr k)" using ready by (simp add: ready_def)
  from arm_fits [OF this bare] obtain b where b: "with_monitor monitor layers arm_layer a = (Inr (), b)"
    "same_rest a b" "\<forall>r. unhooked (live_layer b r) = unhooked (live_layer a r)"
    "\<forall>r. r \<notin> ?rs \<longrightarrow> live_layer b r = live_layer a r"
    "\<forall>r \<in> ?rs. gates_fit monitor (live_layer b r) \<and> (\<forall>p. foreign_hooks p (live_layer b r) = [])"
    "monitor = None \<longrightarrow> b = a" by blast
  have "fst ` set ?ps \<noteq> {}" using refs grad by (auto simp: adapter_params_refs)
  then obtain opt where opt: "tr_adam_init tops ?ps lr = Inr opt"
    using training_lawsD(7) [OF laws, of ?ps] by auto
  let ?c = "b\<lparr>optimizer := opt\<rparr>"
  have re: "retyped T (live_layer a r) (live_layer ?c r)" for r
    by (rule retyped_unhooked) (use b(3) in simp)
  have "steppable T d f P monitor blocks ?c"
    using block_typed_kept [OF _ re] retyped_typed(2) [OF re] typed grad refs b(2,5) P
    by (auto simp: steppable_def same_rest_def)
  from train_steps_total [OF laws v shift size ends ready _ this, of ?ps ?rs steps] obtain losses s where s:
    "train_steps steps tops clock emb blocks head ?ps t ?c = (Inr losses, s)" "length losses = steps"
    "steppable T d f P monitor blocks s" "trained ?rs ?c s" "data_kept T ?c s"
    by (auto simp: adapter_params_refs)
  obtain e where e: "with_monitor monitor layers (\<lambda>_. disarm_layer) s = (Inr (), e)" "same_rest s e"
    "\<forall>r. unhooked (live_layer e r) = unhooked (live_layer s r)"
    "\<forall>r \<in> ?rs. monitor \<noteq> None \<longrightarrow>
       gate_handles (live_layer e r) = [] \<and> (\<forall>p. hooks_of p (live_layer e r) = foreign_hooks p (live_layer s r))"
    "monitor = None \<longrightarrow> e = s"
    by (rule disarm_bare)
  have "train_adapter tops clock emb blocks head layers t steps lr monitor a = (Inr losses, e)"
    by (simp add: train_adapter_def sbind_apply b(1) new_optimizer_def slift_apply supd_apply opt try_finally_def s(1) e(1))
  moreover have "P (device_state e)" using s(3) e(2) by (simp add: steppable_def same_rest_def)
  moreover have "data_kept T a e"
  proof -
    have "data_kept T a ?c" "data_kept T s e" using b(3) e(3) by (auto intro!: data_kept_unhooked)
    with s(5) show ?thesis using data_kept_trans by blast
  qed
  moreover have "bare (live_layer e r)" if r: "r \<in> ?rs" for r
  proof (cases monitor)
    case None
    then have "bare (live_layer ?c r)" "same_but_data (live_layer ?c r) (live_layer e r)"
      using b(6) e(5) s(4) bare r by (simp_all add: trained_def)
    then show ?thesis by (simp add: bare_def same_but_data_fields)
  next
    case (Some m)
    have "foreign_hooks p (live_layer s r) = foreign_hooks p (live_layer ?c r)" for p
      using s(4) by (simp add: trained_def same_but_data_fields)
    with Some b(5) e(4) r show ?thesis by (simp add: bare_def)
  qed
  ultimately show ?thesis using s(2) by blast
qed

section \<open>Shapes as tensors\<close>

text \<open>A fresh adapter carries no hooks and can be trained.\<close>

lemma layer_init_fresh:
  assumes "layer_init ops base r alpha dt g = (Inr l, g')"
  shows "bare l \<and> trainable l"
  using layer_init_built [OF assms] by (auto simp: built_layer_fields bare_def trainable_def)

lemma attach_fresh:
  "attach_adapters ops bases r alpha g = (Inr objs, g') \<Longrightarrow> \<forall>(n, l) \<in> set objs. bare l \<and> trainable l"
proof (induction bases arbitrary: objs g)
  case (Cons b bases)
  obtain n base where b: "b = (n, base)" by (cases b)
  from Cons.prems obtain l h ls where "layer_init ops base r alpha None g = (Inr l, h)"
    "attach_adapters ops bases r alpha h = (Inr ls, g')" "objs = (n, l) # ls"
    by (auto simp: b sbind_Inr_iff sret_apply)
  with Cons.IH layer_init_fresh show ?case by fastforce
qed (simp add: sret_apply)

lemma stored_fresh:
  assumes "stored lookup objs layers" and "\<forall>(n, l) \<in> set objs. Q l"
  shows "\<forall>r \<in> set (dict_values layers). Q (lookup r)"
  using assms unfolding stored_def dict_values_def by (induction rule: list_all2_induct) auto

text \<open>
  An instance of the laws: autograd hands out a gradient of ones for every live parameter, and the
  optimizer changes the elements of the matrix it is given.
\<close>

definition shape_gradients :: "('s, 'd) graph \<Rightarrow> ((layer_ref \<times> which_param) \<times> gradient) list result" where
  "shape_gradients G =
     (if live_params G = [] then Inl RuntimeError
      else Inr (map (\<lambda>(r, p). ((r, p), (let (m, n) = p_shape (param_of p (graph_layers G r))
         in replicate m (replicate n (Fin 1))))) (live_params G)))"

definition shape_train_ops :: "nat \<Rightarrow> (scripted_reader, shape_tensor, unit) train_ops" where
  "shape_train_ops d =
     \<lparr>tr_randint = (\<lambda>v b n g. (Inr (replicate b (replicate n (v - 1))), g + 1)),
      tr_embed = (\<lambda>p toks. Inr (p_dtype p, [length toks, length (hd toks), d], snd (snd (p_data p)))),
      tr_torch = shape_ops, tr_modules = shape_modules,
      tr_cross_entropy = (\<lambda>(dt, sh, c) targets. Inr (dt, [], c)), tr_gradients = shape_gradients,
      tr_adam_init = (\<lambda>ps lr. if ps = [] then Inl ValueError else Inr ()),
      tr_adam = (\<lambda>p g (dt, sh, c) opt. ((dt, sh, Suc c), opt)), tr_item = (\<lambda>_. Fin 0)\<rparr>"

lemma shape_gradients_ok:
  assumes "live_params G \<noteq> []"
  shows "\<exists>raw. shape_gradients G = Inr raw \<and> distinct (map fst raw) \<and> set (map fst raw) = set (live_params G) \<and>
    (\<forall>((r, p), g) \<in> set raw. length g = fst (p_shape (param_of p (graph_layers G r))) \<and>
      (\<forall>row \<in> set g. length row = snd (p_shape (param_of p (graph_layers G r)))))"
proof -
  let ?f = "\<lambda>r p. let (m, n) = p_shape (param_of p (graph_layers G r)) in replicate m (replicate n (Fin 1))"
  let ?raw = "map (\<lambda>(r, p). ((r, p), ?f r p)) (live_params G)"
  have keys: "map fst (map (\<lambda>(r, p). ((r, p), f r p)) xs) = xs" for f :: "layer_ref \<Rightarrow> which_param \<Rightarrow> gradient" and xs
    by (induction xs) auto
  have "shape_gradients G = Inr ?raw" using assms by (simp add: shape_gradients_def)
  moreover have "distinct (map fst ?raw)" "set (map fst ?raw) = set (live_params G)"
    unfolding keys by (simp_all add: live_params_def)
  moreover have "\<forall>((r, p), g) \<in> set ?raw. length g = fst (p_shape (param_of p (graph_layers G r))) \<and>
      (\<forall>row \<in> set g. length row = snd (p_shape (param_of p (graph_layers G r))))"
    by (auto simp: split_beta)
  ultimately show ?thesis by blast
qed

lemma shape_training_laws:
  assumes "0 < v"
  shows "training_laws shape_typing (shape_train_ops d) d v lr"
  unfolding training_laws_def
proof (intro conjI allI impI)
  have T: "ty_torch shape_typing = shape_ops" "ty_modules shape_typing = shape_modules"
    "ty_dtype shape_typing = example_dtype"
    by (simp_all add: shape_typing_def)
  show "tensor_laws shape_typing" "ty_torch shape_typing = tr_torch (shape_train_ops d)"
    "ty_modules shape_typing = tr_modules (shape_train_ops d)"
    by (simp_all add: shape_laws shape_train_ops_def T)
  show "\<exists>toks g'. tr_randint (shape_train_ops d) v b n g = (Inr toks, g') \<and> token_batch v b n toks" for b n g
    using assms by (simp add: shape_train_ops_def token_batch_def)
  show "\<exists>x. tr_embed (shape_train_ops d) p toks = Inr x \<and> has shape_typing (ty_dtype shape_typing) [b, n, d] x"
    if "embedding_typed shape_typing v d p \<and> 0 < b \<and> token_batch v b n toks" for p b n toks
  proof -
    have "toks \<noteq> []" using that by (auto simp: token_batch_def)
    then have "hd toks \<in> set toks" by simp
    then show ?thesis using that by (auto simp: has_shape T shape_train_ops_def token_batch_def embedding_typed_def)
  qed
  show "\<exists>loss. tr_cross_entropy (shape_train_ops d) z targets = Inr loss"
    if "has shape_typing (ty_dtype shape_typing) [b, n, nat v] z \<and> token_batch v b n targets" for b n z targets
    by (simp add: shape_train_ops_def split_beta)
  show "\<exists>raw. tr_gradients (shape_train_ops d) G = Inr raw \<and> distinct (map fst raw) \<and>
      set (map fst raw) = set (live_params G) \<and>
      (\<forall>((r, p), g) \<in> set raw. length g = fst (p_shape (param_of p (graph_layers G r))) \<and>
        (\<forall>row \<in> set g. length row = snd (p_shape (param_of p (graph_layers G r)))))"
    if "loss_of (shape_train_ops d) G = Inr loss \<and> live_params G \<noteq> []" for G loss
    using that shape_gradients_ok [of G] by (simp add: shape_train_ops_def)
  show "\<exists>opt. tr_adam_init (shape_train_ops d) params lr = Inr opt" if "params \<noteq> []" for params
    using that by (simp add: shape_train_ops_def)
  show "has shape_typing dt sh (fst (tr_adam (shape_train_ops d) p g x opt))" if "has shape_typing dt sh x"
    for p g x opt dt sh
    using that by (auto simp: has_shape shape_train_ops_def)
qed

text \<open>In this instance every step gives every live parameter new elements: training is not a no-op.\<close>

lemma shape_step_moves:
  assumes "train_step (shape_train_ops d) clock emb blocks head (adapter_params layers) t a = (Inr loss, a')"
    and "0 < (v :: int)" and "distinct (adapter_params layers)" and "r \<in> set (dict_values layers)"
    and "r \<in> plugged_refs blocks" and "trainable (live_layer a r)"
  shows "p_data (param_of p (live_layer a' r)) \<noteq> p_data (param_of p (live_layer a r))"
proof -
  have "(r, p) \<in> set (adapter_params layers)" using assms(4) by (cases p) (auto simp: adapter_params_def)
  from train_step_moves [OF shape_training_laws [OF assms(2)] assms(1,3) this assms(5,6)]
  show ?thesis by (cases "p_data (param_of p (live_layer a r))") (auto simp: shape_train_ops_def)
qed

definition shape_app :: "(layer_ref \<Rightarrow> (scripted_reader, shape_tensor) plugin_layer) \<Rightarrow>
    (scripted_reader, shape_tensor, unit, unit) app" where
  "shape_app lookup = \<lparr>session = \<lparr>manager = example_manager, layer_at = lookup, host = \<lparr>live = [], bad_frees = []\<rparr>\<rparr>,
     hook_ids = 0, device_state = \<lparr>script = [Fin 80, Fin 60], script_idx = 0\<rparr>, optimizer = (), generator = 0,
     next_ref = 0, disk = ()\<rparr>"

lemma frozen_ends:
  assumes build: "build_frozen_base mk mk_embed vocab (int d) heads ffn n w = (Inr (emb, blocks, head), w')"
    and laws: "layer_laws T" and mk: "linear_maker T mk"
    and embed: "\<And>v k u p u'. mk_embed v k u = (Inr p, u') \<Longrightarrow> embedding_typed T v (nat k) p"
  shows "embedding_typed T vocab d emb" "linear_typed T (nat vocab, d) head"
proof -
  obtain e w1 w2 h where e: "mk_embed vocab (int d) w = (Inr e, w1)" "emb = freeze_parameter e"
    and h: "mk (int d) vocab w2 = (Inr h, w')" "head = freeze_linear h"
    using build by (auto simp: build_frozen_base_def sbind_Inr_iff sret_apply)
  show "embedding_typed T vocab d emb" using embed [OF e(1)] by (simp add: e(2) embedding_typed_def freeze_parameter_def)
  have "linear_typed T (nat vocab, d) h" using mk h(1) unfolding linear_maker_def by (metis nat_int)
  then show "linear_typed T (nat vocab, d) head"
    using layer_lawsD(1) [OF laws] by (simp add: h(2) linear_typed_def)
qed

lemma shape_embed_typed: "shape_embed v k u = (Inr p, u') \<Longrightarrow> embedding_typed shape_typing v (nat k) p"
  by (auto simp: shape_embed_def embedding_typed_def new_parameter_def shape_typing_def has_def shape_ops_def)

section \<open>Training returns\<close>

text \<open>
  C19. A call of the training loop returns: if the layers of the model fit together, from the embedding
  to the head, an adapter that can be trained is plugged in, its layers carry no hooks yet, and
  PyTorch behaves as documented - \<^verbatim>\<open>backward\<close> hands out one gradient for each live parameter of the
  computation -, then for every number of steps the call goes through, with one loss for each step,
  also when gradient gates read a temperature at every parameter; afterwards the model is as well
  typed as before and its layers carry no hooks.
\<close>

theorem training_returns:
  assumes laws: "training_laws T tops d (vocab_size t) lr" and v: "0 < vocab_size t"
    and shift: "- (2 ^ 63) \<le> task_shift t" "task_shift t < 2 ^ 63" and size: "0 < batch_size t"
    and ends: "embedding_typed T (vocab_size t) d emb" "linear_typed T (nat (vocab_size t), d) head"
    and ready: "ready P clock monitor" and P: "P (device_state a)"
    and typed: "\<forall>blk \<in> set blocks. block_typed T (layer_at (session a)) d f blk"
    and refs: "plugged_refs blocks \<subseteq> set (dict_values layers)"
    and grad: "\<exists>r \<in> plugged_refs blocks. trainable (live_layer a r)"
    and bare: "\<forall>r \<in> set (dict_values layers). bare (live_layer a r)"
  shows "\<exists>losses a'. train_adapter tops clock emb blocks head layers t steps lr monitor a = (Inr losses, a') \<and>
    length losses = steps \<and> (\<forall>blk \<in> set blocks. block_typed T (layer_at (session a')) d f blk) \<and>
    (\<forall>r \<in> set (dict_values layers). bare (live_layer a' r))"
proof -
  obtain losses a' where a': "train_adapter tops clock emb blocks head layers t steps lr monitor a = (Inr losses, a')"
    "length losses = steps" "data_kept T a a'" "\<forall>r \<in> set (dict_values layers). bare (live_layer a' r)"
    using train_adapter_total [OF laws v shift size ends ready P typed refs grad bare] by blast
  have "retyped T (live_layer a r) (live_layer a' r)" for r
    by (rule retyped_app [OF keepsD [OF touched_train a'(1)] a'(3)])
  with a' typed block_typed_kept show ?thesis by blast
qed

theorem training_returns_witness:
  "\<exists>emb blocks head w' layers lookup losses a'.
     build_frozen_base shape_mk shape_embed 12 (int 32) 4 (int 64) 2 0 = (Inr (emb, blocks, head), w') \<and>
     dict_keys layers = block_keys 0 2 \<and>
     train_adapter (shape_train_ops 32) (\<lambda>r. (Fin 0, r)) emb (plug_in blocks layers) head layers
       \<lparr>vocab_size = 12, task_shift = 3, batch_size = 16, sequence_length = 4\<rparr> 40 (Fin 1)
       (Some example_monitor) (shape_app lookup) = (Inr losses, a') \<and> length losses = 40"
proof -
  obtain emb blocks head w' where b:
    "build_frozen_base shape_mk shape_embed 12 (int 32) 4 (int 64) 2 0 = (Inr (emb, blocks, head), w')"
    by (simp add: build_frozen_base_def shape_mk_def shape_embed_def sbind_apply sret_apply block_init_def
        numeral_2_eq_2)
  have laws: "layer_laws shape_typing" by (rule shape_layer_laws)
  obtain bases where bases: "collect_base_sublayers blocks = Inr bases" "dict_keys bases = block_keys 0 2"
      "length blocks = 2"
    using frozen_base [OF b] by auto
  have ops: "ty_torch shape_typing = shape_ops" "ty_dtype shape_typing = example_dtype"
    by (simp_all add: shape_typing_def)
  have "float_of_int 6 = Inr (Fin 6)" using float_of_int_exact [of 6] by simp
  moreover have "fdiv (Fin 12) (Fin 6) = Inr (to_float 2)" by simp
  ultimately obtain objs g where objs: "attach_adapters (ty_torch shape_typing) bases 6 (Fin 12) w' = (Inr objs, g)"
    using attach_returns [of 6] by fastforce
  obtain lookup layers where st: "stored lookup objs layers" using stored_exists by blast
  have fresh: "\<forall>r \<in> set (dict_values layers). bare (lookup r) \<and> trainable (lookup r)"
    by (rule stored_fresh [OF st attach_fresh [OF objs]])
  have frames: "\<forall>blk \<in> set blocks. block_frame shape_typing 32 64 blk"
    "\<forall>i < length blocks. \<forall>name \<in> set adapted_sublayers. \<exists>l. dict_get bases (sublayer_key i name) = Some l \<and>
       linear_typed shape_typing (sublayer_dims 32 64 name) l \<and> freeze_linear l = l"
    using frozen_base_frames [OF b laws shape_maker _ _ _ bases(1)] by simp_all
  have adapter: "adapter_typed shape_typing lookup 32 64 (length blocks) layers"
    by (rule attached_typed [OF laws objs st _ frames(2)]) (simp add: bases)
  have keys: "dict_keys layers = block_keys 0 2" using adapter bases(3) by (simp add: adapter_typed_def)
  have refs: "plugged_refs (plug_in blocks layers) = set (dict_values layers)"
    by (rule plugged_refs_plug_in [OF frames(1) adapter])
  have "set (dict_values layers) \<noteq> {}"
    using keys by (auto simp: dict_keys_def dict_values_def adapted_sublayers_def numeral_2_eq_2)
  then have grad: "\<exists>r \<in> plugged_refs (plug_in blocks layers). trainable (live_layer (shape_app lookup) r)"
    using fresh refs by (force simp: shape_app_def neq_Nil_conv)
  have "decides scripted_ok (\<lambda>r. (Fin 0, r)) example_monitor"
    by (rule scripted.source_decides) (simp add: example_monitor_def)
  then have ready: "ready scripted_ok (\<lambda>r. (Fin 0, r)) (Some example_monitor)"
    using example_stride by (simp add: ready_def)
  let ?t = "\<lparr>vocab_size = 12, task_shift = 3, batch_size = 16, sequence_length = 4\<rparr>"
  have train: "training_laws shape_typing (shape_train_ops 32) 32 (vocab_size ?t) (Fin 1)"
    using shape_training_laws [of 12 32] by simp
  have ends: "embedding_typed shape_typing (vocab_size ?t) 32 emb"
    "linear_typed shape_typing (nat (vocab_size ?t), 32) head"
    using frozen_ends [OF b laws shape_maker shape_embed_typed] by simp_all
  from training_returns [OF train _ _ _ _ ends ready _ _ _ grad, of 64 layers 40]
  obtain losses a' where "train_adapter (shape_train_ops 32) (\<lambda>r. (Fin 0, r)) emb (plug_in blocks layers) head layers
      ?t 40 (Fin 1) (Some example_monitor) (shape_app lookup) = (Inr losses, a')" "length losses = 40"
    using refs fresh plug_in_typed [OF frames(1) adapter] by (auto simp: shape_app_def scripted_ok_def)
  with b keys show ?thesis by blast
qed

end
