(* ===== verification/EndToEnd.thy ===== *)
theory EndToEnd
  imports Progress
begin

text \<open>
  The end-to-end run of \<^verbatim>\<open>src/examples/e2e_training.py\<close>: \<^verbatim>\<open>main\<close> puts the package together on one
  frozen base. The theory follows the session through the phases of \<open>main_program\<close> - one adapter
  in service, a second one rejected, the first saved and evicted, the second in service, the
  first reloaded from its file - and shows that the run goes through with the reloaded adapter in
  service within the budget. What PyTorch and the file system have to do for this is named in
  \<open>library_behaves\<close>.
\<close>

section \<open>The manager in the run\<close>

definition bare_manager :: "int \<Rightarrow> (string, adapter_record) dict \<Rightarrow> string option \<Rightarrow> manager" where
  "bare_manager budget ads act =
     \<lparr>memory_budget_bytes = budget, adapters = ads, active_adapter_id = act, native = None,
      native_ids = [], next_native_id = 1\<rparr>"

definition idle :: "int \<Rightarrow> ('s, 'd) session \<Rightarrow> bool" where
  "idle budget st \<longleftrightarrow> manager st = bare_manager budget [] None"

definition serving :: "int \<Rightarrow> string \<Rightarrow> (string, layer_ref) dict \<Rightarrow> ('s, 'd) session \<Rightarrow> bool" where
  "serving budget k layers st \<longleftrightarrow>
     manager st = bare_manager budget [(k, \<lparr>adapter_id = k, rec_layers = layers\<rparr>)] (Some k)"

lemma manager_init_idle:
  "0 < budget \<Longrightarrow> manager_init False budget = Inr (bare_manager budget [] None)"
  by (simp add: manager_init_def bare_manager_def)

lemma idle_resident: "idle budget st \<Longrightarrow> resident_bytes st = 0"
  by (simp add: idle_def resident_bytes_def bare_manager_def dict_values_def)

lemma serving_resident: "serving budget k layers st \<Longrightarrow> resident_bytes st = incoming st layers"
  by (simp add: serving_def resident_bytes_def bare_manager_def dict_values_def byte_size_def incoming_def)

lemma serve:
  assumes "idle budget st" and "incoming st layers \<le> budget"
  obtains st1 st2 where "load_adapter malloc k layers st = (Inr (), st1)" "activate k st1 = (Inr (), st2)"
    "serving budget k layers st2" "layer_at st2 = layer_at st" "host st2 = host st"
proof (rule that)
  have m: "manager st = bare_manager budget [] None" using assms(1) by (simp add: idle_def)
  then show "load_adapter malloc k layers st = (Inr (), add_record k layers st)"
    using assms idle_resident [OF assms(1)]
    by (intro load_python_only) (simp_all add: bare_manager_def)
  show "activate k (add_record k layers st) = (Inr (),
      upd_manager (\<lambda>m. m\<lparr>active_adapter_id := Some k\<rparr>) (add_record k layers st))"
    using m by (simp add: activate_def bare_manager_def dict_get_def)
qed (use assms(1) in \<open>simp_all add: serving_def idle_def bare_manager_def\<close>)

lemma reject:
  assumes "serving budget k layers st" and "k' \<noteq> k"
    and "budget < incoming st layers + incoming st layers'"
  shows "load_adapter malloc k' layers' st = (Inl AdapterBudgetError, st)"
proof (rule load_rejected(2))
  show "memory_budget_bytes (manager st) < resident_bytes st + incoming st layers'"
    using assms(3) serving_resident [OF assms(1)] assms(1) by (simp add: serving_def bare_manager_def)
qed (use assms in \<open>simp add: serving_def bare_manager_def dict_get_def\<close>)

lemma retire:
  assumes "serving budget k layers st"
  obtains st' where "unload_adapter k st = (Inr (), st')" "idle budget st'" "host st' = host st"
    "\<forall>r. unhooked (layer_at st' r) = unhooked (layer_at st r)"
    "\<forall>r. bare (layer_at st r) \<longrightarrow> bare (layer_at st' r)"
proof -
  let ?rec = "\<lparr>adapter_id = k, rec_layers = layers\<rparr>"
  have "unload_adapter k st = (Inr (), remove_record k ?rec st)"
    using assms
    by (auto simp: unload_adapter_def Let_def native_backed_def fold_clear_layer remove_record_def
        dict_del_def dict_get_def serving_def bare_manager_def intro!: session_cong)
  moreover have "idle budget (remove_record k ?rec st)"
    using assms by (simp add: idle_def serving_def remove_record_def bare_manager_def dict_del_def)
  moreover have "\<forall>r. unhooked (layer_at (remove_record k ?rec st) r) = unhooked (layer_at st r)"
    by simp
  moreover have "\<forall>r. bare (layer_at st r) \<longrightarrow> bare (layer_at (remove_record k ?rec st) r)"
    using bare_hooks(1) by (auto simp: remove_record_def bare_def)
  ultimately show thesis using that by simp
qed

section \<open>Layers in the run\<close>

lemma unhooked_same [simp]:
  "layer_wf (unhooked l) = layer_wf l" "alpha_prints repr (unhooked l) = alpha_prints repr l"
  "rank (unhooked l) = rank l" "scaling (unhooked l) = scaling l"
  "unhooked (unhooked l) = unhooked l" "bare (unhooked l)"
  by (simp_all add: layer_wf_def alpha_prints_def unhooked_def set_hooks_def bare_def hooks_of_def
      split: which_param.split)

text \<open>
  A layer of the run: rank 8 and alpha 16 over a given base, well typed, its gate open, its
  matrices trainable, and without hooks.
\<close>

definition run_layer :: "('s, 'd) typing \<Rightarrow> ('s, 'd) linear \<Rightarrow> ('s, 'd) plugin_layer \<Rightarrow> bool" where
  "run_layer T base l \<longleftrightarrow>
     layer_wf l \<and> rank l = 8 \<and> scaling l = Fin 2 \<and> base_layer l = freeze_linear base \<and>
     trainable l \<and> bare l \<and> layer_typed T (p_shape (weight base)) l"

lemma run_layer_kept:
  assumes "retyped T l l'" and "bare l \<longrightarrow> bare l'" and "run_layer T base l"
  shows "run_layer T base l'"
proof -
  have "same_but_data (unhooked l) (unhooked l')" using assms(1) by (simp add: retyped_def)
  from same_but_data_fields [OF this] show ?thesis
    using assms(2,3) retyped_typed [OF assms(1)] by (simp add: run_layer_def)
qed

definition base_bytes :: "('s, 'd) linear \<Rightarrow> int" where
  "base_bytes base =
     8 * int ((fst (p_shape (weight base)) + snd (p_shape (weight base))) * itemsize (p_dtype (weight base)))"

lemma run_layer_bytes: "run_layer T base l \<Longrightarrow> parameter_bytes l = base_bytes base"
  by (simp add: run_layer_def layer_wf_def parameter_bytes_def param_bytes_def base_bytes_def algebra_simps)

lemma to_float_two: "to_float 2 = Fin 2"
  using to_float_dyadic [OF dyadic53_of_int [of 2]] by simp

lemma to_float_sixteen: "to_float 16 = Fin 16"
  using to_float_dyadic [OF dyadic53_of_int [of 16]] by simp

lemma run_layer_init:
  assumes laws: "layer_laws T" and base: "linear_typed T (p_shape (weight base)) base"
  shows "\<exists>l g'. layer_init (ty_torch T) base 8 (Fin 16) None g = (Inr l, g') \<and> run_layer T base l"
proof -
  have "fdiv (Fin 16) (Fin (of_int 8)) = Inr (Fin 2)" using to_float_two by simp
  from layer_init_eq [OF _ _ this, of "ty_torch T" base g]
  obtain l g' where l: "layer_init (ty_torch T) base 8 (Fin 16) None g = (Inr l, g')" "rank l = 8" "scaling l = Fin 2"
    "base_layer l = freeze_linear base"
    by (auto simp: built_layer_fields)
  have "float_ok (Fin 16)" using to_float_sixteen by (metis float_ok_to_float)
  with l(1) have "layer_wf l" by (intro layer_init_wf [OF _ _ _ l(1)]) simp_all
  with l layer_init_fresh [OF l(1)] layer_init_typed [OF laws base l(1)] show ?thesis
    by (auto simp: run_layer_def)
qed

text \<open>An adapter of the run: one live layer for each base layer, in order.\<close>

definition adapter_over ::
  "('s, 'd) typing \<Rightarrow> (string, ('s, 'd) linear) dict \<Rightarrow> (string, layer_ref) dict \<Rightarrow> ('s, 'd, 'o, 'f) app \<Rightarrow> bool"
  where
  "adapter_over T bases layers a \<longleftrightarrow>
     list_all2 (\<lambda>(n, base) (n', r). n' = n \<and> r < next_ref a \<and> run_layer T base (live_layer a r)) bases layers"

text \<open>The layers that exist stay the same up to elements, which keep their types, and get no hooks.\<close>

definition kin :: "('s, 'd) typing \<Rightarrow> ('s, 'd, 'o, 'f) app \<Rightarrow> ('s, 'd, 'o, 'f) app \<Rightarrow> bool" where
  "kin T a a' \<longleftrightarrow> next_ref a \<le> next_ref a' \<and>
     (\<forall>r < next_ref a. retyped T (live_layer a r) (live_layer a' r) \<and>
        (bare (live_layer a r) \<longrightarrow> bare (live_layer a' r)))"

lemma kin_refl [simp]: "kin T a a"
  by (simp add: kin_def)

lemma kin_trans: "kin T a b \<Longrightarrow> kin T b c \<Longrightarrow> kin T a c"
  unfolding kin_def by (auto intro: retyped_trans)

lemma kin_unhooked:
  assumes "\<forall>r. unhooked (live_layer a' r) = unhooked (live_layer a r)"
    and "\<forall>r. bare (live_layer a r) \<longrightarrow> bare (live_layer a' r)" and "next_ref a \<le> next_ref a'"
  shows "kin T a a'"
proof -
  have "retyped T (live_layer a r) (live_layer a' r)" for r
    by (rule retyped_unhooked) (use assms(1) in simp)
  with assms(2,3) show ?thesis by (simp add: kin_def)
qed

lemma adapter_over_kin: "adapter_over T bases layers a \<Longrightarrow> kin T a a' \<Longrightarrow> adapter_over T bases layers a'"
  unfolding adapter_over_def kin_def
  by (erule list_all2_mono) (auto intro: run_layer_kept)

lemma adapter_over_keys: "adapter_over T bases layers a \<Longrightarrow> dict_keys layers = dict_keys bases"
  unfolding adapter_over_def dict_keys_def by (induction rule: list_all2_induct) auto

lemma adapter_over_bytes:
  "adapter_over T bases layers a \<Longrightarrow>
   incoming (session a) layers = (\<Sum>(n, base)\<leftarrow>bases. base_bytes base)"
  unfolding adapter_over_def incoming_def dict_values_def
  by (induction rule: list_all2_induct) (auto simp: run_layer_bytes)

lemma adapter_over_mem:
  assumes "adapter_over T bases layers a" and "(n, r) \<in> set layers"
  shows "\<exists>base. (n, base) \<in> set bases \<and> run_layer T base (live_layer a r)"
  using assms unfolding adapter_over_def by (induction rule: list_all2_induct) auto

lemma adapter_over_get:
  assumes "adapter_over T bases layers a" and "dict_ok bases"
    and "dict_get bases n = Some base" and "dict_get layers n = Some r"
  shows "run_layer T base (live_layer a r)"
proof -
  have ok: "dict_ok layers"
    using adapter_over_keys [OF assms(1)] assms(2) by (simp add: dict_ok_def dict_keys_def)
  have "(n, r) \<in> set layers" using assms(4) ok by (simp add: py_dict.get_Some_iff)
  then obtain b where "(n, b) \<in> set bases" "run_layer T b (live_layer a r)"
    using adapter_over_mem [OF assms(1)] by blast
  with assms(2,3) show ?thesis by (simp add: py_dict.get_Some_iff [symmetric])
qed

lemma adapter_over_layer:
  assumes "adapter_over T bases layers a" and "r \<in> set (dict_values layers)"
  shows "bare (live_layer a r)" "trainable (live_layer a r)" "\<exists>base. run_layer T base (live_layer a r)"
proof -
  obtain n where "(n, r) \<in> set layers" using assms(2) by (auto simp: dict_values_def)
  then show "\<exists>base. run_layer T base (live_layer a r)" using adapter_over_mem [OF assms(1)] by blast
  then show "bare (live_layer a r)" "trainable (live_layer a r)" by (auto simp: run_layer_def)
qed

section \<open>Setting up\<close>

lemma attach_ok:
  assumes laws: "layer_laws T" and "\<forall>(n, base) \<in> set bases. linear_typed T (p_shape (weight base)) base"
  shows "\<exists>objs g'. attach_adapters (ty_torch T) bases 8 (Fin 16) g = (Inr objs, g') \<and>
     list_all2 (\<lambda>(n, base) (n', l). n' = n \<and> run_layer T base l) bases objs"
  using assms(2)
proof (induction bases arbitrary: g)
  case (Cons b bases)
  obtain n base where b: "b = (n, base)" by (cases b)
  obtain l h where l: "layer_init (ty_torch T) base 8 (Fin 16) None g = (Inr l, h)" "run_layer T base l"
    using run_layer_init [OF laws] Cons.prems b by fastforce
  moreover obtain ls g' where "attach_adapters (ty_torch T) bases 8 (Fin 16) h = (Inr ls, g')"
    "list_all2 (\<lambda>(n, base) (n', l). n' = n \<and> run_layer T base l) bases ls"
    using Cons.IH [of h] Cons.prems by auto
  ultimately show ?case by (intro exI [of _ "(n, l) # ls"] exI [of _ g']) (simp add: b sbind_apply sret_apply)
qed (simp add: sret_apply)

lemma store_layers_run:
  obtains refs a' where "store_layers objs a = (Inr refs, a')"
    "list_all2 (\<lambda>(n, l) (n', r). n' = n \<and> r < next_ref a' \<and> live_layer a' r = l) objs refs"
    "\<forall>r < next_ref a. live_layer a' r = live_layer a r" "next_ref a \<le> next_ref a'"
    "manager (session a') = manager (session a)" "disk a' = disk a" "generator a' = generator a"
proof -
  have "\<exists>refs a'. store_layers objs a = (Inr refs, a') \<and>
    list_all2 (\<lambda>(n, l) (n', r). n' = n \<and> r < next_ref a' \<and> live_layer a' r = l) objs refs \<and>
    (\<forall>r < next_ref a. live_layer a' r = live_layer a r) \<and> next_ref a \<le> next_ref a' \<and>
    manager (session a') = manager (session a) \<and> disk a' = disk a \<and> generator a' = generator a"
  proof (induction objs arbitrary: a)
    case (Cons obj objs)
    obtain n l where obj: "obj = (n, l)" by (cases obj)
    let ?b = "(set_layer (next_ref a) l a)\<lparr>next_ref := next_ref a + 1\<rparr>"
    from Cons [of ?b] obtain refs c where c: "store_layers objs ?b = (Inr refs, c)"
      "list_all2 (\<lambda>(n, l) (n', r). n' = n \<and> r < next_ref c \<and> live_layer c r = l) objs refs"
      "\<forall>r < next_ref ?b. live_layer c r = live_layer ?b r" "next_ref ?b \<le> next_ref c"
      "manager (session c) = manager (session ?b)" "disk c = disk ?b" "generator c = generator ?b"
      by blast
    have "store_layers (obj # objs) a = (Inr ((n, next_ref a) # refs), c)"
      using c(1) by (simp add: obj sbind_apply sret_apply)
    with c(2-7) show ?case
      by (intro exI [of _ "(n, next_ref a) # refs"] exI [of _ c]) (auto simp: obj)
  qed (simp add: sret_apply)
  then show thesis using that by blast
qed

lemma store_adapter:
  assumes "list_all2 (\<lambda>(n, base) (n', l). n' = n \<and> run_layer T base l) bases objs"
  obtains refs a' where "store_layers objs a = (Inr refs, a')" "adapter_over T bases refs a'"
    "list_all2 (\<lambda>(n, l) (n', r). n' = n \<and> live_layer a' r = l) objs refs"
    "kin T a a'" "manager (session a') = manager (session a)" "disk a' = disk a" "generator a' = generator a"
proof -
  obtain refs a' where s: "store_layers objs a = (Inr refs, a')"
    "list_all2 (\<lambda>(n, l) (n', r). n' = n \<and> r < next_ref a' \<and> live_layer a' r = l) objs refs"
    "\<forall>r < next_ref a. live_layer a' r = live_layer a r" "next_ref a \<le> next_ref a'"
    "manager (session a') = manager (session a)" "disk a' = disk a" "generator a' = generator a"
    by (rule store_layers_run)
  have "list_all2 (\<lambda>(n, l) (n', r). n' = n \<and> live_layer a' r = l) objs refs"
    using s(2) by (rule list_all2_mono) auto
  moreover have "adapter_over T bases refs a'"
    unfolding adapter_over_def using assms s(2) by (rule list_all2_trans [rotated]) auto
  moreover have "kin T a a'" using s(3,4) by (simp add: kin_def)
  ultimately show thesis using that s(1,5,6,7) by blast
qed

text \<open>
  What the run relies on. \<^verbatim>\<open>nn.Linear\<close> and \<^verbatim>\<open>nn.Embedding\<close> build objects of the given dimensions in one
  type; tensor operations, autograd and optimizer behave as \<open>training_laws\<close> says for a model of
  width 32 over 12 tokens; the clock leaves a scripted temperature alone; the native extension is
  not built. Of the file system: \<^verbatim>\<open>mkdtemp\<close> makes a directory that exists; while a directory exists,
  the one file of the run can be written into it, after which the directory still exists and the
  file has a size, and the directory can be removed; files are as safetensors documents, and the
  printed alpha reads back.
\<close>

definition run_metadata :: "(string, json) dict" where
  "run_metadata = map (\<lambda>n. (n, JObject
     [(''rank'', JInt 8), (''alpha'', JFloat (Fin 16)), (''routing_gate_enabled'', JBool True)])) (block_keys 0 2)"

definition is_there :: "('d, 'o, 'f) environment \<Rightarrow> string \<Rightarrow> 'f \<Rightarrow> bool" where
  "is_there env p f \<longleftrightarrow> fo_exists (e_files env) p f = (Inr True, f)"

definition files_behave :: "('d, 'o, 'f) environment \<Rightarrow> bool" where
  "files_behave env \<longleftrightarrow>
     (\<forall>f. \<exists>dir f'. e_mkdtemp env f = (Inr dir, f') \<and> is_there env dir f') \<and>
     (\<forall>dir f. is_there env dir f \<longrightarrow> (let path = dir @ ''/task-a-shift1.safetensors'' in
        (\<exists>f'. fo_mkdir_parent (e_files env) path f = (Inr (), f') \<and> is_there env dir f') \<and>
        (\<forall>ts. \<exists>f' n. st_save (e_files env) ts path
             [(metadata_key, json_dumps (e_repr env) (JObject run_metadata))] f = (Inr (), f') \<and>
           is_there env dir f' \<and> e_stat env path f' = (Inr n, f')) \<and>
        (\<exists>f'. e_rmtree env dir f = (Inr (), f')))) \<and>
     safetensors_format (e_files env) ''cpu'' \<and> copy_same (e_files env) \<and> float_repr_ok (e_repr env) 16"

definition library_behaves ::
  "('d, 'o, 'f) environment \<Rightarrow> (scripted_reader, 'd) typing \<Rightarrow> bool" where
  "library_behaves env T \<longleftrightarrow>
     (\<forall>i k g. \<exists>l g'. e_linear env i k g = (Inr l, g') \<and> linear_typed T (nat k, nat i) l) \<and>
     (\<forall>v d g. \<exists>p g'. e_embedding env v d g = (Inr p, g') \<and> embedding_typed T v (nat d) p) \<and>
     0 < itemsize (ty_dtype T) \<and> itemsize (ty_dtype T) \<le> 16 \<and>
     training_laws T (e_train env) 32 12 learning_rate \<and>
     (\<forall>s. snd (e_clock env s) = s) \<and> e_native env = False \<and> files_behave env"

lemma libraryD:
  assumes "library_behaves env T"
  shows "\<forall>i k g. \<exists>l g'. e_linear env i k g = (Inr l, g') \<and> linear_typed T (nat k, nat i) l"
    "\<forall>v d g. \<exists>p g'. e_embedding env v d g = (Inr p, g') \<and> embedding_typed T v (nat d) p"
    "0 < itemsize (ty_dtype T)" "itemsize (ty_dtype T) \<le> 16"
    "training_laws T (e_train env) 32 12 learning_rate" "\<forall>s. snd (e_clock env s) = s" "e_native env = False"
    "layer_laws T" "ty_torch T = e_torch env" "linear_maker T (e_linear env)"
    "e_embedding env v d g = (Inr p, g') \<Longrightarrow> embedding_typed T v (nat d) p"
proof -
  show maker: "\<forall>i k g. \<exists>l g'. e_linear env i k g = (Inr l, g') \<and> linear_typed T (nat k, nat i) l"
    and embed: "\<forall>v d g. \<exists>p g'. e_embedding env v d g = (Inr p, g') \<and> embedding_typed T v (nat d) p"
    and laws: "training_laws T (e_train env) 32 12 learning_rate"
    and "0 < itemsize (ty_dtype T)" "itemsize (ty_dtype T) \<le> 16" "\<forall>s. snd (e_clock env s) = s" "e_native env = False"
    using assms by (simp_all add: library_behaves_def)
  show "layer_laws T" "ty_torch T = e_torch env"
    using training_lawsD(1,2) [OF laws] by (simp_all add: tensor_laws_def)
  show "linear_maker T (e_linear env)"
    unfolding linear_maker_def
  proof (intro allI impI)
    fix i k w l w' assume "e_linear env i k w = (Inr l, w')"
    then show "linear_typed T (nat k, nat i) l" using maker by (metis Pair_inject sum.inject(2))
  qed
  show "e_embedding env v d g = (Inr p, g') \<Longrightarrow> embedding_typed T v (nat d) p"
    using embed by (metis Pair_inject sum.inject(2))
qed

lemma filesD:
  assumes "library_behaves env T"
  shows "\<exists>dir f'. e_mkdtemp env f = (Inr dir, f') \<and> is_there env dir f'"
    "is_there env dir f \<Longrightarrow> \<exists>f'. fo_mkdir_parent (e_files env) (dir @ ''/task-a-shift1.safetensors'') f = (Inr (), f') \<and>
       is_there env dir f'"
    "is_there env dir f \<Longrightarrow> \<exists>f' n. st_save (e_files env) ts (dir @ ''/task-a-shift1.safetensors'')
         [(metadata_key, json_dumps (e_repr env) (JObject run_metadata))] f = (Inr (), f') \<and>
       is_there env dir f' \<and> e_stat env (dir @ ''/task-a-shift1.safetensors'') f' = (Inr n, f')"
    "is_there env dir f \<Longrightarrow> \<exists>f'. e_rmtree env dir f = (Inr (), f')"
    "safetensors_format (e_files env) ''cpu''" "copy_same (e_files env)" "float_repr_ok (e_repr env) 16"
  using assms by (simp_all add: library_behaves_def files_behave_def Let_def)

text \<open>The frozen base of the run: two blocks of width 32, and the layers that adapters go over.\<close>

definition run_base ::
  "('s, 'd) typing \<Rightarrow> ('s, 'd) tblock list \<Rightarrow> (string, ('s, 'd) linear) dict \<Rightarrow> bool" where
  "run_base T blocks bases \<longleftrightarrow>
     length blocks = 2 \<and> (\<forall>blk \<in> set blocks. block_frame T 32 64 blk) \<and>
     dict_keys bases = block_keys 0 2 \<and> dict_ok bases \<and>
     (\<forall>i < 2. \<forall>name \<in> set adapted_sublayers. \<exists>l. dict_get bases (sublayer_key i name) = Some l \<and>
        linear_typed T (sublayer_dims 32 64 name) l \<and> freeze_linear l = l)"

definition base_shape :: "dtype \<Rightarrow> ('s, 'd) linear \<Rightarrow> bool" where
  "base_shape dt l \<longleftrightarrow> p_shape (weight l) \<in> {(32, 32), (64, 32), (32, 64)} \<and> p_dtype (weight l) = dt"

lemma run_base_mem:
  assumes "run_base T blocks bases" and "(n, l) \<in> set bases"
  shows "freeze_linear l = l" "linear_typed T (p_shape (weight l)) l" "base_shape (ty_dtype T) l"
proof -
  have "dict_get bases n = Some l" using assms by (simp add: run_base_def py_dict.get_Some_iff)
  moreover have "n \<in> set (dict_keys bases)" using assms(2) by (force simp: dict_keys_def)
  then have "n \<in> set (block_keys 0 2)" using assms(1) by (simp only: run_base_def)
  then obtain i name where "n = sublayer_key i name" "i < 2" "name \<in> set adapted_sublayers"
    by (auto simp: block_keys_mem)
  ultimately have l: "linear_typed T (sublayer_dims 32 64 name) l" "freeze_linear l = l"
    and name: "name \<in> set adapted_sublayers"
    using assms(1) unfolding run_base_def by force+
  show "freeze_linear l = l" by (rule l(2))
  show "linear_typed T (p_shape (weight l)) l" using l(1) by (simp add: linear_typed_def)
  show "base_shape (ty_dtype T) l"
    using l(1) name by (auto simp: linear_typed_def base_shape_def adapted_sublayers_def sublayer_dims_def)
qed

lemma run_base_plug: "run_base T blocks bases \<Longrightarrow> run_base T (plug_in blocks layers) bases"
  using plug_in_frames [of blocks T 32 64 layers] by (simp add: run_base_def plug_in_def)

text \<open>The embedding and the head around the blocks.\<close>

definition run_ends :: "('s, 'd) typing \<Rightarrow> ('s, 'd) parameter \<Rightarrow> ('s, 'd) linear \<Rightarrow> bool" where
  "run_ends T emb head \<longleftrightarrow> embedding_typed T 12 32 emb \<and> linear_typed T (12, 32) head"

text \<open>An adapter of the run makes the blocks a model that computes and can be trained.\<close>

lemma run_model:
  assumes base: "run_base T blocks bases" and over: "adapter_over T bases layers a"
  shows "\<forall>blk \<in> set (plug_in blocks layers). block_typed T (layer_at (session a)) 32 64 blk"
    "plugged_refs (plug_in blocks layers) = set (dict_values layers)"
    "\<exists>r \<in> plugged_refs (plug_in blocks layers). trainable (live_layer a r)"
proof -
  have keys: "dict_keys layers = block_keys 0 2" and ok: "dict_ok bases"
    using adapter_over_keys [OF over] base by (simp_all add: run_base_def)
  have "adapter_typed T (layer_at (session a)) 32 64 (length blocks) layers"
    unfolding adapter_typed_def
  proof (intro conjI allI impI ballI)
    show "dict_keys layers = block_keys 0 (length blocks)" using keys base by (simp add: run_base_def)
    fix i name assume i: "i < length blocks" "name \<in> set adapted_sublayers"
    then obtain l where l: "dict_get bases (sublayer_key i name) = Some l" "linear_typed T (sublayer_dims 32 64 name) l"
      using base by (fastforce simp: run_base_def)
    have "sublayer_key i name \<in> set (dict_keys layers)"
      using l(1) adapter_over_keys [OF over] by (simp add: dict_keys_get)
    then obtain r where r: "dict_get layers (sublayer_key i name) = Some r" by (auto simp: dict_keys_get)
    have "run_layer T l (live_layer a r)" by (rule adapter_over_get [OF over ok l(1) r])
    with l(2) have "layer_typed T (sublayer_dims 32 64 name) (live_layer a r)"
      by (simp add: run_layer_def linear_typed_def)
    with r show "\<exists>r. dict_get layers (sublayer_key i name) = Some r \<and>
        layer_typed T (sublayer_dims 32 64 name) (live_layer a r)" by blast
  qed
  note adapter = this
  have frames: "\<forall>blk \<in> set blocks. block_frame T 32 64 blk" using base by (simp add: run_base_def)
  show "\<forall>blk \<in> set (plug_in blocks layers). block_typed T (layer_at (session a)) 32 64 blk"
    by (rule plug_in_typed [OF frames adapter])
  show refs: "plugged_refs (plug_in blocks layers) = set (dict_values layers)"
    by (rule plugged_refs_plug_in [OF frames adapter])
  have "dict_values layers \<noteq> []"
    using keys by (auto simp: dict_keys_def dict_values_def adapted_sublayers_def numeral_2_eq_2)
  then obtain r where r: "r \<in> set (dict_values layers)" by (meson hd_in_set)
  show "\<exists>r \<in> plugged_refs (plug_in blocks layers). trainable (live_layer a r)"
    using adapter_over_layer(2) [OF over r] r unfolding refs by (rule bexI)
qed

lemma block_init_run:
  assumes "library_behaves env T"
  shows "\<exists>blk w'. block_init (e_linear env) 32 4 64 w = (Inr blk, w')"
proof -
  note mk = libraryD(1) [OF assms]
  obtain q w1 where 1: "e_linear env 32 32 w = (Inr q, w1)" using mk by blast
  obtain k w2 where 2: "e_linear env 32 32 w1 = (Inr k, w2)" using mk by blast
  obtain v w3 where 3: "e_linear env 32 32 w2 = (Inr v, w3)" using mk by blast
  obtain out w4 where 4: "e_linear env 32 32 w3 = (Inr out, w4)" using mk by blast
  obtain f1 w5 where 5: "e_linear env 32 64 w4 = (Inr f1, w5)" using mk by blast
  obtain f2 w6 where "e_linear env 64 32 w5 = (Inr f2, w6)" using mk by blast
  with 1 2 3 4 5 show ?thesis by (simp add: block_init_def sbind_apply sret_apply)
qed

lemma init_blocks_run:
  assumes "library_behaves env T"
  shows "\<exists>blocks w'. init_blocks n (block_init (e_linear env) 32 4 64) w = (Inr blocks, w')"
proof (induction n arbitrary: w)
  case (Suc n)
  obtain blk w1 where "block_init (e_linear env) 32 4 64 w = (Inr blk, w1)"
    using block_init_run [OF assms] by blast
  moreover obtain blocks w2 where "init_blocks n (block_init (e_linear env) 32 4 64) w1 = (Inr blocks, w2)"
    using Suc by blast
  ultimately show ?case by (simp add: sbind_apply sret_apply)
qed (simp add: sret_apply)

lemma build_run:
  assumes "library_behaves env T"
  obtains emb blocks head bases w' where
    "build_frozen_base (e_linear env) (e_embedding env) 12 32 4 64 2 w = (Inr (emb, blocks, head), w')"
    "collect_base_sublayers blocks = Inr bases" "run_base T blocks bases" "run_ends T emb head"
proof -
  obtain e w1 where e: "e_embedding env 12 32 w = (Inr e, w1)"
    using libraryD(2) [OF assms] by blast
  obtain bs w2 where bs: "init_blocks 2 (block_init (e_linear env) 32 4 64) w1 = (Inr bs, w2)"
    using init_blocks_run [OF assms] by blast
  obtain h w3 where h: "e_linear env 32 12 w2 = (Inr h, w3)"
    using libraryD(1) [OF assms] by blast
  have b: "build_frozen_base (e_linear env) (e_embedding env) 12 32 4 64 2 w =
      (Inr (freeze_parameter e, map freeze_block bs, freeze_linear h), w3)"
    using e bs h by (simp add: build_frozen_base_def sbind_apply sret_apply)
  obtain bases where bases: "collect_base_sublayers (map freeze_block bs) = Inr bases"
    "dict_keys bases = block_keys 0 2" "dict_ok bases" "length (map freeze_block bs) = 2"
    using frozen_base [OF b] by auto
  have built: "build_frozen_base (e_linear env) (e_embedding env) 12 (int 32) 4 (int 64) 2 w =
      (Inr (freeze_parameter e, map freeze_block bs, freeze_linear h), w3)"
    using b by simp
  from frozen_base_frames [OF this libraryD(8,10) [OF assms] _ _ _ bases(1)]
  have "run_base T (map freeze_block bs) bases"
    using bases(2-4) by (simp add: run_base_def)
  moreover from frozen_ends [OF built libraryD(8,10,11) [OF assms]]
  have "run_ends T (freeze_parameter e) (freeze_linear h)" by (simp add: run_ends_def)
  ultimately show thesis using that b bases(1) by blast
qed

lemma setup_run:
  assumes lib: "library_behaves env T"
  obtains emb blocks head bases la lb a' where "main_setup env a = (Inr (emb, blocks, head, bases, la, lb), a')"
    "disk a' = disk a" "adapter_over T bases la a'" "adapter_over T bases lb a'" "run_base T blocks bases"
    "run_ends T emb head"
proof -
  obtain emb blocks head bases w' where b:
    "build_frozen_base (e_linear env) (e_embedding env) 12 32 4 64 2 (generator a) = (Inr (emb, blocks, head), w')"
    "collect_base_sublayers blocks = Inr bases" "run_base T blocks bases" "run_ends T emb head"
    by (rule build_run [OF lib])
  have "\<forall>(n, base) \<in> set bases. linear_typed T (p_shape (weight base)) base"
    using run_base_mem(2) [OF b(3)] by blast
  note attach = attach_ok [OF libraryD(8) [OF lib] this, unfolded libraryD(9) [OF lib]]
  let ?a = "a\<lparr>generator := w'\<rparr>"
  obtain oa ga where oa: "attach_adapters (e_torch env) bases 8 (Fin 16) w' = (Inr oa, ga)"
    "list_all2 (\<lambda>(n, base) (n', l). n' = n \<and> run_layer T base l) bases oa"
    using attach by blast
  obtain la a1 where la: "store_layers oa (?a\<lparr>generator := ga\<rparr>) = (Inr la, a1)" "adapter_over T bases la a1"
    "disk a1 = disk (?a\<lparr>generator := ga\<rparr>)" by (rule store_adapter [OF oa(2)])
  obtain ob gb where ob: "attach_adapters (e_torch env) bases 8 (Fin 16) (generator a1) = (Inr ob, gb)"
    "list_all2 (\<lambda>(n, base) (n', l). n' = n \<and> run_layer T base l) bases ob"
    using attach by blast
  let ?c = "a1\<lparr>generator := gb\<rparr>"
  obtain lb a2 where lb: "store_layers ob ?c = (Inr lb, a2)" "adapter_over T bases lb a2" "kin T ?c a2"
    "disk a2 = disk ?c" by (rule store_adapter [OF ob(2)])
  have "main_setup env a = (Inr (emb, blocks, head, bases, la, lb), a2)"
    using oa(1) la(1) ob(1) lb(1) b(1,2)
    by (simp add: main_setup_def sbind_apply on_generator_def slift_apply sret_apply)
  moreover have "adapter_over T bases la ?c" using la(2) by (simp add: adapter_over_def)
  then have "adapter_over T bases la a2" using lb(3) by (rule adapter_over_kin)
  ultimately show thesis using that b(3,4) la(3) lb(2,4) by simp
qed

section \<open>Sizes and the budget\<close>

lemma base_total_bounds:
  assumes "0 < itemsize dt" "itemsize dt \<le> 16" and "\<forall>(n, l) \<in> set bases. base_shape dt l"
  shows "(bases \<noteq> [] \<longrightarrow> 0 < (\<Sum>(n, base)\<leftarrow>bases. base_bytes base)) \<and>
    0 \<le> (\<Sum>(n, base)\<leftarrow>bases. base_bytes base) \<and>
    (\<Sum>(n, base)\<leftarrow>bases. base_bytes base) \<le> 12288 * int (length bases)"
  using assms(3)
proof (induction bases)
  case (Cons b bases)
  obtain n l where b: "b = (n, l)" by (cases b)
  have "base_shape dt l" using Cons.prems b by simp
  then have "0 < base_bytes l" "base_bytes l \<le> 12288"
    using assms(1,2) by (auto simp: base_shape_def base_bytes_def)
  with Cons b show ?case by auto
qed simp

lemma adapter_budget_ok:
  assumes "0 < n" and "n \<le> 2 ^ 50"
  shows "\<exists>b. adapter_budget n = Inr b \<and> n \<le> b \<and> b < 2 * n"
proof -
  have f: "float_of_int n = Inr (Fin (of_int n))" using assms by (intro float_of_int_exact) simp
  have "dyadic53 (of_int n * (3 / 2))"
    by (rule dyadic53_I [of _ 1 "3 * n"]) (use assms in simp_all)
  moreover have "\<bar>of_int n * (3 / 2)\<bar> < (2 ^ 1024 :: rat)"
  proof -
    have "(of_int n :: rat) \<le> of_int (2 ^ 50)" using assms(2) by (simp only: of_int_le_iff)
    then have "\<bar>of_int n * (3 / 2)\<bar> \<le> (2 ^ 50 * (3 / 2) :: rat)" using assms(1) by simp
    also have "(2 ^ 50 * (3 / 2) :: rat) < 2 ^ 1024" by simp
    finally show ?thesis .
  qed
  ultimately have "to_float (of_int n * (3 / 2)) = Fin (of_int n * (3 / 2))" by (rule to_float_dyadic)
  then have "adapter_budget n = Inr \<lfloor>of_int n * (3 / 2) :: rat\<rfloor>"
    using f assms(1) by (simp add: adapter_budget_def)
  moreover have "n \<le> \<lfloor>of_int n * (3 / 2) :: rat\<rfloor>" "\<lfloor>of_int n * (3 / 2) :: rat\<rfloor> < 2 * n"
    using assms(1) by (simp_all add: le_floor_iff floor_less_iff)
  ultimately show ?thesis by blast
qed

section \<open>The phases\<close>

text \<open>The monitors of the run: none, or one with the default ratio over a scripted temperature.\<close>

definition run_monitor :: "scripted_reader thermal_monitor option \<Rightarrow> scripted_reader \<Rightarrow> bool" where
  "run_monitor mon s \<longleftrightarrow> (\<forall>m. mon = Some m \<longrightarrow>
     freeze_ratio m = default_freeze_ratio \<and> mon_reader m = scripted_call \<and> scripted_ok s)"

lemma run_monitor_ready:
  assumes lib: "library_behaves env T" and mon: "run_monitor mon s"
  obtains P where "ready P (e_clock env) mon" "P s"
proof (cases mon)
  case None
  then show thesis using that [of "\<lambda>_. True"] by (simp add: ready_def)
next
  case (Some m)
  have "temperature_source scripted_call (e_clock env) scripted_ok (\<lambda>r. scripted_temp r (script_idx r))"
    using libraryD(6) [OF lib]
    by unfold_locales (auto simp: scripted_call_def scripted_ok_def scripted_temp_def)
  then have "decides scripted_ok (e_clock env) m"
    using temperature_source.source_decides mon Some by (fastforce simp: run_monitor_def)
  then show thesis
    using that [of scripted_ok] mon default_stride Some by (fastforce simp: ready_def run_monitor_def)
qed

lemma main_train_run:
  fixes a :: "('d, 'o, 'f) program"
  assumes lib: "library_behaves env T" and base: "run_base T blocks bases" and ends: "run_ends T emb head"
    and over: "adapter_over T bases layers a"
    and steps: "0 < steps" and shift: "shift \<in> {1, 3}" and mon: "run_monitor mon (device_state a)"
  obtains a' where "main_train env emb (plug_in blocks layers) head layers shift steps mon a = (Inr (), a')"
    "manager (session a') = manager (session a)" "disk a' = disk a" "kin T a a'"
proof -
  let ?t = "\<lparr>vocab_size = 12, task_shift = shift, batch_size = 16, sequence_length = 4\<rparr>"
  obtain P where P: "ready P (e_clock env) mon" "P (device_state a)" by (rule run_monitor_ready [OF lib mon])
  note model = run_model [OF base over]
  have laws: "training_laws T (e_train env) 32 (vocab_size ?t) learning_rate" using libraryD(5) [OF lib] by simp
  have bare: "\<forall>r \<in> set (dict_values layers). bare (live_layer a r)" using adapter_over_layer(1) [OF over] by blast
  have "plugged_refs (plug_in blocks layers) \<subseteq> set (dict_values layers)" using model(2) by simp
  note refs = this
  have typed_ends: "embedding_typed T (vocab_size ?t) 32 emb" "linear_typed T (nat (vocab_size ?t), 32) head"
    using ends by (simp_all add: run_ends_def)
  have "0 < vocab_size ?t" "- (2 ^ 63) \<le> task_shift ?t" "task_shift ?t < 2 ^ 63" "0 < batch_size ?t"
    using shift by auto
  from train_adapter_total [OF laws this typed_ends P model(1) refs model(3) bare]
  obtain losses a' where t: "train_adapter (e_train env) (e_clock env) emb (plug_in blocks layers) head layers ?t steps
      learning_rate mon a = (Inr losses, a')" "length losses = steps" "data_kept T a a'"
      "\<forall>r \<in> set (dict_values layers). bare (live_layer a' r)"
    by blast
  have touched: "touched (set (dict_values layers)) a a'" using keepsD [OF touched_train t(1)] .
  have "bare (live_layer a r) \<longrightarrow> bare (live_layer a' r)" for r
    using t(4) touched by (cases "r \<in> set (dict_values layers)") (simp_all add: touched_def)
  then have "kin T a a'" using retyped_app [OF touched t(3)] touched by (simp add: kin_def touched_def)
  moreover have "main_train env emb (plug_in blocks layers) head layers shift steps mon a = (Inr (), a')"
    using t(1,2) steps by (auto simp: main_train_def sbind_apply sret_apply)
  ultimately show thesis using that touched by (simp add: touched_def)
qed

lemma on_session_kin:
  assumes "\<forall>r. unhooked (layer_at st r) = unhooked (live_layer a r)"
    and "\<forall>r. bare (live_layer a r) \<longrightarrow> bare (layer_at st r)"
  shows "kin T a (a\<lparr>session := st\<rparr>)"
  using assms by (intro kin_unhooked) simp_all

lemma serve_run:
  fixes a :: "('s, 'd, 'o, 'f) app"
  assumes "idle budget (session a)" and "incoming (session a) layers \<le> budget"
  obtains a1 a2 where "on_session (load_adapter malloc k layers) a = (Inr (), a1)"
    "on_session (activate k) a1 = (Inr (), a2)"
    "serving budget k layers (session a2)" "kin T a a2" "disk a2 = disk a" "generator a2 = generator a"
    "next_ref a2 = next_ref a" "\<forall>r. live_layer a2 r = live_layer a r"
proof -
  obtain st1 st2 where st: "load_adapter malloc k layers (session a) = (Inr (), st1)"
    "activate k st1 = (Inr (), st2)" "serving budget k layers st2" "layer_at st2 = layer_at (session a)"
    by (rule serve [OF assms])
  show thesis
    by (rule that [of "a\<lparr>session := st1\<rparr>" "a\<lparr>session := st2\<rparr>"])
      (use st in \<open>simp_all add: on_session_def on_session_kin\<close>)
qed

lemma first_task_run:
  fixes a :: "('d, 'o, 'f) program"
  assumes lib: "library_behaves env T" and over: "adapter_over T bases la a" "adapter_over T bases lb a"
    and base: "run_base T blocks bases" and ends: "run_ends T emb head"
  obtains a' budget where "main_first_task env emb blocks head la lb a = (Inr (), a')"
    "serving budget ''task-a-shift1'' la (session a')" "kin T a a'" "disk a' = disk a"
    "(\<Sum>(n, base)\<leftarrow>bases. base_bytes base) \<le> budget" "budget < 2 * (\<Sum>(n, base)\<leftarrow>bases. base_bytes base)"
proof -
  define one where "one = (\<Sum>(n, base)\<leftarrow>bases. base_bytes base)"
  have "length bases = 6"
  proof -
    have "length (dict_keys bases) = length (block_keys 0 2)" using base by (simp add: run_base_def)
    then show ?thesis by (simp add: dict_keys_def adapted_sublayers_def numeral_2_eq_2)
  qed
  moreover have "\<forall>(n, l) \<in> set bases. base_shape (ty_dtype T) l" using run_base_mem(3) [OF base] by blast
  ultimately have "0 < one" "one \<le> 2 ^ 50"
    using base_total_bounds [OF libraryD(3,4) [OF lib], of bases] by (auto simp: one_def)
  then obtain budget where b: "adapter_budget one = Inr budget" "one \<le> budget" "budget < 2 * one"
    using adapter_budget_ok by blast
  have inc: "incoming (session a) la = one" "incoming (session a) lb = one"
    using adapter_over_bytes over by (simp_all add: one_def)
  let ?m = "bare_manager budget [] None"
  have init: "manager_init (e_native env) budget = Inr ?m"
    using manager_init_idle [of budget] b(2) \<open>0 < one\<close> libraryD(7) [OF lib] by simp
  let ?a = "a\<lparr>session := (session a)\<lparr>manager := ?m\<rparr>\<rparr>"
  have "idle budget (session ?a)" by (simp add: idle_def)
  moreover have "incoming (session ?a) la \<le> budget" using inc b(2) by (simp add: incoming_def)
  ultimately obtain a1 a2 where s: "on_session (load_adapter (e_malloc env) ''task-a-shift1'' la) ?a = (Inr (), a1)"
    "on_session (activate ''task-a-shift1'') a1 = (Inr (), a2)"
    "serving budget ''task-a-shift1'' la (session a2)" "kin T ?a a2" "disk a2 = disk ?a"
    by (rule serve_run)
  have "kin T a ?a" by (simp add: kin_def)
  then have kin2: "kin T a a2" using s(4) kin_trans by blast
  obtain a3 where t: "main_train env emb (plug_in blocks la) head la 1 150 None a2 = (Inr (), a3)"
    "manager (session a3) = manager (session a2)" "disk a3 = disk a2" "kin T a2 a3"
    by (rule main_train_run [OF lib base ends adapter_over_kin [OF over(1) kin2], where mon = None and steps = 150 and shift = 1])
      (simp_all add: run_monitor_def)
  have kin: "kin T a a3" using kin2 t(4) kin_trans by blast
  have serving: "serving budget ''task-a-shift1'' la (session a3)" using s(3) t(2) by (simp add: serving_def)
  have "incoming (session a3) la = one" "incoming (session a3) lb = one"
    using adapter_over_bytes adapter_over_kin [OF over(1) kin] adapter_over_kin [OF over(2) kin]
    by (simp_all add: one_def)
  then have "load_adapter (e_malloc env) ''task-b-shift3'' lb (session a3) = (Inl AdapterBudgetError, session a3)"
    using b(3) by (intro reject [OF serving]) simp_all
  then have "expect_rejection env lb a3 = (Inr (), a3)"
    by (simp add: expect_rejection_def on_session_def)
  then have "main_first_task env emb blocks head la lb a = (Inr (), a3)"
    by (simp add: main_first_task_def sbind_apply slift_apply supd_apply inc(1) b(1) init s(1,2) t(1))
  with serving kin s(5) t(3) b(2,3) show thesis using that by (simp add: one_def)
qed

text \<open>What the save in the run writes.\<close>

lemma run_layer_prints:
  assumes "run_layer T base l" and "float_repr_ok repr 16"
  shows "alpha_prints repr l" "layer_metadata l = Inr (JObject
    [(''rank'', JInt 8), (''alpha'', JFloat (Fin 16)), (''routing_gate_enabled'', JBool True)])"
proof -
  have f: "float_of_int 8 = Inr (Fin 8)" using float_of_int_exact [of 8] by simp
  have l: "rank l = 8" "scaling l = Fin 2" "routing_gate_enabled l"
    using assms(1) by (simp_all add: run_layer_def trainable_def)
  then show "alpha_prints repr l" using assms(2) to_float_sixteen by (simp add: alpha_prints_def)
  show "layer_metadata l = Inr (JObject
    [(''rank'', JInt 8), (''alpha'', JFloat (Fin 16)), (''routing_gate_enabled'', JBool True)])"
    using f l to_float_sixteen by (simp add: layer_metadata_def saved_alpha_def)
qed

lemma live_args_get: "dict_get (live_args a layers) n = map_option (\<lambda>r. LayerObj (live_layer a r)) (dict_get layers n)"
  by (simp add: live_args_def dict_get_def map_of_map)

lemma live_args_keys: "dict_keys (live_args a layers) = dict_keys layers"
  by (simp add: live_args_def dict_keys_def case_prod_unfold)

lemma live_args_premises:
  assumes "adapter_over T bases layers a" and "dict_ok bases" and "float_repr_ok repr 16"
  shows "dict_ok (live_args a layers)"
    "\<forall>(name, v) \<in> set (live_args a layers). \<exists>l. v = LayerObj l \<and> layer_wf l \<and> alpha_prints repr l"
proof -
  have "dict_keys (live_args a layers) = dict_keys bases"
    using adapter_over_keys [OF assms(1)] by (simp add: live_args_keys)
  then show "dict_ok (live_args a layers)" using assms(2) by (simp add: dict_ok_def dict_keys_def)
  show "\<forall>(name, v) \<in> set (live_args a layers). \<exists>l. v = LayerObj l \<and> layer_wf l \<and> alpha_prints repr l"
    using adapter_over_mem [OF assms(1)] run_layer_prints(1) [OF _ assms(3)]
    by (fastforce simp: live_args_def run_layer_def)
qed

lemma run_collects:
  assumes over: "adapter_over T bases layers a" and ok: "dict_ok bases" and repr: "float_repr_ok repr 16"
    and keys: "dict_keys bases = block_keys 0 2"
  shows "\<exists>ts. collect_layers (live_args a layers) ([], []) = Inr (ts, run_metadata)"
proof -
  from collect_saved [OF live_args_premises [OF over ok repr]]
  obtain ts ms where c: "collect_layers (live_args a layers) ([], []) = Inr (ts, ms)"
    "dict_ok ts" "dict_keys ms = dict_keys (live_args a layers)"
    "json_loads (json_dumps repr (JObject ms)) = Inr (JObject ms)"
    "\<And>n l. dict_get (live_args a layers) n = Some (LayerObj l) \<Longrightarrow> layer_saved repr ts ms n l"
    by blast
  let ?M = "JObject [(''rank'', JInt 8), (''alpha'', JFloat (Fin 16)), (''routing_gate_enabled'', JBool True)]"
  have mk: "dict_keys ms = block_keys 0 2"
    using c(3) adapter_over_keys [OF over] keys by (simp add: live_args_keys)
  have "m = ?M" if nm: "(n, m) \<in> set ms" for n m
  proof -
    have "dict_ok ms" using mk distinct_block_keys by (simp add: dict_ok_def dict_keys_def)
    then have gm: "dict_get ms n = Some m" using nm by (simp add: py_dict.get_Some_iff)
    have "n \<in> set (dict_keys layers)"
    proof -
      have "n \<in> set (dict_keys ms)" using nm by (force simp: dict_keys_def)
      then show ?thesis using c(3) by (simp add: live_args_keys)
    qed
    then obtain r where r: "dict_get layers n = Some r" by (auto simp: dict_keys_get)
    then have "layer_saved repr ts ms n (live_layer a r)" by (intro c(5)) (simp add: live_args_get)
    moreover have "(n, r) \<in> set layers" using r by (simp add: dict_get_def map_of_SomeD)
    then obtain base where "run_layer T base (live_layer a r)" using adapter_over_mem [OF over] by blast
    then have "layer_metadata (live_layer a r) = Inr ?M" by (rule run_layer_prints(2) [OF _ repr])
    ultimately show ?thesis using gm by (auto simp: layer_saved_def)
  qed
  then have "ms = map (\<lambda>n. (n, ?M)) (map fst ms)" by (auto intro!: map_idI [symmetric] simp: comp_def)
  with mk c(1) show ?thesis by (simp add: run_metadata_def dict_keys_def)
qed

lemma swap_run:
  fixes a :: "('d, 'o, 'f) program"
  assumes lib: "library_behaves env T" and over: "adapter_over T bases la a" "adapter_over T bases lb a"
    and base: "run_base T blocks bases" and ends: "run_ends T emb head"
    and serving: "serving budget ''task-a-shift1'' la (session a)"
    and fits: "(\<Sum>(n, base)\<leftarrow>bases. base_bytes base) \<le> budget"
  obtains dir path a' where "main_swap env emb (plug_in blocks lb) head la lb a = (Inr (dir, path), a')"
    "serving budget ''task-b-shift3'' lb (session a')" "kin T a a'" "is_there env dir (disk a')"
    "\<forall>g. \<exists>objs g'. load_adapter_file (e_files env) (e_torch env) path bases None (disk a', g) = (Inr objs, (disk a', g')) \<and>
       dict_keys objs = dict_keys bases \<and>
       (\<forall>n r. dict_get la n = Some r \<longrightarrow> dict_get objs n = Some (unhooked (live_layer a r)))"
proof -
  note repr = filesD(7) [OF lib]
  have bases: "dict_ok bases" "dict_keys bases = block_keys 0 2" using base by (simp_all add: run_base_def)
  obtain dir d1 where dir: "e_mkdtemp env (disk a) = (Inr dir, d1)" "is_there env dir d1"
    using filesD(1) [OF lib] by blast
  let ?path = "dir @ ''/task-a-shift1.safetensors''"
  obtain d2 where d2: "fo_mkdir_parent (e_files env) ?path d1 = (Inr (), d2)" "is_there env dir d2"
    using filesD(2) [OF lib dir(2)] by blast
  obtain ts where ts: "collect_layers (live_args a la) ([], []) = Inr (ts, run_metadata)"
    using run_collects [OF over(1) bases(1) repr bases(2)] by blast
  obtain d3 n where d3: "st_save (e_files env) ts ?path
      [(metadata_key, json_dumps (e_repr env) (JObject run_metadata))] d2 = (Inr (), d3)" "is_there env dir d3"
    and stat: "e_stat env ?path d3 = (Inr n, d3)"
    using filesD(3) [OF lib d2(2)] by blast
  have "la \<noteq> []"
    using adapter_over_keys [OF over(1)] bases(2) by (auto simp: dict_keys_def adapted_sublayers_def numeral_2_eq_2)
  then have save: "save_adapter (e_files env) (e_repr env) ?path (live_args a la) d1 = (Inr (), d3)"
  proof -
    have "live_args a la \<noteq> []" using \<open>la \<noteq> []\<close> by (simp add: live_args_def)
    with d2(1) d3(1) show ?thesis by (simp add: save_adapter_def ts sbind_apply del: json_dumps.simps)
  qed
  have frz: "\<forall>name base l. dict_get bases name = Some base \<and> dict_get (live_args a la) name = Some (LayerObj l) \<longrightarrow>
      freeze_linear base = base_layer l"
    using adapter_over_get [OF over(1) bases(1)] by (auto simp: live_args_get run_layer_def)
  have fmt: "safetensors_format (e_files env) (case None of Some d \<Rightarrow> d | None \<Rightarrow> ''cpu'')"
    using filesD(5) [OF lib] by simp
  have "set (dict_keys bases) = set (dict_keys (live_args a la))"
    using adapter_over_keys [OF over(1)] by (simp add: live_args_keys)
  note after = load_after_save [OF fmt filesD(6) [OF lib] live_args_premises [OF over(1) bases(1) repr] save bases(1) this frz]
  have objs: "\<exists>objs g'. load_adapter_file (e_files env) (e_torch env) ?path bases None (d3, g) = (Inr objs, (d3, g')) \<and>
      dict_keys objs = dict_keys bases \<and>
      (\<forall>n r. dict_get la n = Some r \<longrightarrow> dict_get objs n = Some (unhooked (live_layer a r)))" for g
  proof -
    obtain objs g' where o: "load_adapter_file (e_files env) (e_torch env) ?path bases None (d3, g) = (Inr objs, (d3, g'))"
      "dict_keys objs = dict_keys bases"
      "\<forall>name l. dict_get (live_args a la) name = Some (LayerObj l) \<longrightarrow> dict_get objs name = Some (unhooked l)"
      using after by blast
    from o(3) have "\<forall>n r. dict_get la n = Some r \<longrightarrow> dict_get objs n = Some (unhooked (live_layer a r))"
      by (simp add: live_args_get)
    with o(1,2) show ?thesis by blast
  qed
  obtain st where st: "unload_adapter ''task-a-shift1'' (session a) = (Inr (), st)" "idle budget st"
    "\<forall>r. unhooked (layer_at st r) = unhooked (layer_at (session a) r)"
    "\<forall>r. bare (layer_at (session a) r) \<longrightarrow> bare (layer_at st r)"
    by (rule retire [OF serving])
  let ?b = "a\<lparr>session := st, disk := d3\<rparr>"
  have kin1: "kin T a ?b" using st(3,4) by (intro kin_unhooked) simp_all
  have fits_b: "incoming (session ?b) lb \<le> budget"
    using adapter_over_bytes [OF adapter_over_kin [OF over(2) kin1]] fits by simp
  have idle_b: "idle budget (session ?b)" using st(2) by simp
  obtain b1 b2 where s: "on_session (load_adapter (e_malloc env) ''task-b-shift3'' lb) ?b = (Inr (), b1)"
    "on_session (activate ''task-b-shift3'') b1 = (Inr (), b2)"
    "serving budget ''task-b-shift3'' lb (session b2)" "kin T ?b b2" "disk b2 = disk ?b"
    by (rule serve_run [OF idle_b fits_b])
  have kin2: "kin T a b2" using kin1 s(4) kin_trans by blast
  obtain c where c: "main_train env emb (plug_in blocks lb) head lb 3 150 None b2 = (Inr (), c)"
    "manager (session c) = manager (session b2)" "disk c = disk b2" "kin T b2 c"
    by (rule main_train_run [OF lib base ends adapter_over_kin [OF over(2) kin2], where mon = None and steps = 150 and shift = 3])
      (simp_all add: run_monitor_def)
  have kin: "kin T a c" using kin2 c(4) kin_trans by blast
  have "main_swap env emb (plug_in blocks lb) head la lb a = (Inr (dir, ?path), c)"
    using dir(1) save st(1) stat s(1,2) c(1)
    by (simp add: main_swap_def sbind_apply on_disk_def on_session_def Let_def live_args_def sret_apply)
  moreover have "serving budget ''task-b-shift3'' lb (session c)" using s(3) c(2) by (simp add: serving_def)
  moreover have "disk c = d3" using s(5) c(3) by simp
  ultimately show thesis using that kin objs d3(2) by blast
qed

text \<open>The reloaded layers are layers of the run over the same bases.\<close>

lemma reloaded_layers:
  assumes over: "adapter_over T bases la a" and ok: "dict_ok bases" and keys: "dict_keys objs = dict_keys bases"
    and get: "\<forall>n r. dict_get la n = Some r \<longrightarrow> dict_get objs n = Some (unhooked (live_layer a r))"
  shows "list_all2 (\<lambda>(n, base) (n', l). n' = n \<and> run_layer T base l) bases objs"
proof (rule list_all2_all_nthI)
  have keys': "map fst objs = map fst bases" using keys by (simp add: dict_keys_def)
  then show len: "length bases = length objs" by (metis length_map)
  have ok': "dict_ok objs" using ok keys' by (simp add: dict_ok_def)
  fix i assume i: "i < length bases"
  obtain n base where nb: "bases ! i = (n, base)" by (metis surj_pair)
  obtain n' l where nl: "objs ! i = (n', l)" by (metis surj_pair)
  have "fst (objs ! i) = fst (bases ! i)" using keys' i len by (metis nth_map)
  then have n: "n' = n" using nb nl by simp
  have gb: "dict_get bases n = Some base" and go: "dict_get objs n = Some l"
    using ok ok' nb nl n i len by (metis nth_mem py_dict.get_Some_iff)+
  have "n \<in> set (dict_keys la)"
    using adapter_over_keys [OF over] gb by (simp add: dict_keys_get)
  then obtain r where r: "dict_get la n = Some r" by (auto simp: dict_keys_get)
  have "run_layer T base (live_layer a r)" by (rule adapter_over_get [OF over ok gb r])
  moreover have "l = unhooked (live_layer a r)" using get r go by simp
  ultimately have "run_layer T base l" by (simp add: run_layer_def)
  with n show "(case bases ! i of (n, base) \<Rightarrow> \<lambda>(n', l). n' = n \<and> run_layer T base l) (objs ! i)"
    by (simp add: nb nl)
qed

lemma gated_run:
  fixes a :: "('d, 'o, 'f) program"
  assumes lib: "library_behaves env T" and base: "run_base T blocks bases" and ends: "run_ends T emb head"
    and over: "adapter_over T bases lb a"
  obtains a' where "main_gated env emb (plug_in blocks lb) head lb a = (Inr (), a')"
    "manager (session a') = manager (session a)" "disk a' = disk a" "kin T a a'"
proof -
  let ?script = "replicate 20 (Fin 80) @ replicate 20 (Fin 25)"
  let ?sr = "\<lparr>script = ?script, script_idx = 0\<rparr>"
  have sr: "scripted_init ?script = Inr ?sr" by (simp add: scripted_init_def)
  have ratio: "to_float (1 / 5) = Fin (3602879701896397 / 18014398509481984)"
    using default_freeze_ratio_eq by (simp add: default_freeze_ratio_def)
  let ?m = "\<lparr>mon_reader = scripted_call, freeze_threshold_c = Fin 75, freeze_ratio = default_freeze_ratio\<rparr>"
  have m: "monitor_init (Some scripted_call) (Fin 75) (to_float (1 / 5)) = Inr ?m"
    by (simp add: monitor_init_def ratio default_freeze_ratio_eq)
  let ?a = "a\<lparr>device_state := ?sr\<rparr>"
  have "kin T a ?a" by (simp add: kin_def)
  note over_a = adapter_over_kin [OF over this]
  have mon: "run_monitor (Some ?m) (device_state ?a)" by (simp add: run_monitor_def scripted_ok_def)
  obtain b where b: "main_train env emb (plug_in blocks lb) head lb 3 40 (Some ?m) ?a = (Inr (), b)"
    "manager (session b) = manager (session ?a)" "disk b = disk ?a" "kin T ?a b"
    by (rule main_train_run [OF lib base ends over_a _ _ mon, where steps = 40 and shift = 3]) simp_all
  have "kin T a ?a" by (simp add: kin_def)
  with b(4) have "kin T a b" using kin_trans by blast
  moreover have "main_gated env emb (plug_in blocks lb) head lb a = (Inr (), b)"
    unfolding main_gated_def by (simp only: sbind_apply slift_apply sr m sum.case prod.case supd_apply b(1))
  ultimately show thesis using that b(2,3) by simp
qed

lemma reload_run:
  fixes a :: "('d, 'o, 'f) program"
  assumes lib: "library_behaves env T"
    and base: "run_base T blocks bases" and ends: "run_ends T emb head" and dir: "is_there env dir (disk a)"
    and load: "load_adapter_file (e_files env) (e_torch env) path bases None (disk a, generator a) = (Inr objs, (disk a, g))"
    and objs: "list_all2 (\<lambda>(n, base) (n', l). n' = n \<and> run_layer T base l) bases objs"
    and serving: "serving budget ''task-b-shift3'' lb (session a)"
    and fits: "(\<Sum>(n, base)\<leftarrow>bases. base_bytes base) \<le> budget"
  obtains layers a' where "main_reload env emb blocks head bases dir path a = (Inr layers, a')"
    "serving budget ''task-a-shift1-reloaded'' layers (session a')" "adapter_over T bases layers a'"
    "list_all2 (\<lambda>(n, l) (n', r). n' = n \<and> unhooked (live_layer a' r) = unhooked l) objs layers"
proof -
  let ?a = "a\<lparr>generator := g\<rparr>"
  obtain layers b where b: "store_layers objs ?a = (Inr layers, b)" "adapter_over T bases layers b"
    "list_all2 (\<lambda>(n, l) (n', r). n' = n \<and> live_layer b r = l) objs layers"
    "manager (session b) = manager (session ?a)" "disk b = disk ?a"
    by (rule store_adapter [OF objs])
  have "serving budget ''task-b-shift3'' lb (session b)" using serving b(4) by (simp add: serving_def)
  then obtain st where st: "unload_adapter ''task-b-shift3'' (session b) = (Inr (), st)" "idle budget st"
    "\<forall>r. unhooked (layer_at st r) = unhooked (layer_at (session b) r)"
    "\<forall>r. bare (layer_at (session b) r) \<longrightarrow> bare (layer_at st r)"
    by (rule retire)
  let ?c = "b\<lparr>session := st\<rparr>"
  have kin_c: "kin T b ?c" using st(3,4) by (intro kin_unhooked) simp_all
  have fits_c: "incoming (session ?c) layers \<le> budget"
    using adapter_over_bytes [OF adapter_over_kin [OF b(2) kin_c]] fits by simp
  have idle_c: "idle budget (session ?c)" using st(2) by simp
  obtain d1 d2 where d: "on_session (load_adapter (e_malloc env) ''task-a-shift1-reloaded'' layers) ?c = (Inr (), d1)"
    "on_session (activate ''task-a-shift1-reloaded'') d1 = (Inr (), d2)"
    "serving budget ''task-a-shift1-reloaded'' layers (session d2)" "kin T ?c d2" "disk d2 = disk ?c"
    "generator d2 = generator ?c" "next_ref d2 = next_ref ?c" "\<forall>r. live_layer d2 r = live_layer ?c r"
    by (rule serve_run [OF idle_c fits_c])
  have over: "adapter_over T bases layers d2"
    by (rule adapter_over_kin [OF adapter_over_kin [OF b(2) kin_c] d(4)])
  note laws = libraryD(5) [OF lib]
  obtain toks targets w' where batch: "synthetic_batch (e_train env) 12 8 4 1 d2 = (Inr (toks, targets), d2\<lparr>generator := w'\<rparr>)"
    "token_batch 12 8 4 toks"
    using batch_total [OF laws, where shift = 1 and b = 8 and n = 4 and a = d2] by auto
  have "\<forall>blk \<in> set (plug_in blocks layers). block_typed T (layer_at (session (d2\<lparr>generator := w'\<rparr>))) 32 64 blk"
    using run_model(1) [OF base over] by simp
  from forward_total [OF laws this _ _ _ batch(2), of emb head] ends
  obtain x where fwd: "model_forward (e_train env) emb (plug_in blocks layers) head toks (d2\<lparr>generator := w'\<rparr>) = (Inr x, d2\<lparr>generator := w'\<rparr>)"
    by (auto simp: run_ends_def)
  obtain f where rm: "e_rmtree env dir (disk d2) = (Inr (), f)" using filesD(4) [OF lib, of dir "disk d2"] dir b(5) d(5) by auto
  let ?e = "d2\<lparr>generator := w', disk := f\<rparr>"
  have disk_a: "a\<lparr>disk := disk a, generator := g\<rparr> = ?a" by simp
  have "main_reload env emb blocks head bases dir path a = (Inr layers, ?e)"
    using load b(1) st(1) d(1,2) batch(1) fwd rm
    by (simp add: main_reload_def sbind_apply on_disk_def on_disk_and_generator_def on_session_def sret_apply disk_a)
  moreover have "adapter_over T bases layers ?e" using over by (simp add: adapter_over_def)
  moreover have "list_all2 (\<lambda>(n, l) (n', r). n' = n \<and> unhooked (live_layer ?e r) = unhooked l) objs layers"
    using b(3) by (rule list_all2_mono) (use d(8) st(3) in auto)
  ultimately show thesis using that d(3) by simp
qed

section \<open>An example environment\<close>

definition run_repr :: "rat \<Rightarrow> string" where
  "run_repr x = ''16.0''"

definition example_env :: "(shape_tensor, unit, shape_tensor example_files) environment" where
  "example_env =
     \<lparr>e_linear = shape_mk, e_embedding = shape_embed, e_train = shape_train_ops 32,
      e_clock = (\<lambda>r. (Fin 0, r)), e_files = example_fo, e_repr = run_repr, e_malloc = example_malloc,
      e_native = False, e_mkdtemp = (\<lambda>f. (Inr ''t'', f(''t'' \<mapsto> ([], [])))),
      e_stat = (\<lambda>p f. (case f p of None \<Rightarrow> Inl FileNotFoundError | Some (c, _) \<Rightarrow> Inr (int (length c)), f)),
      e_rmtree = (\<lambda>p f. if f p = None then (Inl FileNotFoundError, f) else (Inr (), Map.empty))\<rparr>"

lemma run_repr_ok: "float_repr_ok run_repr 16"
proof -
  have d: "is_digit (CHR ''0'')" "is_digit (CHR ''1'')" "is_digit (CHR ''6'')" "CHR ''1'' \<noteq> CHR ''0''"
    by (simp_all add: is_digit_def ord_of_def)
  have "float_of_str ''16.0'' = Inr (Fin 16)" using to_float_sixteen by (simp add: text_eval)
  then show ?thesis unfolding float_repr_ok_def run_repr_def
    by (intro exI [of _ "[]"] exI [of _ "''16''"] exI [of _ "''.0''"])
      (simp add: int_text_def frac_text_def exp_text_def digits_def d)
qed

lemma dump_string_length: "length (dump_string s) \<le> 6 * length s + 2"
proof -
  have "length (concat (map escape_char s)) \<le> 6 * length s"
    by (induction s) (simp_all add: escape_char_def)
  then show ?thesis by (simp add: dump_string_def)
qed

lemma joined_length:
  "\<forall>x \<in> set xs. length x \<le> n \<Longrightarrow> length (join_items xs) \<le> (n + 2) * length xs"
  by (induction xs rule: join_items.induct) auto

lemma run_metadata_length:
  "length (json_dumps run_repr (JObject run_metadata)) \<le> 2000"
proof -
  let ?item = "\<lambda>(k, v). dump_string k @ '': '' @ json_dumps run_repr v"
  let ?v = "JObject [(''rank'', JInt 8), (''alpha'', JFloat (Fin 16)), (''routing_gate_enabled'', JBool True)]"
  have v: "length (json_dumps run_repr ?v) \<le> 100" by code_simp
  have keys: "\<forall>k \<in> set (block_keys 0 2). length k \<le> 20" by code_simp
  have item: "length (?item (k, ?v)) \<le> 224" if "k \<in> set (block_keys 0 2)" for k
  proof -
    have "length k \<le> 20" using keys that by blast
    then have "length (dump_string k) \<le> 122" using dump_string_length [of k] by linarith
    moreover have "length (?item (k, ?v)) = length (dump_string k) + (2 + length (json_dumps run_repr ?v))"
      by (simp del: json_dumps.simps)
    ultimately show ?thesis using v by linarith
  qed
  have "\<forall>x \<in> set (map ?item run_metadata). length x \<le> 224"
  proof
    fix x assume "x \<in> set (map ?item run_metadata)"
    then obtain k where "k \<in> set (block_keys 0 2)" "x = ?item (k, ?v)"
      by (auto simp: run_metadata_def simp del: json_dumps.simps)
    then show "length x \<le> 224" using item [of k] by blast
  qed
  moreover have "length (map ?item run_metadata) = 6"
    by (simp add: run_metadata_def numeral_2_eq_2 adapted_sublayers_def)
  ultimately have "length (join_items (map ?item run_metadata)) \<le> 226 * 6"
    using joined_length [of "map ?item run_metadata" 224] by simp
  then show ?thesis by (simp del: json_dumps.simps add: json_dumps.simps(7))
qed

lemma example_header_length:
  "length (example_header [(k, v)]) =
     length (dump_string ''__metadata__'') + length (dump_string k) + length (dump_string v) + 8"
  by (simp add: example_header_def)

lemma run_header_length:
  "length (example_header [(metadata_key, json_dumps run_repr (JObject run_metadata))]) < 256 ^ 8"
proof -
  let ?t = "json_dumps run_repr (JObject run_metadata)"
  have "length (dump_string ?t) \<le> 12002" using dump_string_length [of ?t] run_metadata_length by linarith
  moreover have "length (dump_string metadata_key) \<le> 200" "length (dump_string ''__metadata__'') \<le> 200"
    by code_simp+
  ultimately have "length (example_header [(metadata_key, ?t)]) \<le> 20000"
    using example_header_length [of metadata_key ?t] by linarith
  moreover have "(20000 :: nat) < 256 ^ 8" by simp
  ultimately show ?thesis by linarith
qed

lemma example_files_behave: "files_behave example_env"
  unfolding files_behave_def Let_def
proof (intro conjI allI impI)
  have env: "e_files example_env = example_fo" "e_repr example_env = run_repr"
    by (simp_all add: example_env_def)
  have there: "is_there example_env p f \<longleftrightarrow> f p \<noteq> None" for p f
    by (simp add: is_there_def env example_fo_def)
  show "safetensors_format (e_files example_env) ''cpu''" by (simp add: env example_format)
  show "copy_same (e_files example_env)" by (simp add: env example_copy)
  show "float_repr_ok (e_repr example_env) 16" by (simp add: env run_repr_ok)
  show "\<exists>dir f'. e_mkdtemp example_env f = (Inr dir, f') \<and> is_there example_env dir f'" for f
    unfolding there by (simp add: example_env_def)
  fix dir f assume f: "is_there example_env dir f"
  let ?path = "dir @ ''/task-a-shift1.safetensors''"
  show "\<exists>f'. fo_mkdir_parent (e_files example_env) ?path f = (Inr (), f') \<and> is_there example_env dir f'"
    using f by (simp add: env example_fo_def)
  show "\<exists>f'. e_rmtree example_env dir f = (Inr (), f')" using f unfolding there by (simp add: example_env_def)
  fix ts
  let ?h = "example_header [(metadata_key, json_dumps run_repr (JObject run_metadata))]"
  let ?f = "f(?path \<mapsto> (to_bytes_little 8 (length ?h) @ ?h, ts))"
  have "st_save (e_files example_env) ts ?path
      [(metadata_key, json_dumps (e_repr example_env) (JObject run_metadata))] f = (Inr (), ?f)"
    unfolding env using run_header_length by (simp add: example_fo_def Let_def dict_ok_def del: json_dumps.simps)
  moreover have "is_there example_env dir ?f" using f unfolding there by simp
  moreover have "\<exists>n. e_stat example_env ?path ?f = (Inr n, ?f)" by (simp add: example_env_def)
  ultimately show "\<exists>f' n. st_save (e_files example_env) ts ?path
      [(metadata_key, json_dumps (e_repr example_env) (JObject run_metadata))] f = (Inr (), f') \<and>
      is_there example_env dir f' \<and> e_stat example_env ?path f' = (Inr n, f')" by blast
qed

lemma example_library: "library_behaves example_env shape_typing"
  unfolding library_behaves_def
proof (intro conjI)
  show "files_behave example_env" by (rule example_files_behave)
  show "training_laws shape_typing (e_train example_env) 32 12 learning_rate"
    using shape_training_laws [of 12 32] by (simp add: example_env_def)
  show "\<forall>v d g. \<exists>p g'. e_embedding example_env v d g = (Inr p, g') \<and> embedding_typed shape_typing v (nat d) p"
    using shape_embed_typed by (fastforce simp: example_env_def shape_embed_def)
qed (simp_all add: example_env_def shape_mk_def linear_typed_def shape_typing_def
    new_parameter_def example_dtype_def)

section \<open>The whole run\<close>

text \<open>The phases together, from any starting state.\<close>

lemma main_run:
  assumes lib: "library_behaves env T"
  obtains emb blocks head bases la lb b c layers a' budget where
    "main_setup env a = (Inr (emb, blocks, head, bases, la, lb), b)" "main_first_task env emb blocks head la lb b = (Inr (), c)"
    "main_program env a = (Inr layers, a')" "run_base T blocks bases" "dict_keys la = dict_keys bases"
    "serving budget ''task-a-shift1-reloaded'' layers (session a')" "adapter_over T bases layers a'"
    "(\<Sum>(n, base)\<leftarrow>bases. base_bytes base) \<le> budget" "budget < 2 * (\<Sum>(n, base)\<leftarrow>bases. base_bytes base)"
    "\<forall>n r. dict_get la n = Some r \<longrightarrow>
       (\<exists>r'. dict_get layers n = Some r' \<and> unhooked (live_layer a' r') = unhooked (live_layer c r))"
proof -
  obtain emb blocks head bases la lb b where b: "main_setup env a = (Inr (emb, blocks, head, bases, la, lb), b)"
    "adapter_over T bases la b" "adapter_over T bases lb b" "run_base T blocks bases" "run_ends T emb head"
    by (rule setup_run [OF lib])
  have ok: "dict_ok bases" using b(4) by (simp add: run_base_def)
  obtain c budget where c: "main_first_task env emb blocks head la lb b = (Inr (), c)"
    "serving budget ''task-a-shift1'' la (session c)" "kin T b c"
    "(\<Sum>(n, base)\<leftarrow>bases. base_bytes base) \<le> budget" "budget < 2 * (\<Sum>(n, base)\<leftarrow>bases. base_bytes base)"
    by (rule first_task_run [OF lib b(2-5)])
  let ?blocks = "plug_in (plug_in blocks la) lb"
  have base_a: "run_base T (plug_in blocks la) bases" and base_b: "run_base T ?blocks bases"
    using run_base_plug b(4) by blast+
  have over_c: "adapter_over T bases la c" "adapter_over T bases lb c"
    using adapter_over_kin [OF _ c(3)] b(2,3) by blast+
  obtain dir path d where d: "main_swap env emb ?blocks head la lb c = (Inr (dir, path), d)"
    "serving budget ''task-b-shift3'' lb (session d)" "kin T c d" "is_there env dir (disk d)"
    "\<forall>g. \<exists>objs g'. load_adapter_file (e_files env) (e_torch env) path bases None (disk d, g) = (Inr objs, (disk d, g')) \<and>
       dict_keys objs = dict_keys bases \<and>
       (\<forall>n r. dict_get la n = Some r \<longrightarrow> dict_get objs n = Some (unhooked (live_layer c r)))"
    by (rule swap_run [OF lib over_c base_a b(5) c(2,4)])
  obtain e where e: "main_gated env emb ?blocks head lb d = (Inr (), e)" "manager (session e) = manager (session d)"
    "disk e = disk d" "kin T d e"
    by (rule gated_run [OF lib base_a b(5) adapter_over_kin [OF over_c(2) d(3)]])
  obtain objs g where o: "load_adapter_file (e_files env) (e_torch env) path bases None (disk e, generator e) =
      (Inr objs, (disk e, g))" "dict_keys objs = dict_keys bases"
    "\<forall>n r. dict_get la n = Some r \<longrightarrow> dict_get objs n = Some (unhooked (live_layer c r))"
    using d(5) e(3) by metis
  have objs: "list_all2 (\<lambda>(n, base) (n', l). n' = n \<and> run_layer T base l) bases objs"
    by (rule reloaded_layers [OF over_c(1) ok o(2,3)])
  have there: "is_there env dir (disk e)" using d(4) e(3) by simp
  have serving_e: "serving budget ''task-b-shift3'' lb (session e)" using d(2) e(2) by (simp add: serving_def)
  obtain layers f where f: "main_reload env emb ?blocks head bases dir path e = (Inr layers, f)"
    "serving budget ''task-a-shift1-reloaded'' layers (session f)" "adapter_over T bases layers f"
    "list_all2 (\<lambda>(n, l) (n', r). n' = n \<and> unhooked (live_layer f r) = unhooked l) objs layers"
    by (rule reload_run [OF lib base_b b(5) there o(1) objs serving_e c(4)])
  have main: "main_program env a = (Inr layers, f)"
    by (simp add: main_program_def sbind_apply b(1) c(1) d(1) e(1) f(1) Let_def)
  have "\<exists>r'. dict_get layers n = Some r' \<and> unhooked (live_layer f r') = unhooked l"
    if "dict_get objs n = Some l" for n l
    using f(4) that unfolding dict_get_def by (induction rule: list_all2_induct) (auto split: if_splits)
  then have "\<exists>r'. dict_get layers n = Some r' \<and> unhooked (live_layer f r') = unhooked (live_layer c r)"
    if "dict_get la n = Some r" for n r
    using o(3) that by fastforce
  with that b(1,4) c(1,4,5) main f(2,3) adapter_over_keys [OF over_c(1)] show thesis by blast
qed

text \<open>
  C3. The end-to-end program runs to its end on the pure Python manager, whatever its starting state:
  with a budget between one and two adapters, the second adapter is rejected while the first is
  in service, the first is saved, evicted, reloaded from its file over the same base layers and
  taken into service again as the only resident adapter, within the budget. Its layers have the
  keys of the base layers, rank 8 and the scaling 2 they were built with, over frozen base layers.
\<close>

theorem main_serves_reloaded_adapter:
  assumes lib: "library_behaves env T"
  shows "\<exists>layers a'. main_program env a = (Inr layers, a') \<and>
    resident_adapter_ids (session a') = [''task-a-shift1-reloaded''] \<and>
    active_adapter_id (manager (session a')) = Some ''task-a-shift1-reloaded'' \<and>
    resident_bytes (session a') = incoming (session a') layers \<and>
    0 < resident_bytes (session a') \<and>
    resident_bytes (session a') \<le> memory_budget_bytes (manager (session a')) \<and>
    memory_budget_bytes (manager (session a')) < 2 * resident_bytes (session a') \<and>
    dict_keys layers = block_keys 0 2 \<and>
    (\<forall>r \<in> set (dict_values layers). rank (live_layer a' r) = 8 \<and> scaling (live_layer a' r) = Fin 2 \<and>
       freeze_linear (base_layer (live_layer a' r)) = base_layer (live_layer a' r))"
proof -
  obtain emb blocks head bases layers a' budget where run: "main_program env a = (Inr layers, a')"
    "run_base T blocks bases" "serving budget ''task-a-shift1-reloaded'' layers (session a')"
    "adapter_over T bases layers a'"
    "(\<Sum>(n, base)\<leftarrow>bases. base_bytes base) \<le> budget" "budget < 2 * (\<Sum>(n, base)\<leftarrow>bases. base_bytes base)"
    by (rule main_run [OF lib, where a = a])
  have bytes: "incoming (session a') layers = (\<Sum>(n, base)\<leftarrow>bases. base_bytes base)"
    by (rule adapter_over_bytes [OF run(4)])
  moreover have "resident_bytes (session a') = incoming (session a') layers"
    by (rule serving_resident [OF run(3)])
  moreover have "0 < (\<Sum>(n, base)\<leftarrow>bases. base_bytes base)" using run(5,6) by linarith
  moreover have "rank (live_layer a' r) = 8 \<and> scaling (live_layer a' r) = Fin 2 \<and>
      freeze_linear (base_layer (live_layer a' r)) = base_layer (live_layer a' r)"
    if "r \<in> set (dict_values layers)" for r
    using adapter_over_layer(3) [OF run(4) that] by (auto simp: run_layer_def)
  moreover have "dict_keys layers = block_keys 0 2"
    using adapter_over_keys [OF run(4)] run(2) by (simp add: run_base_def)
  ultimately show ?thesis
    using run(1,3,5,6)
    by (intro exI [of _ layers] exI [of _ a'])
      (simp add: serving_def bare_manager_def resident_adapter_ids_def dict_keys_def)
qed

definition blank_layer :: "(scripted_reader, shape_tensor) plugin_layer" where
  "blank_layer =
     (let p = new_parameter (1, 1) example_dtype (example_dtype, [1, 1], 0)
      in \<lparr>base_layer = \<lparr>weight = p, bias = None\<rparr>, rank = 1, matrix_A = p, matrix_B = p, scaling = Fin 1,
          routing_gate_enabled = True, gate_handles = []\<rparr>)"

definition blank_program :: "(shape_tensor, unit, shape_tensor example_files) program" where
  "blank_program = \<lparr>session = session (shape_app (\<lambda>_. blank_layer)), hook_ids = 0, device_state = \<lparr>script = [], script_idx = 0\<rparr>,
     optimizer = (), generator = 0, next_ref = 0, disk = Map.empty\<rparr>"

theorem main_serves_reloaded_adapter_witness:
  "\<exists>layers a'. main_program example_env blank_program = (Inr layers, a') \<and>
     active_adapter_id (manager (session a')) = Some ''task-a-shift1-reloaded'' \<and>
     dict_keys layers = block_keys 0 2"
  using main_serves_reloaded_adapter [OF example_library, of blank_program] by blast

text \<open>A forward pass does not see the hooks.\<close>

lemma forward_unhooked: "unhooked l = unhooked l' \<Longrightarrow> forward ops l = forward ops l'"
proof -
  have "forward ops (unhooked k) = forward ops k" for k :: "('a, 'b) plugin_layer"
    by (cases "routing_gate_enabled k") (simp_all add: forward_def fun_eq_iff Let_def)
  then show "unhooked l = unhooked l' \<Longrightarrow> forward ops l = forward ops l'" by metis
qed

lemma plugged_model_same:
  assumes frames: "\<forall>blk \<in> set blocks. block_frame T d f blk"
    and keys: "dict_keys la = block_keys 0 (length blocks)"
    and same: "\<And>n r. dict_get la n = Some r \<Longrightarrow>
       \<exists>r'. dict_get layers n = Some r' \<and> unhooked (lookup' r') = unhooked (lookup r)"
  shows "run_blocks ops bo lookup' (plug_in (plug_in (plug_in blocks la) lb) layers) x =
    run_blocks ops bo lookup (plug_in blocks la) x"
proof (rule run_blocks_same, rule plug_in_same)
  fix i name assume "i < length (plug_in (plug_in blocks la) lb)"
  then have i: "i < length blocks" by (simp add: plug_in_def)
  let ?b = "plug_names i layers adapted_sublayers (plug_in (plug_in blocks la) lb ! i)"
  have nth: "plug_in (plug_in blocks la) lb ! i =
      plug_names i lb adapted_sublayers (plug_names i la adapted_sublayers (blocks ! i))"
    "plug_in blocks la ! i = plug_names i la adapted_sublayers (blocks ! i)"
    using i by (simp_all add: plug_in_def nth_plug_blocks)
  show "apply_sublayer ops lookup' ?b name = apply_sublayer ops lookup (plug_in blocks la ! i) name"
  proof (cases "name \<in> set adapted_sublayers")
    case True
    then have "sublayer_key i name \<in> set (dict_keys la)" using i by (auto simp: keys block_keys_mem)
    then obtain r where r: "dict_get la (sublayer_key i name) = Some r" by (auto simp: dict_keys_get)
    then obtain r' where r': "dict_get layers (sublayer_key i name) = Some r'"
      "unhooked (lookup' r') = unhooked (lookup r)" using same by blast
    with True r forward_unhooked [OF r'(2)] show ?thesis
      by (simp add: apply_sublayer_def nth plug_names_get fun_eq_iff)
  next
    case False
    have "block_frame T d f (blocks ! i)" using frames i by simp
    with False have "dict_get (sublayers (blocks ! i)) name \<noteq> Some (Adapted r)" for r
      by (auto simp: block_frame_def)
    with False show ?thesis
      by (auto simp: apply_sublayer_def nth plug_names_get fun_eq_iff split: option.split submodule.split)
  qed
qed (auto simp: plug_in_def nth_plug_blocks plug_names_sizes)

text \<open>
  C4. The adapter that the program reloads is the one that the first task trained: after the second
  adapter was plugged in, trained and fine-tuned under gating, and the first one came back from its
  file as new layers, which were constructed with matrices of their own drawn from the generator,
  the model computes for every batch of tokens, and in every arithmetic, the logits that it
  computed with the first adapter right after its training, and so do the blocks for every input.
\<close>

theorem reloaded_model_is_trained_model:
  assumes lib: "library_behaves env T"
    and start: "main_setup env a = (Inr (emb, blocks, head, bases, la, lb), b)"
    and trained: "main_first_task env emb blocks head la lb b = (Inr (), c)"
    and run: "main_program env a = (Inr layers, a')"
  shows "fst (model_forward tops emb (plug_in (plug_in (plug_in blocks la) lb) layers) head tokens a') =
      fst (model_forward tops emb (plug_in blocks la) head tokens c) \<and>
    run_blocks ops bo (layer_at (session a')) (plug_in (plug_in (plug_in blocks la) lb) layers) x =
      run_blocks ops bo (layer_at (session c)) (plug_in blocks la) x"
proof -
  obtain emb2 blocks2 head2 bases2 la2 lb2 b2 c2 layers2 a2 where m:
    "main_setup env a = (Inr (emb2, blocks2, head2, bases2, la2, lb2), b2)"
    "main_first_task env emb2 blocks2 head2 la2 lb2 b2 = (Inr (), c2)"
    "main_program env a = (Inr layers2, a2)" "run_base T blocks2 bases2" "dict_keys la2 = dict_keys bases2"
    "\<forall>n r. dict_get la2 n = Some r \<longrightarrow>
       (\<exists>r'. dict_get layers2 n = Some r' \<and> unhooked (live_layer a2 r') = unhooked (live_layer c2 r))"
    by (rule main_run [OF lib, where a = a])
  have eq: "blocks2 = blocks" "bases2 = bases" "la2 = la" "lb2 = lb" "b2 = b" "emb2 = emb" "head2 = head"
    using m(1) start by simp_all
  then have "c2 = c" "layers2 = layers" "a2 = a'" using m(2,3) trained run by simp_all
  with m(4-6) eq have same: "run_blocks ops bo (layer_at (session a')) (plug_in (plug_in (plug_in blocks la) lb) layers) x =
      run_blocks ops bo (layer_at (session c)) (plug_in blocks la) x" for ops bo x
    by (intro plugged_model_same [where T = T and d = 32 and f = 64]) (simp_all add: run_base_def)
  then show ?thesis by (simp add: model_forward_def)
qed

theorem reloaded_model_is_trained_model_witness:
  "\<exists>emb blocks head bases la lb b c layers a'.
     main_setup example_env blank_program = (Inr (emb, blocks, head, bases, la, lb), b) \<and>
     main_first_task example_env emb blocks head la lb b = (Inr (), c) \<and>
     main_program example_env blank_program = (Inr layers, a') \<and>
     fst (model_forward (shape_train_ops 32) emb (plug_in (plug_in (plug_in blocks la) lb) layers) head [[3, 7, 11, 0]] a') =
       fst (model_forward (shape_train_ops 32) emb (plug_in blocks la) head [[3, 7, 11, 0]] c)"
proof -
  obtain emb blocks head bases la lb b c layers a' where m:
    "main_setup example_env blank_program = (Inr (emb, blocks, head, bases, la, lb), b)"
    "main_first_task example_env emb blocks head la lb b = (Inr (), c)"
    "main_program example_env blank_program = (Inr layers, a')"
    by (rule main_run [OF example_library, where a = blank_program])
  with reloaded_model_is_trained_model [OF example_library m] show ?thesis by blast
qed

end
