(* ===== verification/Telemetry.thy ===== *)
theory Telemetry
  imports Thermal "HOL-Library.Word"
begin

text \<open>
  The telemetry socket: the client \<^verbatim>\<open>WatchdogTelemetryReader\<close> of
  \<^verbatim>\<open>src/python/msp/thermal.py\<close> and the line that the server of
  \<^verbatim>\<open>src/daemon/telemetry_server.c\<close> sends it. Socket calls are programs over a world that may
  raise; the receive loop is a partial function, because a peer that never closes keeps it
  running. The locale \<open>byte_stream\<close> is what the loop needs of a peer to end, and a
  connection to the server interprets it. A \<open>char\<close> stands for a byte.
\<close>

section \<open>The client\<close>

record 'w socket_ops =
  so_socket :: "('w, unit) prog"
  so_connect :: "('w, unit) prog"
  so_recv :: "('w, string) prog"
  so_close :: "'w \<Rightarrow> 'w"

type_synonym telemetry = "pyfloat \<times> int \<times> bool"

partial_function (option) recv_all ::
  "'w socket_ops \<Rightarrow> string list \<Rightarrow> 'w \<Rightarrow> (string list result \<times> 'w) option" where
  "recv_all ops chunks w =
     (case so_recv ops w of
        (Inl e, w') \<Rightarrow> Some (Inl e, w')
      | (Inr chunk, w') \<Rightarrow>
          if chunk = [] then Some (Inr chunks, w') else recv_all ops (chunks @ [chunk]) w')"

declare recv_all.simps [simp del]

definition decode_ascii :: "string \<Rightarrow> string result" where
  "decode_ascii bs = (if list_all (\<lambda>c. ord_of c < 128) bs then Inr bs else Inl UnicodeDecodeError)"

definition parse_telemetry :: "string \<Rightarrow> telemetry result" where
  "parse_telemetry line =
     (case py_split line of
        [t, m, v] \<Rightarrow>
          (case rbind (float_of_str t) (\<lambda>temp. rbind (int_of_str m) (\<lambda>sram. Inr (temp, sram, v \<noteq> ''0''))) of
             Inl e \<Rightarrow> Inl (if is_value_error e then RuntimeError else e)
           | Inr r \<Rightarrow> Inr r)
      | _ \<Rightarrow> Inl RuntimeError)"

text \<open>The \<^verbatim>\<open>except OSError\<close> and \<^verbatim>\<open>finally\<close> clauses around the transfer.\<close>

definition wrap_os_error :: "'a result \<Rightarrow> 'a result" where
  "wrap_os_error r = (case r of Inl e \<Rightarrow> Inl (if is_os_error e then RuntimeError else e) | Inr a \<Rightarrow> Inr a)"

definition receive_line :: "'w socket_ops \<Rightarrow> 'w \<Rightarrow> (string result \<times> 'w) option" where
  "receive_line ops w =
     (case so_connect ops w of
        (Inl e, w1) \<Rightarrow> Some (wrap_os_error (Inl e), so_close ops w1)
      | (Inr _, w1) \<Rightarrow>
          map_option (\<lambda>(r, w2). (wrap_os_error (rbind r (\<lambda>chunks. Inr (concat chunks))), so_close ops w2))
            (recv_all ops [] w1))"

definition read_full :: "'w socket_ops \<Rightarrow> 'w \<Rightarrow> (telemetry result \<times> 'w) option" where
  "read_full ops w =
     (case so_socket ops w of
        (Inl e, w1) \<Rightarrow> Some (Inl e, w1)
      | (Inr _, w1) \<Rightarrow>
          map_option (\<lambda>(r, w2).
              (rbind r (\<lambda>bs. rbind (decode_ascii bs) (\<lambda>text. parse_telemetry (py_strip text))), w2))
            (receive_line ops w1))"

definition telemetry_reader_call :: "'w socket_ops \<Rightarrow> 'w \<Rightarrow> (pyfloat result \<times> 'w) option" where
  "telemetry_reader_call ops w =
     map_option (\<lambda>(r, w'). (rbind r (\<lambda>(temp, _, _). Inr temp), w')) (read_full ops w)"

section \<open>The server's line\<close>

text \<open>\<^verbatim>\<open>"%.3f %zu %d\n"\<close> into a buffer of 128 bytes, the last of which is the terminating zero.\<close>

definition pad3 :: "nat \<Rightarrow> string" where
  "pad3 n = map digit_char [n div 100, n div 10 mod 10, n mod 10]"

definition thousandths :: "rat \<Rightarrow> nat" where
  "thousandths x = nat (round_half_even (1000 * \<bar>x\<bar>))"

fun show_fixed3 :: "pyfloat \<Rightarrow> string" where
  "show_fixed3 (Fin x) =
     (if x < 0 then ''-'' else []) @ show_nat (thousandths x div 1000) @ ''.'' @ pad3 (thousandths x mod 1000)"
| "show_fixed3 PInf = ''inf''"
| "show_fixed3 NInf = ''-inf''"
| "show_fixed3 NaN = ''nan''"

definition telemetry_text :: "pyfloat \<Rightarrow> 64 word \<Rightarrow> bool \<Rightarrow> string" where
  "telemetry_text temp sram violation =
     show_fixed3 temp @ '' '' @ show_nat (unat sram) @ '' '' @ (if violation then ''1'' else ''0'') @ [CHR 0x0A]"

definition telemetry_line :: "pyfloat \<Rightarrow> 64 word \<Rightarrow> bool \<Rightarrow> string" where
  "telemetry_line temp sram violation = take 127 (telemetry_text temp sram violation)"

text \<open>The temperature that the line denotes: the server's, rounded to three decimals.\<close>

fun wire_temperature :: "pyfloat \<Rightarrow> pyfloat" where
  "wire_temperature (Fin x) = to_float (of_int (round_half_even (1000 * x)) / 1000)"
| "wire_temperature t = t"

section \<open>Printing and parsing temperatures\<close>

lemma pad3_digit_bounds:
  assumes "n < (1000::nat)"
  shows "n div 100 < 10" "n div 10 mod 10 < 10" "n mod 10 < 10"
  using assms by auto

lemma pad3_digits: "n < 1000 \<Longrightarrow> c \<in> set (pad3 n) \<Longrightarrow> \<exists>d < 10. c = digit_char d"
  using pad3_digit_bounds [of n]
  by (auto simp: pad3_def simp del: div_less_dividend
      intro: exI [of _ "n div 100"] exI [of _ "n div 10 mod 10"] exI [of _ "n mod 10"])

lemma digits_value_pad3:
  assumes "n < 1000" shows "digits_value a (pad3 n) = 1000 * a + n"
proof -
  have "n div 10 div 10 = n div 100" by (simp add: div_mult2_eq [symmetric])
  then have "n div 10 = 10 * (n div 100) + n div 10 mod 10"
    using div_mult_mod_eq [of "n div 10" 10] by simp
  then have "n = 100 * (n div 100) + 10 * (n div 10 mod 10) + n mod 10"
    using div_mult_mod_eq [of n 10] by linarith
  then show ?thesis using pad3_digit_bounds [OF assms] by (simp add: pad3_def digit_char_facts)
qed

text \<open>Characters of a printed number: no space, no underscore.\<close>

definition plain :: "char \<Rightarrow> bool" where
  "plain c \<longleftrightarrow> \<not> is_space c \<and> c \<noteq> CHR ''_'' \<and> ord_of c < 128"

lemma plain_digit: "d < 10 \<Longrightarrow> plain (digit_char d)"
  by (auto simp: plain_def digit_char_facts ord_digit_char)

lemma plain_show_nat: "c \<in> set (show_nat n) \<Longrightarrow> plain c"
  using show_nat_digits plain_digit by metis

lemma plain_pad3: "n < 1000 \<Longrightarrow> c \<in> set (pad3 n) \<Longrightarrow> plain c"
  using pad3_digits plain_digit by metis

lemma plain_show_fixed3: "c \<in> set (show_fixed3 t) \<Longrightarrow> plain c"
proof (cases t)
  case (Fin x)
  have "thousandths x mod 1000 < 1000" by simp
  moreover have "plain (CHR ''-'')" "plain (CHR ''.'')" by (simp_all add: plain_def is_space_def ord_of_def)
  moreover assume "c \<in> set (show_fixed3 t)"
  ultimately show ?thesis using plain_show_nat [of c] plain_pad3 [of "thousandths x mod 1000" c]
    by (auto simp: Fin split: if_splits)
qed (auto simp: plain_def is_space_def ord_of_def)

lemma takeWhile_digits:
  assumes "\<forall>c \<in> set s. is_digit c" and "\<not> is_digit d"
  shows "takeWhile is_digit (s @ d # t) = s" "dropWhile is_digit (s @ d # t) = d # t"
  using assms by (simp_all add: takeWhile_tail dropWhile_append3 takeWhile_append2 dropWhile_append2)

lemma parse_decimal_fixed:
  assumes "ip \<noteq> []" and "\<forall>c \<in> set ip. is_digit c" and "\<forall>c \<in> set fp. is_digit c"
  shows "parse_decimal (ip @ ''.'' @ fp) = Some (of_nat (digits_value 0 (ip @ fp)) * pow10 (- int (length fp)))"
proof -
  have nd: "\<not> is_digit (CHR ''.'')" by (simp add: is_digit_def ord_of_def)
  have "takeWhile is_digit fp = fp" "dropWhile is_digit fp = []"
    using assms(3) takeWhile_eq_all_conv [of is_digit fp] dropWhile_eq_Nil_conv [of is_digit fp] by auto
  then show ?thesis
    using takeWhile_digits [OF assms(2) nd, of fp] assms(1)
    by (simp add: parse_decimal_def Let_def parse_exponent_def
        del: takeWhile_eq_all_conv dropWhile_eq_Nil_conv)
qed

lemma float_of_str_decimal:
  assumes "py_strip s = s" and "split_sign s = (neg, body)" and "CHR ''_'' \<notin> set body"
    and "py_lower body \<notin> {''inf'', ''infinity'', ''nan''}" and "parse_decimal body = Some v"
  shows "float_of_str s = Inr (to_float (if neg then - v else v))"
  using assms by (simp add: float_of_str_def underscores_ok_none drop_underscores_none)

lemma float_of_fixed3:
  "float_of_str (show_fixed3 t) = Inr (wire_temperature t)"
proof (cases t)
  case (Fin x)
  let ?n = "thousandths x" and ?body = "show_nat (thousandths x div 1000) @ ''.'' @ pad3 (thousandths x mod 1000)"
  have d3: "\<forall>c \<in> set (pad3 (?n mod 1000)). is_digit c"
    using pad3_digits [of "?n mod 1000"] digit_char_facts(1) by fastforce
  have dn: "\<forall>c \<in> set (show_nat (?n div 1000)). is_digit c" by (auto dest: show_nat_all)
  have strip: "py_strip (show_fixed3 t) = show_fixed3 t"
    using plain_show_fixed3 by (intro py_strip_nospace) (auto simp: plain_def)
  obtain c cs where c: "show_nat (?n div 1000) = c # cs" "is_digit c"
    by (metis dn list.exhaust list.set_intros(1) show_nat_nonempty)
  have cs: "c \<noteq> CHR ''-''" "c \<noteq> CHR ''+''" "lower_char c = c" "c \<noteq> CHR ''i''" "c \<noteq> CHR ''n''"
    using c(2) by (auto simp: is_digit_def ord_of_def lower_char_def)
  have sign: "split_sign (show_fixed3 t) = (x < 0, ?body)"
    using c cs by (simp add: Fin)
  have us: "CHR ''_'' \<notin> set ?body"
    using plain_show_fixed3 [of "CHR ''_''" t] by (auto simp: Fin plain_def split: if_splits)
  have low: "hd (py_lower ?body) = c" using c cs by (simp add: py_lower_def)
  have names: "py_lower ?body \<noteq> ''inf''" "py_lower ?body \<noteq> ''infinity''" "py_lower ?body \<noteq> ''nan''"
    using low cs by auto
  have vd: "parse_decimal ?body = Some (of_nat ?n / 1000)"
  proof -
    have "digits_value 0 (show_nat (?n div 1000) @ pad3 (?n mod 1000)) = ?n"
      by (simp add: digits_value_append digits_value_show_nat digits_value_pad3)
    moreover have "length (pad3 (?n mod 1000)) = 3" by (simp add: pad3_def)
    ultimately show ?thesis
      using parse_decimal_fixed [OF show_nat_nonempty dn d3] by (simp only:) (simp add: pow10_def)
  qed
  have rn: "of_nat ?n = \<bar>of_int (round_half_even (1000 * x)) :: rat\<bar> \<and> (x < 0 \<longrightarrow> round_half_even (1000 * x) \<le> 0) \<and>
      (\<not> x < 0 \<longrightarrow> 0 \<le> round_half_even (1000 * x))"
  proof -
    have 0: "round_half_even 0 = 0" using round_half_even_of_int [of 0] by simp
    show ?thesis
    proof (cases "x < 0")
      case True
      have "round_half_even 0 \<le> round_half_even (- (1000 * x))" using True by (intro round_half_even_mono) simp
      then have "round_half_even (1000 * x) \<le> 0" using 0 round_half_even_minus [of "1000 * x"] by simp
      moreover have "1000 * \<bar>x\<bar> = - (1000 * x)" using True by simp
      ultimately show ?thesis using True by (simp add: thousandths_def)
    next
      case False
      have "round_half_even 0 \<le> round_half_even (1000 * x)" using False by (intro round_half_even_mono) simp
      with 0 False show ?thesis by (simp add: thousandths_def)
    qed
  qed
  have eq: "(if x < 0 then - (of_nat ?n / 1000) else of_nat ?n / 1000) = (of_int (round_half_even (1000 * x)) / 1000 :: rat)"
    using rn by (auto simp: abs_if split: if_splits)
  have "float_of_str (show_fixed3 t) = Inr (to_float (if x < 0 then - (of_nat ?n / 1000) else of_nat ?n / 1000))"
    by (rule float_of_str_decimal [OF strip sign us _ vd]) (use names in simp)
  then show ?thesis unfolding eq by (simp add: Fin)
qed (simp_all add: text_eval)

section \<open>The line\<close>

lemma parse_telemetry_fields:
  assumes "\<forall>c \<in> set a. plain c" "\<forall>c \<in> set b. plain c" "\<forall>c \<in> set v. plain c"
    and "a \<noteq> []" "b \<noteq> []" "v \<noteq> []"
  shows "py_split (py_strip (a @ '' '' @ b @ '' '' @ v @ [CHR 0x0A])) = [a, b, v]"
proof -
  let ?s = "a @ '' '' @ b @ '' '' @ v"
  have sp: "is_space (CHR '' '')" "is_space (CHR 0x0A)" by (simp_all add: is_space_def ord_of_def)
  have ns: "\<forall>c \<in> set a. \<not> is_space c" "\<forall>c \<in> set b. \<not> is_space c" "\<forall>c \<in> set v. \<not> is_space c"
    using assms(1-3) by (auto simp: plain_def)
  have "py_strip (?s @ [CHR 0x0A]) = ?s"
    by (rule py_strip_append_space) (use assms(4-6) ns sp in \<open>auto simp: hd_append last_append\<close>)
  moreover have "py_split ?s = [a, b, v]"
    using py_split_Cons [OF assms(4) ns(1) sp(1), of "b @ '' '' @ v"]
      py_split_Cons [OF assms(5) ns(2) sp(1), of v] py_split_single [OF assms(6) ns(3)] by simp
  ultimately show ?thesis by simp
qed

lemma show_fixed3_nonempty [simp]: "show_fixed3 t \<noteq> []"
  by (cases t) simp_all

lemma parse_telemetry_text:
  "parse_telemetry (py_strip (telemetry_text temp sram violation)) =
     Inr (wire_temperature temp, int (unat sram), violation)"
proof -
  let ?v = "if violation then ''1'' else ''0''"
  have v: "\<forall>c \<in> set ?v. plain c" by (simp add: plain_def is_space_def ord_of_def)
  have split: "py_split (py_strip (telemetry_text temp sram violation)) = [show_fixed3 temp, show_nat (unat sram), ?v]"
    unfolding telemetry_text_def
    by (rule parse_telemetry_fields) (use v plain_show_fixed3 plain_show_nat in auto)
  have "unat sram < 10 ^ 20" using unsigned_less [of sram, where 'a = nat] by simp
  also have "(10::nat) ^ 20 \<le> 10 ^ 4300" by (rule power_increasing) simp_all
  finally have "int_of_str (show_nat (unat sram)) = Inr (int (unat sram))" by (rule int_of_str_show_nat)
  then show ?thesis by (simp add: parse_telemetry_def split float_of_fixed3)
qed

lemma telemetry_text_ascii: "list_all (\<lambda>c. ord_of c < 128) (telemetry_text temp sram violation)"
proof -
  have "plain c \<Longrightarrow> ord_of c < 128" for c by (simp add: plain_def)
  then show ?thesis
    by (auto simp: telemetry_text_def list_all_iff dest!: plain_show_fixed3 plain_show_nat)
      (auto simp: ord_of_def)
qed

text \<open>A single-precision temperature is below 2^128 in absolute value.\<close>

definition float32_range :: "pyfloat \<Rightarrow> bool" where
  "float32_range t = (case t of Fin x \<Rightarrow> \<bar>x\<bar> < 2 ^ 128 | _ \<Rightarrow> True)"

lemma show_fixed3_length:
  assumes "float32_range t"
  shows "length (show_fixed3 t) \<le> 44"
proof (cases t)
  case (Fin x)
  have "1000 * \<bar>x\<bar> \<le> of_int (1000 * 2 ^ 128)" using assms by (simp add: float32_range_def Fin)
  from round_half_even_mono [OF this] have "round_half_even (1000 * \<bar>x\<bar>) \<le> 1000 * 2 ^ 128"
    unfolding round_half_even_of_int .
  then have "thousandths x \<le> 1000 * 2 ^ 128" by (simp add: thousandths_def)
  then have "thousandths x div 1000 \<le> 1000 * 2 ^ 128 div 1000" by (rule div_le_mono)
  then have "thousandths x div 1000 < 10 ^ 39" by simp
  from show_nat_length [OF this] have "length (show_nat (thousandths x div 1000)) \<le> 39" by simp
  then show ?thesis by (simp add: Fin pad3_def)
qed simp_all

lemma telemetry_text_length:
  assumes "float32_range temp"
  shows "length (telemetry_text temp sram violation) \<le> 68"
proof -
  have "unat sram < 10 ^ 20" using unsigned_less [of sram, where 'a = nat] by simp
  from show_nat_length [OF this] have "length (show_nat (unat sram)) \<le> 20" by simp
  with show_fixed3_length [OF assms] show ?thesis by (simp add: telemetry_text_def)
qed

lemma telemetry_line_eq: "float32_range temp \<Longrightarrow> telemetry_line temp sram violation = telemetry_text temp sram violation"
  using telemetry_text_length [of temp sram violation] by (simp add: telemetry_line_def)

section \<open>Peers that end\<close>

text \<open>
  A stream peer: while its invariant holds a receive yields a prefix of the bytes it still has
  to deliver, empty exactly when there are none.
\<close>

locale byte_stream =
  fixes recv :: "('w, string) prog"
    and pending :: "'w \<Rightarrow> string"
    and inv :: "'w \<Rightarrow> bool"
  assumes recv_run: "inv w \<Longrightarrow> \<exists>c w'. recv w = (Inr c, w') \<and> inv w' \<and> pending w = c @ pending w' \<and>
      (c = [] \<longleftrightarrow> pending w = [])"
begin

lemma recv_all_ends:
  assumes "inv w" and "so_recv ops = recv"
  shows "\<exists>chunks' w'. recv_all ops chunks w = Some (Inr (chunks @ chunks'), w') \<and>
    concat chunks' = pending w \<and> inv w' \<and> pending w' = []"
  using assms(1)
proof (induction "length (pending w)" arbitrary: w chunks rule: less_induct)
  case less
  obtain c w1 where c: "recv w = (Inr c, w1)" "inv w1" "pending w = c @ pending w1"
    "c = [] \<longleftrightarrow> pending w = []"
    using recv_run [OF less.prems] by blast
  show ?case
  proof (cases "c = []")
    case True
    then have run: "recv_all ops chunks w = Some (Inr chunks, w1)"
      using c(1) assms(2) by (subst recv_all.simps) simp
    have p: "pending w = []" using c(4) True by blast
    then have "pending w1 = []" using c(3) by simp
    with run p c(2) show ?thesis by (intro exI [of _ "[]"] exI [of _ w1]) simp
  next
    case False
    then have "length (pending w1) < length (pending w)" using c(3) by simp
    from less.hyps [OF this c(2), of "chunks @ [c]"] obtain cs w2 where
      IH: "recv_all ops (chunks @ [c]) w1 = Some (Inr ((chunks @ [c]) @ cs), w2)" "concat cs = pending w1"
        "inv w2" "pending w2 = []" by blast
    have "recv_all ops chunks w = recv_all ops (chunks @ [c]) w1"
      using c False assms(2) by (subst recv_all.simps) simp
    with IH c(3) show ?thesis by (intro exI [of _ "c # cs"] exI [of _ w2]) simp
  qed
qed

end

text \<open>A connection to the server: the chunks in which its line arrives.\<close>

record daemon_conn =
  reply :: "string list"
  closed :: bool

definition daemon_recv :: "(daemon_conn, string) prog" where
  "daemon_recv w = (case reply w of [] \<Rightarrow> (Inr [], w) | c # cs \<Rightarrow> (Inr c, w\<lparr>reply := cs\<rparr>))"

definition daemon_ops :: "daemon_conn socket_ops" where
  "daemon_ops =
     \<lparr>so_socket = sret (), so_connect = sret (), so_recv = daemon_recv,
      so_close = (\<lambda>w. w\<lparr>closed := True\<rparr>)\<rparr>"

interpretation daemon: byte_stream daemon_recv "\<lambda>w. concat (reply w)"
  "\<lambda>w. [] \<notin> set (reply w) \<and> \<not> closed w"
  by unfold_locales (auto simp: daemon_recv_def split: list.splits)

lemma receive_line_daemon:
  assumes "[] \<notin> set chunks"
  shows "receive_line daemon_ops \<lparr>reply = chunks, closed = False\<rparr> =
    Some (Inr (concat chunks), \<lparr>reply = [], closed = True\<rparr>)"
proof -
  obtain cs w' where w': "recv_all daemon_ops [] \<lparr>reply = chunks, closed = False\<rparr> = Some (Inr cs, w')"
    "concat cs = concat chunks" "[] \<notin> set (reply w')" "\<not> closed w'" "concat (reply w') = []"
    using daemon.recv_all_ends [of "\<lparr>reply = chunks, closed = False\<rparr>" daemon_ops "[]"] assms
    by (auto simp: daemon_ops_def)
  then have "reply w' = []" by (cases "reply w'") auto
  with w' show ?thesis
    by (simp add: receive_line_def) (simp add: wrap_os_error_def daemon_ops_def sret_def)
qed

lemma read_full_daemon:
  assumes "float32_range temp" and "[] \<notin> set chunks"
    and "concat chunks = telemetry_line temp sram violation"
  shows "read_full daemon_ops \<lparr>reply = chunks, closed = False\<rparr> =
    Some (Inr (wire_temperature temp, int (unat sram), violation), \<lparr>reply = [], closed = True\<rparr>)"
proof -
  have "so_socket daemon_ops w = (Inr (), w)" for w by (simp add: daemon_ops_def sret_def)
  then show ?thesis
    using receive_line_daemon [OF assms(2)] telemetry_line_eq [OF assms(1)] assms(3)
    by (simp add: read_full_def decode_ascii_def telemetry_text_ascii parse_telemetry_text)
qed

section \<open>Properties\<close>

text \<open>
  C21. Whatever the server's line and whatever chunks it arrives in, a read of the telemetry ends,
  closes the socket and returns the server's memory use and security flag exactly and its
  temperature rounded to three decimals; infinities, which the daemon reports for a broken
  sensor, and NaN arrive as such.
\<close>

theorem telemetry_round_trip:
  assumes "float32_range temp" and "[] \<notin> set chunks"
    and "concat chunks = telemetry_line temp sram violation"
  shows "read_full daemon_ops \<lparr>reply = chunks, closed = False\<rparr> =
    Some (Inr (wire_temperature temp, int (unat sram), violation), \<lparr>reply = [], closed = True\<rparr>)"
  using read_full_daemon [OF assms] .

theorem telemetry_round_trip_witness:
  "read_full daemon_ops \<lparr>reply = [take 5 (telemetry_line PInf 7 True), drop 5 (telemetry_line PInf 7 True)],
     closed = False\<rparr> = Some (Inr (PInf, 7, True), \<lparr>reply = [], closed = True\<rparr>)"
proof -
  have len: "5 < length (telemetry_line PInf 7 True)"
    using telemetry_line_eq [of PInf 7 True] show_nat_nonempty [of "unat (7 :: 64 word)"]
    by (cases "show_nat 7") (simp_all add: float32_range_def telemetry_text_def)
  then have "[] \<notin> set [take 5 (telemetry_line PInf 7 True), drop 5 (telemetry_line PInf 7 True)]"
    by auto
  moreover have "float32_range PInf" by (simp add: float32_range_def)
  ultimately show ?thesis using telemetry_round_trip [of PInf _ 7 True] by simp
qed

text \<open>
  The line of a single-precision temperature takes at most 68 characters, so the server's
  buffer of 128 bytes never truncates it.
\<close>

lemma telemetry_line_fits:
  assumes "float32_range temp"
  shows "telemetry_line temp sram violation = telemetry_text temp sram violation \<and>
    length (telemetry_line temp sram violation) \<le> 68"
  using telemetry_line_eq [OF assms] telemetry_text_length [OF assms] by simp

lemma telemetry_line_fits_example:
  "length (telemetry_line (Fin (- 5 / 4)) (- 1) True) \<le> 68"
proof -
  have "float32_range (Fin (- 5 / 4))" by (simp add: float32_range_def)
  from telemetry_line_fits [OF this] show ?thesis by blast
qed

text \<open>
  When connecting or receiving fails with an OSError, the read raises RuntimeError and the
  socket is closed.
\<close>

lemma transfer_failure_is_runtime_error:
  assumes "so_socket ops w = (Inr (), w0)" and "is_os_error e"
    and "(case so_connect ops w0 of
        (Inl e', w1) \<Rightarrow> Some (Inl e', w1) | (Inr _, w1) \<Rightarrow> recv_all ops [] w1) = Some (Inl e, w2)"
  shows "read_full ops w = Some (Inl RuntimeError, so_close ops w2)"
proof (cases "so_connect ops w0")
  case (Pair r w1)
  with assms show ?thesis
    by (cases r) (auto simp: read_full_def receive_line_def wrap_os_error_def)
qed

lemma transfer_failure_is_runtime_error_example:
  "read_full (daemon_ops\<lparr>so_connect := sraise FileNotFoundError\<rparr>) \<lparr>reply = [], closed = False\<rparr> =
     Some (Inl RuntimeError, \<lparr>reply = [], closed = True\<rparr>)"
proof -
  let ?ops = "daemon_ops\<lparr>so_connect := sraise FileNotFoundError\<rparr>" and ?w = "\<lparr>reply = [], closed = False\<rparr>"
  have "so_socket ?ops ?w = (Inr (), ?w)" by (simp add: daemon_ops_def sret_def)
  from transfer_failure_is_runtime_error [OF this, of FileNotFoundError ?w] show ?thesis
    by (simp add: sraise_def) (simp add: daemon_ops_def)
qed

text \<open>
  What a complete transfer is turned into: bytes outside ASCII escape as UnicodeDecodeError;
  anything but three fields of which the first is a float literal and the second an int literal
  is a RuntimeError; the security flag is every third field other than 0.
\<close>

lemma transfer_result:
  assumes "so_socket ops w = (Inr (), w0)" and "receive_line ops w0 = Some (Inr bs, w1)"
  shows "read_full ops w = Some
    (if \<exists>c \<in> set bs. 128 \<le> ord_of c then Inl UnicodeDecodeError
     else (case py_split (py_strip bs) of
        [t, m, v] \<Rightarrow>
          (case (float_of_str t, int_of_str m) of
             (Inr temp, Inr sram) \<Rightarrow> Inr (temp, sram, v \<noteq> ''0'')
           | _ \<Rightarrow> Inl RuntimeError)
      | _ \<Rightarrow> Inl RuntimeError), w1)"
proof -
  have parse: "parse_telemetry line = (case py_split line of
        [t, m, v] \<Rightarrow>
          (case (float_of_str t, int_of_str m) of
             (Inr temp, Inr sram) \<Rightarrow> Inr (temp, sram, v \<noteq> ''0'')
           | _ \<Rightarrow> Inl RuntimeError)
      | _ \<Rightarrow> Inl RuntimeError)" for line
    unfolding parse_telemetry_def
    by (auto simp: rbind_def split: list.split sum.split dest: float_of_str_error int_of_str_error)
  have "list_all (\<lambda>c. ord_of c < 128) bs \<longleftrightarrow> \<not> (\<exists>c \<in> set bs. 128 \<le> ord_of c)"
    by (auto simp: list_all_iff)
  then show ?thesis using assms
    by (simp add: read_full_def decode_ascii_def parse)
qed

lemma transfer_result_example:
  "read_full daemon_ops \<lparr>reply = [''42.5'', '' 7''], closed = False\<rparr> =
     Some (Inl RuntimeError, \<lparr>reply = [], closed = True\<rparr>)"
proof -
  let ?w = "\<lparr>reply = [''42.5'', '' 7''], closed = False\<rparr>"
  have "so_socket daemon_ops ?w = (Inr (), ?w)" by (simp add: daemon_ops_def sret_def)
  from transfer_result [OF this receive_line_daemon] show ?thesis by (simp add: text_eval)
qed

end
