(* ===== verification/Single.thy ===== *)
theory Single
  imports Telemetry
begin

text \<open>
  The type \<^verbatim>\<open>float\<close> of the C daemon: binary32 as the numbers with a 24-bit significand, the
  conversion \<^verbatim>\<open>(float)x\<close> of a double, and how much of a temperature it keeps. The main
  result is that a temperature of whole millidegrees survives the conversion to single precision
  followed by printing with three decimals, the way of \<^verbatim>\<open>src/daemon/telemetry_server.c\<close>.
\<close>

section \<open>Rounding to single precision\<close>

definition ulp_exp24 :: "rat \<Rightarrow> int" where
  "ulp_exp24 x = max (-149) (log2_floor \<bar>x\<bar> - 23)"

definition round24 :: "rat \<Rightarrow> rat" where
  "round24 x =
     (if x = 0 then 0
      else let u = 2 powi ulp_exp24 x in of_int (round_half_even (x / u)) * u)"

fun to_single :: "pyfloat \<Rightarrow> pyfloat" where
  "to_single (Fin x) =
     (let y = round24 x in if \<bar>y\<bar> < 2 ^ 128 then Fin y else if 0 < y then PInf else NInf)"
| "to_single t = t"

lemma float32_to_single [simp]: "float32_range (to_single t)"
  by (cases t) (simp_all add: float32_range_def Let_def)

text \<open>Rounding errs by half a unit in the last place, whatever the precision.\<close>

lemma round_grid_error:
  assumes "(0::rat) < u" shows "\<bar>of_int (round_half_even (x / u)) * u - x\<bar> \<le> u / 2"
proof -
  have "\<bar>of_int (round_half_even (x / u)) * u - x\<bar> = u * \<bar>x / u - of_int (round_half_even (x / u))\<bar>"
    using assms by (simp add: abs_if field_simps)
  also have "\<dots> \<le> u * (1 / 2)"
    using round_half_even_near [of "x / u"] assms by (intro mult_left_mono) auto
  finally show ?thesis by simp
qed

lemma log2_floor_below:
  assumes "x \<noteq> 0" and "\<bar>x\<bar> < 2 powi n" shows "log2_floor \<bar>x\<bar> < n"
proof -
  have "2 powi log2_floor \<bar>x\<bar> \<le> \<bar>x\<bar>" using log2_floor_bounds [of "\<bar>x\<bar>"] assms(1) by simp
  with assms(2) have "(2::rat) powi log2_floor \<bar>x\<bar> < 2 powi n" by linarith
  then show ?thesis by (rule powi_less_2D)
qed

lemma round24_error:
  assumes "\<bar>x\<bar> < 2 powi n" and "-126 < n"
  shows "\<bar>round24 x - x\<bar> \<le> 2 powi (n - 25)"
proof (cases "x = 0")
  case False
  define u :: rat where "u = 2 powi ulp_exp24 x"
  have "ulp_exp24 x \<le> n - 24"
    using log2_floor_below [OF False assms(1)] assms(2) by (simp add: ulp_exp24_def)
  then have "u \<le> 2 powi (n - 24)" unfolding u_def by (rule powi_mono_2)
  moreover have "(2::rat) powi (n - 24) = 2 * 2 powi (n - 25)"
    using powi2_split [of 1 "n - 25"] by simp
  moreover have "\<bar>round24 x - x\<bar> \<le> u / 2"
    using round_grid_error [of u x] False by (simp add: round24_def Let_def u_def)
  ultimately show ?thesis by linarith
qed (simp add: round24_def)

lemma round53_error:
  assumes "\<bar>x\<bar> < 2 powi n" and "-1021 < n"
  shows "\<bar>round53 x - x\<bar> \<le> 2 powi (n - 54)"
proof (cases "x = 0")
  case False
  define u :: rat where "u = 2 powi ulp_exp x"
  have "ulp_exp x \<le> n - 53"
    using log2_floor_below [OF False assms(1)] assms(2) by (simp add: ulp_exp_def)
  then have "u \<le> 2 powi (n - 53)" unfolding u_def by (rule powi_mono_2)
  moreover have "(2::rat) powi (n - 53) = 2 * 2 powi (n - 54)"
    using powi2_split [of 1 "n - 54"] by simp
  moreover have "\<bar>round53 x - x\<bar> \<le> u / 2"
    using round_grid_error [of u x] False by (simp add: round53_def Let_def u_def)
  ultimately show ?thesis by linarith
qed simp

section \<open>Temperatures of whole millidegrees\<close>

text \<open>Below 16384 degrees single precision resolves better than half a millidegree.\<close>

definition millis_range :: "int \<Rightarrow> bool" where
  "millis_range m \<longleftrightarrow> \<bar>m\<bar> < 16384000"

lemma millis_double:
  assumes "millis_range m"
  shows "\<bar>round53 (of_int m / 1000) - of_int m / 1000\<bar> \<le> 1 / 1099511627776"
    and "\<bar>round53 (of_int m / 1000)\<bar> < 16384"
proof -
  let ?q = "of_int m / 1000 :: rat"
  have "(of_int \<bar>m\<bar> :: rat) \<le> of_int 16383999"
    using assms unfolding millis_range_def of_int_le_iff by linarith
  then have q: "\<bar>?q\<bar> \<le> 16383999 / 1000" by simp
  have p: "(2::rat) powi 14 = 16384" "(2::rat) powi (14 - 54) = 1 / 1099511627776"
    by (simp_all add: power_int_def power_one_over inverse_eq_divide)
  show near: "\<bar>round53 ?q - ?q\<bar> \<le> 1 / 1099511627776" using round53_error [of ?q 14] q p by simp
  have "\<bar>round53 ?q\<bar> \<le> \<bar>?q\<bar> + \<bar>round53 ?q - ?q\<bar>" by linarith
  with q near show "\<bar>round53 ?q\<bar> < 16384" by simp
qed

lemma millis_single:
  assumes "millis_range m"
  shows "to_single (Fin (round53 (of_int m / 1000))) = Fin (round24 (round53 (of_int m / 1000)))"
    and "\<bar>round24 (round53 (of_int m / 1000)) - of_int m / 1000\<bar> < 1 / 2000"
proof -
  let ?d = "round53 (of_int m / 1000) :: rat"
  have p: "(2::rat) powi 14 = 16384" "(2::rat) powi (14 - 25) = 1 / 2048"
    by (simp_all add: power_int_def power_one_over inverse_eq_divide)
  note d = millis_double [OF assms]
  have e: "\<bar>round24 ?d - ?d\<bar> \<le> 1 / 2048" using round24_error [of ?d 14] d(2) p by simp
  with d(1) show "\<bar>round24 ?d - of_int m / 1000\<bar> < 1 / 2000" by linarith
  have "(16385::rat) < 2 ^ 128" by simp
  with e d(2) have "\<bar>round24 ?d\<bar> < 2 ^ 128" by linarith
  then show "to_single (Fin ?d) = Fin (round24 ?d)" by simp
qed

text \<open>What arrives on the other side of the socket is the double that the reader divided.\<close>

lemma wire_of_millis:
  assumes "millis_range m" and "to_float (of_int m / 1000) = Fin d"
  shows "wire_temperature (to_single (Fin d)) = Fin d"
proof -
  have d: "d = round53 (of_int m / 1000)" using to_float_FinD [OF assms(2)] by simp
  have "1000 * round24 d - of_int m = 1000 * (round24 d - of_int m / 1000)" by simp
  then have "\<bar>1000 * round24 d - of_int m\<bar> = 1000 * \<bar>round24 d - of_int m / 1000\<bar>"
    by (simp only: abs_mult abs_numeral)
  with millis_single(2) [OF assms(1)] have "\<bar>1000 * round24 d - of_int m\<bar> < 1 / 2" by (simp add: d)
  then have "round_half_even (1000 * round24 d) = m"
    by (intro round_half_even_unique) auto
  then show ?thesis
    using millis_single(1) [OF assms(1)] by (simp only: d [symmetric] wire_temperature.simps assms(2))
qed

section \<open>Comparing with a whole number of degrees\<close>

lemma round24_small_int:
  assumes "\<bar>n\<bar> \<le> 2 ^ 24" shows "round24 (of_int n) = of_int n"
proof (cases "n = 0")
  case False
  define e where "e = ulp_exp24 (of_int n)"
  have "(of_int \<bar>n\<bar> :: rat) \<le> of_int (2 ^ 24)" using assms by (simp only: of_int_le_iff)
  also have "(of_int (2 ^ 24) :: rat) < 2 powi 25" by (simp add: power_int_def)
  finally have "log2_floor \<bar>of_int n\<bar> < 25" using log2_floor_below [of "of_int n" 25] False by simp
  show ?thesis
  proof (cases "e \<le> 0")
    case True
    have "of_int n / 2 powi e = (of_int (n * 2 ^ nat (- e)) :: rat)"
      using True by (simp add: power_int_def power_one_over divide_simps)
    then have "round_half_even (of_int n / 2 powi e) = n * 2 ^ nat (- e)"
      by (simp only: round_half_even_of_int)
    moreover have "of_int (n * 2 ^ nat (- e)) * 2 powi e = (of_int n :: rat)"
      using True by (simp add: power_int_def power_one_over divide_simps)
    ultimately show ?thesis using False by (simp add: round24_def Let_def e_def)
  next
    case pos: False
    with \<open>log2_floor \<bar>of_int n\<bar> < 25\<close> have l: "log2_floor \<bar>of_int n\<bar> = 24" "e = 1"
      by (auto simp: e_def ulp_exp24_def)
    have "2 powi log2_floor \<bar>of_int n\<bar> \<le> (\<bar>of_int n\<bar> :: rat)"
      using log2_floor_bounds [of "\<bar>of_int n\<bar>"] False by simp
    then have "(of_int (2 ^ 24) :: rat) \<le> of_int \<bar>n\<bar>" by (simp add: l power_int_def)
    then have "\<bar>n\<bar> = 2 ^ 24" using assms unfolding of_int_le_iff by linarith
    then have n: "n = 2 * (sgn n * 2 ^ 23)" by (simp add: abs_if sgn_if split: if_splits)
    then have "of_int n / 2 powi e = (of_int (sgn n * 2 ^ 23) :: rat)"
      by (subst n) (simp add: l)
    then have "round_half_even (of_int n / 2 powi e) = sgn n * 2 ^ 23"
      by (simp only: round_half_even_of_int)
    moreover have "of_int (sgn n * 2 ^ 23) * 2 powi e = (of_int n :: rat)"
      by (subst (2) n) (simp add: l)
    ultimately show ?thesis using False by (simp add: round24_def Let_def e_def)
  qed
qed (simp add: round24_def)

text \<open>Neither rounding moves a temperature across a threshold of whole degrees.\<close>

lemma millis_above:
  assumes "millis_range m" and "\<bar>n\<bar> \<le> 16384"
  shows "fgt (to_single (Fin (round53 (of_int m / 1000)))) (Fin (of_int n)) \<longleftrightarrow> 1000 * n < m"
    and "fgt (Fin (round53 (of_int m / 1000))) (Fin (of_int n)) \<longleftrightarrow> 1000 * n < m"
proof -
  let ?d = "round53 (of_int m / 1000) :: rat"
  have side: "of_int n < x \<longleftrightarrow> 1000 * n < m"
    if near: "\<bar>x - of_int m / 1000\<bar> < 1 / 2000" and exact: "m = 1000 * n \<Longrightarrow> x = of_int n" for x :: rat
  proof -
    consider "m + 1 \<le> 1000 * n" | "m = 1000 * n" | "1000 * n + 1 \<le> m" by linarith
    then show ?thesis
    proof cases
      case 1
      then have "(of_int (m + 1) :: rat) \<le> of_int (1000 * n)" by (simp only: of_int_le_iff)
      then have "x < of_int n" using near unfolding of_int_add of_int_mult of_int_numeral of_int_1 by linarith
      with 1 show ?thesis by simp
    next
      case 3
      then have "(of_int (1000 * n + 1) :: rat) \<le> of_int m" by (simp only: of_int_le_iff)
      then have "of_int n < x" using near unfolding of_int_add of_int_mult of_int_numeral of_int_1 by linarith
      with 3 show ?thesis by simp
    qed (use exact in simp)
  qed
  have n: "round53 (of_int n) = of_int n" "round24 (of_int n) = of_int n"
    using assms(2) round53_dyadic [OF dyadic53_of_int [of n]] by (simp_all add: round24_small_int)
  have "m = 1000 * n \<Longrightarrow> ?d = of_int n" using n(1) by simp
  then show "fgt (to_single (Fin ?d)) (Fin (of_int n)) \<longleftrightarrow> 1000 * n < m"
    and "fgt (Fin ?d) (Fin (of_int n)) \<longleftrightarrow> 1000 * n < m"
    using side [OF millis_single(2) [OF assms(1)]] side [of ?d] n(2) millis_double(1) [OF assms(1)]
    by (simp_all add: millis_single(1) [OF assms(1)] del: to_single.simps)
qed

end
