(* ===== verification/ThermalZones.thy ===== *)
theory ThermalZones
  imports Thermal "HOL-Library.List_Lexorder" "HOL-Library.Char_ord"
begin

text \<open>
  \<^verbatim>\<open>src/python/msp/thermal.py\<close>, the part that reads \<^verbatim>\<open>/sys/class/thermal\<close>: zone discovery
  (\<^verbatim>\<open>list_thermal_zones\<close>) and \<^verbatim>\<open>LinuxThermalZoneReader\<close>. The file system is a record of
  operations over a world state, each of which may raise, so that a file can change or vanish
  between two calls; \<open>frozen_fs\<close> is the instance whose files do not change, used to state what
  discovery finds and what a sample returns.
\<close>

section \<open>The file system interface\<close>

text \<open>A path is the list of its components, starting with the base directory.\<close>

type_synonym path = "string list"

record 's fs_ops =
  fs_is_dir :: "path \<Rightarrow> ('s, bool) prog"
  fs_listdir :: "path \<Rightarrow> ('s, string list) prog"
  fs_exists :: "path \<Rightarrow> ('s, bool) prog"
  fs_read_text :: "path \<Rightarrow> ('s, string) prog"

section \<open>Discovery\<close>

record zone_info =
  zone_index :: int
  zone_type :: string
  temp_path :: path

definition zone_prefix :: string where
  "zone_prefix = ''thermal_zone''"

definition unknown_type :: string where
  "unknown_type = ''unknown''"

text \<open>\<^verbatim>\<open>try: ... except OSError: zone_type = "unknown"\<close>; other exceptions escape.\<close>

definition read_zone_type :: "'s fs_ops \<Rightarrow> path \<Rightarrow> ('s, string) prog" where
  "read_zone_type ops type_path = (\<lambda>s.
     case sbind (fs_exists ops type_path)
            (\<lambda>e. if e then sbind (fs_read_text ops type_path) (\<lambda>t. sret (py_strip t))
                 else sret unknown_type) s of
       (Inl e, s') \<Rightarrow> if is_os_error e then (Inr unknown_type, s') else (Inl e, s')
     | (Inr t, s') \<Rightarrow> (Inr t, s'))"

primrec scan_zones :: "'s fs_ops \<Rightarrow> path \<Rightarrow> string list \<Rightarrow> ('s, zone_info list) prog" where
  "scan_zones ops base [] = sret []"
| "scan_zones ops base (name # names) =
     sbind (fs_exists ops (base @ [name, ''temp'']))
       (\<lambda>e. if \<not> e then scan_zones ops base names
            else (case int_of_str (drop (length zone_prefix) name) of
                Inl _ \<Rightarrow> scan_zones ops base names
              | Inr index \<Rightarrow>
                  sbind (read_zone_type ops (base @ [name, ''type'']))
                    (\<lambda>ty. sbind (scan_zones ops base names)
                      (\<lambda>zs. sret (\<lparr>zone_index = index, zone_type = ty,
                                   temp_path = base @ [name, ''temp'']\<rparr> # zs)))))"

definition list_thermal_zones :: "'s fs_ops \<Rightarrow> path \<Rightarrow> ('s, zone_info list) prog" where
  "list_thermal_zones ops base =
     sbind (fs_is_dir ops base)
       (\<lambda>d. if \<not> d then sret []
            else sbind (fs_listdir ops base)
              (\<lambda>names. scan_zones ops base (sort (filter (prefix zone_prefix) names))))"

section \<open>The reader\<close>

record zone_reader =
  temp_paths :: "path list"
  aggregate :: string

definition type_matches :: "string option \<Rightarrow> zone_info \<Rightarrow> bool" where
  "type_matches substring z =
     (case substring of None \<Rightarrow> True
      | Some needle \<Rightarrow> py_contains (py_lower needle) (py_lower (zone_type z)))"

definition zone_reader_init ::
  "'s fs_ops \<Rightarrow> string option \<Rightarrow> string \<Rightarrow> path \<Rightarrow> ('s, zone_reader) prog" where
  "zone_reader_init ops substring agg base =
     (if agg \<notin> {''max'', ''mean''} then sraise ValueError
      else sbind (list_thermal_zones ops base)
        (\<lambda>zones. let zs = filter (type_matches substring) zones
                 in if zs = [] then sraise RuntimeError
                    else sret \<lparr>temp_paths = map temp_path zs, aggregate = agg\<rparr>))"

text \<open>
  One zone's sample: \<open>Inr None\<close> when the file cannot be read or parsed and the zone is skipped.
  The conversion of an int beyond the float range raises an OverflowError, which escapes.
\<close>

definition zone_sample :: "'s fs_ops \<Rightarrow> path \<Rightarrow> ('s, pyfloat option) prog" where
  "zone_sample ops p = (\<lambda>s.
     case sbind (fs_read_text ops p)
            (\<lambda>t s'. (int_of_str (py_strip t), s')) s of
       (Inl e, s') \<Rightarrow> if is_os_error e \<or> is_value_error e then (Inr None, s') else (Inl e, s')
     | (Inr millidegrees, s') \<Rightarrow>
         (rbind (float_of_int millidegrees)
            (\<lambda>f. rbind (fdiv f (Fin 1000)) (\<lambda>c. Inr (Some c))), s'))"

primrec zone_samples :: "'s fs_ops \<Rightarrow> path list \<Rightarrow> ('s, pyfloat list) prog" where
  "zone_samples ops [] = sret []"
| "zone_samples ops (p # ps) =
     sbind (zone_sample ops p)
       (\<lambda>r. sbind (zone_samples ops ps)
         (\<lambda>rs. sret (case r of None \<Rightarrow> rs | Some c \<Rightarrow> c # rs)))"

definition zone_reader_call :: "'s fs_ops \<Rightarrow> zone_reader \<Rightarrow> 's reader" where
  "zone_reader_call ops r =
     sbind (zone_samples ops (temp_paths r))
       (\<lambda>readings s.
          (if readings = [] then Inl RuntimeError
           else if aggregate r = ''max'' then py_max readings
           else rbind (float_of_int (int (length readings))) (fdiv (py_sum readings)), s))"

section \<open>A file system that does not change\<close>

datatype file_content = Text string | Undecodable | Unreadable

record frozen_fs =
  ffs_dirs :: "path list"
  ffs_names :: "string list"
  ffs_files :: "path \<Rightarrow> file_content option"

definition frozen_read :: "frozen_fs \<Rightarrow> path \<Rightarrow> string result" where
  "frozen_read fs p =
     (case ffs_files fs p of
        None \<Rightarrow> Inl FileNotFoundError
      | Some Unreadable \<Rightarrow> Inl OSError
      | Some Undecodable \<Rightarrow> Inl UnicodeDecodeError
      | Some (Text t) \<Rightarrow> Inr t)"

definition frozen_ops :: "frozen_fs fs_ops" where
  "frozen_ops =
     \<lparr>fs_is_dir = (\<lambda>p fs. (Inr (p \<in> set (ffs_dirs fs)), fs)),
      fs_listdir = (\<lambda>p fs. (Inr (ffs_names fs), fs)),
      fs_exists = (\<lambda>p fs. (Inr (ffs_files fs p \<noteq> None), fs)),
      fs_read_text = (\<lambda>p fs. (frozen_read fs p, fs))\<rparr>"

lemma frozen_ops_simps [simp]:
  "fs_is_dir frozen_ops p fs = (Inr (p \<in> set (ffs_dirs fs)), fs)"
  "fs_listdir frozen_ops p fs = (Inr (ffs_names fs), fs)"
  "fs_exists frozen_ops p fs = (Inr (ffs_files fs p \<noteq> None), fs)"
  "fs_read_text frozen_ops p fs = (frozen_read fs p, fs)"
  by (simp_all add: frozen_ops_def)

text \<open>What discovery should see of one entry.\<close>

definition frozen_zone_type :: "frozen_fs \<Rightarrow> path \<Rightarrow> string" where
  "frozen_zone_type fs p =
     (case ffs_files fs p of Some (Text t) \<Rightarrow> py_strip t | _ \<Rightarrow> unknown_type)"

definition frozen_zone :: "frozen_fs \<Rightarrow> path \<Rightarrow> string \<Rightarrow> zone_info option" where
  "frozen_zone fs base name =
     (case (ffs_files fs (base @ [name, ''temp'']), int_of_str (drop (length zone_prefix) name)) of
        (Some _, Inr i) \<Rightarrow>
           Some \<lparr>zone_index = i, zone_type = frozen_zone_type fs (base @ [name, ''type'']),
                 temp_path = base @ [name, ''temp'']\<rparr>
      | _ \<Rightarrow> None)"

definition types_decodable :: "frozen_fs \<Rightarrow> path \<Rightarrow> bool" where
  "types_decodable fs base \<longleftrightarrow>
     (\<forall>name \<in> set (ffs_names fs). ffs_files fs (base @ [name, ''type'']) \<noteq> Some Undecodable)"

lemma read_zone_type_frozen:
  "ffs_files fs p \<noteq> Some Undecodable \<Longrightarrow>
     read_zone_type frozen_ops p fs = (Inr (frozen_zone_type fs p), fs)"
  by (auto simp: read_zone_type_def frozen_zone_type_def frozen_read_def prog_simps
      split: option.splits file_content.splits)

lemma scan_zones_frozen:
  assumes "\<forall>name \<in> set names. ffs_files fs (base @ [name, ''type'']) \<noteq> Some Undecodable"
  shows "scan_zones frozen_ops base names fs = (Inr (List.map_filter (frozen_zone fs base) names), fs)"
  using assms
proof (induction names)
  case (Cons name names)
  have IH: "scan_zones frozen_ops base names fs =
      (Inr (List.map_filter (frozen_zone fs base) names), fs)"
    using Cons by simp
  have ty: "read_zone_type frozen_ops (base @ [name, ''type'']) fs =
      (Inr (frozen_zone_type fs (base @ [name, ''type''])), fs)"
    using Cons.prems by (intro read_zone_type_frozen) simp
  show ?case
    by (cases "ffs_files fs (base @ [name, ''temp''])";
        cases "int_of_str (drop (length zone_prefix) name)")
      (simp_all add: prog_simps IH ty frozen_zone_def [of fs base name] List.map_filter_simps)
qed (simp add: sret_def List.map_filter_simps)

lemma list_thermal_zones_frozen:
  assumes "types_decodable fs base" and "base \<in> set (ffs_dirs fs)"
  shows "list_thermal_zones frozen_ops base fs =
    (Inr (List.map_filter (frozen_zone fs base) (sort (filter (prefix zone_prefix) (ffs_names fs)))), fs)"
proof -
  have "\<forall>name \<in> set (sort (filter (prefix zone_prefix) (ffs_names fs))).
      ffs_files fs (base @ [name, ''type'']) \<noteq> Some Undecodable"
    using assms(1) by (auto simp: types_decodable_def)
  from scan_zones_frozen [OF this] assms(2) show ?thesis
    by (simp add: list_thermal_zones_def prog_simps)
qed

section \<open>What a sample returns\<close>

text \<open>The readings of the zones that can be read and parsed, in order.\<close>

definition frozen_millis :: "frozen_fs \<Rightarrow> path \<Rightarrow> int option" where
  "frozen_millis fs p =
     (case frozen_read fs p of
        Inr t \<Rightarrow> (case int_of_str (py_strip t) of Inr m \<Rightarrow> Some m | Inl _ \<Rightarrow> None)
      | Inl _ \<Rightarrow> None)"

definition celsius :: "int \<Rightarrow> pyfloat" where
  "celsius m = to_float (of_int m / 1000)"

definition plausible :: "frozen_fs \<Rightarrow> path \<Rightarrow> bool" where
  "plausible fs p \<longleftrightarrow> (case frozen_millis fs p of Some m \<Rightarrow> \<bar>m\<bar> \<le> 2 ^ 53 | None \<Rightarrow> True)"

lemma zone_sample_frozen:
  assumes "plausible fs p"
  shows "zone_sample frozen_ops p fs = (Inr (map_option celsius (frozen_millis fs p)), fs)"
proof (cases "frozen_read fs p")
  case (Inl e)
  then have "is_os_error e \<or> is_value_error e"
    by (auto simp: frozen_read_def split: option.splits file_content.splits)
  with Inl show ?thesis by (simp add: zone_sample_def prog_simps frozen_millis_def)
next
  case (Inr t)
  show ?thesis
  proof (cases "int_of_str (py_strip t)")
    case (Inl e)
    with Inr int_of_str_error [OF Inl] show ?thesis
      by (simp add: zone_sample_def prog_simps frozen_millis_def)
  next
    case m: (Inr m)
    with Inr assms have "\<bar>m\<bar> \<le> 2 ^ 53" by (simp add: plausible_def frozen_millis_def)
    from float_of_int_exact [OF this] m Inr show ?thesis
      by (simp add: zone_sample_def prog_simps frozen_millis_def celsius_def)
  qed
qed

lemma zone_samples_frozen:
  assumes "\<forall>p \<in> set ps. plausible fs p"
  shows "zone_samples frozen_ops ps fs =
    (Inr (map celsius (List.map_filter (frozen_millis fs) ps)), fs)"
  using assms
proof (induction ps)
  case (Cons p ps)
  then have "plausible fs p" by simp
  from zone_sample_frozen [OF this] Cons show ?case
    by (cases "frozen_millis fs p") (simp_all add: prog_simps List.map_filter_simps)
qed (simp add: sret_def List.map_filter_simps)

text \<open>Plausible readings convert to finite temperatures, in the same order as the readings.\<close>

definition celsius_rat :: "int \<Rightarrow> rat" where
  "celsius_rat m = round53 (of_int m / 1000)"

lemma celsius_Fin:
  assumes "\<bar>m\<bar> \<le> 2 ^ 53" shows "celsius m = Fin (celsius_rat m)"
proof -
  have "dyadic53 (of_int (2 ^ 53))" "dyadic53 (of_int (- (2 ^ 53)))"
    by (rule dyadic53_of_int, simp)+
  then have r: "round53 (of_int (2 ^ 53)) = of_int (2 ^ 53)"
    "round53 (of_int (- (2 ^ 53))) = of_int (- (2 ^ 53))"
    by (simp_all only: round53_dyadic)
  have "(of_int \<bar>m\<bar> :: rat) \<le> of_int (2 ^ 53)" using assms by (simp only: of_int_le_iff)
  then have "(of_int m :: rat) / 1000 \<le> of_int (2 ^ 53)" "of_int (- (2 ^ 53)) \<le> (of_int m :: rat) / 1000"
    by (auto simp: abs_le_iff)
  then have "round53 (of_int m / 1000) \<le> of_int (2 ^ 53)"
    "of_int (- (2 ^ 53)) \<le> round53 (of_int m / 1000)"
    using round53_mono r by metis+
  then have "\<bar>celsius_rat m\<bar> \<le> 2 ^ 53" by (auto simp: celsius_rat_def abs_le_iff)
  moreover have "(2::rat) ^ 53 < 2 ^ 1024" by simp
  ultimately have "\<bar>celsius_rat m\<bar> < 2 ^ 1024" by (rule le_less_trans)
  then show ?thesis unfolding celsius_def celsius_rat_def by (intro to_float_Fin) simp_all
qed

lemma celsius_rat_mono: "m \<le> n \<Longrightarrow> celsius_rat m \<le> celsius_rat n"
  unfolding celsius_rat_def by (rule round53_mono) (simp add: divide_right_mono)

definition frozen_readings :: "frozen_fs \<Rightarrow> zone_reader \<Rightarrow> int list" where
  "frozen_readings fs r = List.map_filter (frozen_millis fs) (temp_paths r)"

lemma frozen_readings_bound:
  "\<forall>p \<in> set (temp_paths r). plausible fs p \<Longrightarrow> m \<in> set (frozen_readings fs r) \<Longrightarrow> \<bar>m\<bar> \<le> 2 ^ 53"
  by (auto simp: frozen_readings_def plausible_def List.map_filter_def split: option.splits)

lemma py_max_celsius:
  assumes "ms \<noteq> []" and "\<forall>m \<in> set ms. \<bar>m\<bar> \<le> 2 ^ 53"
  shows "py_max (map celsius ms) = Inr (celsius (Max (set ms)))"
proof -
  have eq: "map celsius ms = map Fin (map celsius_rat ms)"
    using assms(2) by (simp add: celsius_Fin)
  have "py_max (map celsius ms) = Inr (Fin (Max (celsius_rat ` set ms)))"
    unfolding eq by (subst py_max_Fin) (use assms(1) in auto)
  also have "Max (celsius_rat ` set ms) = celsius_rat (Max (set ms))"
    using assms(1) by (intro mono_Max_commute [symmetric]) (auto simp: celsius_rat_mono intro: monoI)
  also have "Fin (celsius_rat (Max (set ms))) = celsius (Max (set ms))"
    using assms by (intro celsius_Fin [symmetric]) simp
  finally show ?thesis .
qed

text \<open>
  A hottest-zone sample returns the largest of the readings that can be read and parsed, in
  degrees: zones that fail are skipped, and a RuntimeError is raised exactly when all of them
  fail.
\<close>

lemma hottest_zone_sample:
  assumes "\<forall>p \<in> set (temp_paths r). plausible fs p" and "aggregate r = ''max''"
  shows "zone_reader_call frozen_ops r fs =
    (if frozen_readings fs r = [] then Inl RuntimeError
     else Inr (celsius (Max (set (frozen_readings fs r)))), fs)"
proof -
  have "zone_samples frozen_ops (temp_paths r) fs = (Inr (map celsius (frozen_readings fs r)), fs)"
    using zone_samples_frozen [OF assms(1)] by (simp add: frozen_readings_def)
  then show ?thesis
    using assms(2) py_max_celsius frozen_readings_bound [OF assms(1)]
    by (simp add: zone_reader_call_def prog_simps)
qed

section \<open>Example trees\<close>

definition example_fs :: frozen_fs where
  "example_fs =
     \<lparr>ffs_dirs = [[''/sys'']],
      ffs_names = [''thermal_zone2'', ''cooling_device0'', ''thermal_zone10'', ''thermal_zone1''],
      ffs_files = map_of
        [([''/sys'', ''thermal_zone1'', ''temp''], Text ''45123''),
         ([''/sys'', ''thermal_zone1'', ''type''], Text ''CPU-Thermal''),
         ([''/sys'', ''thermal_zone2'', ''temp''], Text ''not-a-number''),
         ([''/sys'', ''thermal_zone2'', ''type''], Unreadable),
         ([''/sys'', ''thermal_zone10'', ''temp''], Unreadable)]\<rparr>"

definition example_bad_type_fs :: frozen_fs where
  "example_bad_type_fs =
     \<lparr>ffs_dirs = [[''/sys'']], ffs_names = [''thermal_zone1''],
      ffs_files = map_of
        [([''/sys'', ''thermal_zone1'', ''temp''], Text ''45123''),
         ([''/sys'', ''thermal_zone1'', ''type''], Undecodable)]\<rparr>"

text \<open>Names are sorted as text, so zone 10 comes before zone 2.\<close>

definition example_zones :: "zone_info list" where
  "example_zones =
     [\<lparr>zone_index = 1, zone_type = ''CPU-Thermal'', temp_path = [''/sys'', ''thermal_zone1'', ''temp'']\<rparr>,
      \<lparr>zone_index = 10, zone_type = ''unknown'', temp_path = [''/sys'', ''thermal_zone10'', ''temp'']\<rparr>,
      \<lparr>zone_index = 2, zone_type = ''unknown'', temp_path = [''/sys'', ''thermal_zone2'', ''temp'']\<rparr>]"

lemma example_names_sorted:
  "sort (filter (prefix zone_prefix) (ffs_names example_fs)) =
     [''thermal_zone1'', ''thermal_zone10'', ''thermal_zone2'']"
proof -
  have "filter (prefix zone_prefix) (ffs_names example_fs) =
      [''thermal_zone2'', ''thermal_zone10'', ''thermal_zone1'']"
    by (simp add: example_fs_def zone_prefix_def)
  then show ?thesis by simp
qed

lemma example_zones_found:
  "List.map_filter (frozen_zone example_fs [''/sys''])
     (sort (filter (prefix zone_prefix) (ffs_names example_fs))) = example_zones"
proof -
  have "int_of_str ''1'' = Inr 1" "int_of_str ''10'' = Inr 10" "int_of_str ''2'' = Inr 2"
    "py_strip ''CPU-Thermal'' = ''CPU-Thermal''"
    by (simp_all add: text_eval)
  then show ?thesis
    unfolding example_names_sorted example_zones_def
    by (simp add: List.map_filter_simps frozen_zone_def frozen_zone_type_def example_fs_def
        zone_prefix_def unknown_type_def)
qed

lemma example_fs_facts:
  "types_decodable example_fs [''/sys'']" "[''/sys''] \<in> set (ffs_dirs example_fs)"
  by (simp_all add: types_decodable_def example_fs_def)

definition example_zone_reader :: zone_reader where
  "example_zone_reader = \<lparr>temp_paths = map temp_path example_zones, aggregate = ''max''\<rparr>"

lemma example_readings:
  "map (frozen_millis example_fs) (temp_paths example_zone_reader) = [Some 45123, None, None]"
proof -
  have "py_strip ''45123'' = ''45123''" "int_of_str ''45123'' = Inr 45123"
    "py_strip ''not-a-number'' = ''not-a-number''" "int_of_str ''not-a-number'' = Inl ValueError"
    by (simp_all add: text_eval)
  then show ?thesis
    by (simp add: example_zone_reader_def example_zones_def frozen_millis_def frozen_read_def
        example_fs_def)
qed

section \<open>Properties\<close>

text \<open>
  C39. On a file system whose type files are decodable text, discovery returns, in the order of
  the sorted names, exactly the entries with the zone prefix, an integer suffix and an existing
  temp file; a type file that is missing or unreadable gives the type "unknown". A temp file
  that exists but cannot be read is not left out.
\<close>

theorem discovery_finds:
  assumes "types_decodable fs base" and "base \<in> set (ffs_dirs fs)"
  shows "list_thermal_zones frozen_ops base fs =
    (Inr (List.map_filter (frozen_zone fs base)
       (sort (filter (prefix zone_prefix) (ffs_names fs)))), fs)"
  using list_thermal_zones_frozen [OF assms] .

theorem discovery_finds_witness:
  "list_thermal_zones frozen_ops [''/sys''] example_fs = (Inr example_zones, example_fs)"
  using discovery_finds [OF example_fs_facts] by (simp add: example_zones_found)

lemma hottest_zone_sample_example:
  "zone_reader_call frozen_ops example_zone_reader example_fs = (Inr (celsius 45123), example_fs)"
proof -
  have all: "\<forall>p \<in> set (temp_paths example_zone_reader). plausible example_fs p"
    using example_readings by (auto simp: plausible_def example_zone_reader_def example_zones_def)
  have rd: "frozen_readings example_fs example_zone_reader = [45123]"
    using example_readings
    by (simp add: frozen_readings_def List.map_filter_simps example_zone_reader_def example_zones_def)
  have "aggregate example_zone_reader = ''max''" by (simp add: example_zone_reader_def)
  from hottest_zone_sample [OF all this] show ?thesis by (simp add: rd)
qed

text \<open>
  Construction on such a file system: a bad aggregate is a ValueError, no matching zone is a
  RuntimeError, and otherwise the reader samples exactly the discovered zones whose type
  contains the substring, ignoring case.
\<close>

lemma zone_reader_construction:
  assumes "types_decodable fs base" and "base \<in> set (ffs_dirs fs)"
  shows "fst (zone_reader_init frozen_ops substring agg base fs) =
    (let zs = filter (type_matches substring)
                (List.map_filter (frozen_zone fs base)
                  (sort (filter (prefix zone_prefix) (ffs_names fs))))
     in if agg \<noteq> ''max'' \<and> agg \<noteq> ''mean'' then Inl ValueError
        else if zs = [] then Inl RuntimeError
        else Inr \<lparr>temp_paths = map temp_path zs, aggregate = agg\<rparr>)"
  using list_thermal_zones_frozen [OF assms]
  by (simp add: zone_reader_init_def prog_simps Let_def)

lemma zone_reader_construction_example:
  "fst (zone_reader_init frozen_ops (Some ''cpu'') ''max'' [''/sys''] example_fs) =
     Inr \<lparr>temp_paths = [[''/sys'', ''thermal_zone1'', ''temp'']], aggregate = ''max''\<rparr>"
proof -
  have "filter (type_matches (Some ''cpu'')) example_zones = take 1 example_zones" by code_simp
  with zone_reader_construction [OF example_fs_facts, of "Some ''cpu''" "''max''"]
  show ?thesis by (simp add: example_zones_found) (simp add: example_zones_def)
qed

text \<open>
  A type file that is not valid text makes discovery raise, although everything else about
  the zone is fine: only OSErrors are caught.
\<close>

lemma discovery_undecodable_type:
  assumes "base \<in> set (ffs_dirs fs)"
    and "name \<in> set (ffs_names fs)" and "prefix zone_prefix name"
    and "frozen_zone fs base name \<noteq> None"
    and "ffs_files fs (base @ [name, ''type'']) = Some Undecodable"
  shows "fst (list_thermal_zones frozen_ops base fs) = Inl UnicodeDecodeError"
proof -
  have scan: "fst (scan_zones frozen_ops base names fs) = Inl UnicodeDecodeError"
    if "name \<in> set names" for names
    using that
  proof (induction names)
    case (Cons n ns)
    have ty: "read_zone_type frozen_ops p fs = (Inl UnicodeDecodeError, fs)
        \<or> (\<exists>t. read_zone_type frozen_ops p fs = (Inr t, fs))" for p
      using read_zone_type_frozen [of fs p]
      by (cases "ffs_files fs p = Some Undecodable")
        (auto simp: read_zone_type_def frozen_read_def prog_simps)
    show ?case
    proof (cases "n = name")
      case True
      have "read_zone_type frozen_ops (base @ [name, ''type'']) fs = (Inl UnicodeDecodeError, fs)"
        using assms(5) by (simp add: read_zone_type_def frozen_read_def prog_simps)
      with True assms(4) show ?thesis
        by (auto simp: frozen_zone_def prog_simps split: option.splits sum.splits)
    next
      case False
      with Cons have IH: "fst (scan_zones frozen_ops base ns fs) = Inl UnicodeDecodeError" by simp
      then have IH': "\<exists>s. scan_zones frozen_ops base ns fs = (Inl UnicodeDecodeError, s)"
        by (metis prod.collapse)
      show ?thesis
        using IH' ty [of "base @ [n, ''type'']"]
        by (auto simp: prog_simps split: sum.split)
    qed
  qed simp
  show ?thesis
    using assms(1) scan [of "sort (filter (prefix zone_prefix) (ffs_names fs))"] assms(2,3)
    by (simp add: list_thermal_zones_def prog_simps)
qed

lemma discovery_undecodable_type_example:
  "fst (list_thermal_zones frozen_ops [''/sys''] example_bad_type_fs) = Inl UnicodeDecodeError"
proof (rule discovery_undecodable_type [of _ _ "''thermal_zone1''"])
  show "frozen_zone example_bad_type_fs [''/sys''] ''thermal_zone1'' \<noteq> None" by code_simp
qed (simp_all add: example_bad_type_fs_def zone_prefix_def)

end
