(* ===== verification/ThermalReader.thy ===== *)
theory ThermalReader
  imports Single ThermalZones
begin

text \<open>
  \<^verbatim>\<open>src/daemon/thermal_reader.c\<close>: the reader of \<^verbatim>\<open>/sys/class/thermal\<close> that the watchdog daemon uses,
  with its fixed-size buffers, \<^verbatim>\<open>fgets\<close>, \<^verbatim>\<open>fscanf\<close> and the substring search written out, and its
  comparison with \<^verbatim>\<open>LinuxThermalZoneReader\<close> of \<^verbatim>\<open>src/python/msp/thermal.py\<close>, which implements the same
  policy a second time, with the same two aggregates. One call opens every file once, so the tree it sees is a function from
  paths to the bytes that the open file delivers.
\<close>

section \<open>The C library\<close>

text \<open>\<^verbatim>\<open>snprintf\<close> of a path into a buffer: None when it does not fit with its terminating zero.\<close>

definition snprintf_path :: "nat \<Rightarrow> string \<Rightarrow> string option" where
  "snprintf_path cap s = (if length s < cap then Some s else None)"

definition path_in :: "string \<Rightarrow> string \<Rightarrow> string" where
  "path_in dir name = dir @ ''/'' @ name"

lemma path_in_length [simp]: "length (path_in dir name) = length dir + length name + 1"
  by (simp add: path_in_def)

text \<open>\<^verbatim>\<open>fgets\<close>: at most one line, including its newline, and at most \<open>cap - 1\<close> bytes of it.\<close>

fun first_line :: "string \<Rightarrow> string" where
  "first_line [] = []"
| "first_line (c # cs) = (if c = CHR 0x0A then [c] else c # first_line cs)"

definition fgets :: "nat \<Rightarrow> string \<Rightarrow> string option" where
  "fgets cap bytes = (if bytes = [] then None else Some (take (cap - 1) (first_line bytes)))"

definition c_isspace :: "char \<Rightarrow> bool" where
  "c_isspace c \<longleftrightarrow> ord_of c \<in> {9, 10, 11, 12, 13, 32}"

definition c_tolower :: "char \<Rightarrow> char" where
  "c_tolower c = (if 65 \<le> ord_of c \<and> ord_of c \<le> 90 then char_of (ord_of c + 32) else c)"

text \<open>
  \<^verbatim>\<open>fscanf(f, "%ld", &value)\<close>: white space, a sign and the digits that follow, whatever comes after
  them. A number beyond 64 bits saturates, as in glibc; the C standard leaves it undefined.
\<close>

definition long_clamp :: "int \<Rightarrow> int" where
  "long_clamp n = max (- (2 ^ 63)) (min (2 ^ 63 - 1) n)"

definition scanf_ld :: "string \<Rightarrow> int option" where
  "scanf_ld bytes =
     (let (neg, r) = split_sign (dropWhile c_isspace bytes); ds = takeWhile is_digit r
      in if ds = [] then None
         else Some (long_clamp ((if neg then -1 else 1) * int (digits_value 0 ds))))"

section \<open>The reader\<close>

datatype msp_thermal_aggregate = Aggregate_Max | Aggregate_Mean

record reader_config =
  base_path :: string
  zone_type_filter :: string
  aggregate_kind :: msp_thermal_aggregate

definition msp_thermal_reader_default_config :: reader_config where
  "msp_thermal_reader_default_config =
     \<lparr>base_path = ''/sys/class/thermal'', zone_type_filter = [], aggregate_kind = Aggregate_Max\<rparr>"

text \<open>What \<^verbatim>\<open>opendir\<close> and \<^verbatim>\<open>readdir\<close>, and \<^verbatim>\<open>fopen\<close> and the first read deliver; None is a failed open.\<close>

record sysfs =
  dir_entries :: "string \<Rightarrow> string list option"
  file_bytes :: "string \<Rightarrow> string option"

definition strip_eol :: "string \<Rightarrow> string" where
  "strip_eol s = rev (dropWhile (\<lambda>c. c = CHR 0x0A \<or> c = CHR 0x0D) (rev s))"

definition c_read_zone_type :: "sysfs \<Rightarrow> string \<Rightarrow> nat \<Rightarrow> string option" where
  "c_read_zone_type tree zone_dir out_len =
     (case snprintf_path 320 (path_in zone_dir ''type'') of
        None \<Rightarrow> None
      | Some path \<Rightarrow>
          (case file_bytes tree path of
             None \<Rightarrow> None
           | Some bytes \<Rightarrow>
               (case fgets out_len bytes of
                  None \<Rightarrow> None
                | Some out \<Rightarrow> Some (strip_eol (takeWhile (\<lambda>c. c \<noteq> CHR 0x00) out)))))"

definition read_zone_millidegrees :: "sysfs \<Rightarrow> string \<Rightarrow> int option" where
  "read_zone_millidegrees tree zone_dir =
     (case snprintf_path 320 (path_in zone_dir ''temp'') of
        None \<Rightarrow> None
      | Some path \<Rightarrow>
          (case file_bytes tree path of
             None \<Rightarrow> None
           | Some bytes \<Rightarrow> scanf_ld bytes))"

text \<open>The inner loop of \<^verbatim>\<open>contains_ci\<close> compares at one position, the outer one tries them all.\<close>

fun matches_here :: "string \<Rightarrow> string \<Rightarrow> bool" where
  "matches_here hay [] = True"
| "matches_here [] (n # ns) = False"
| "matches_here (h # hs) (n # ns) = (c_tolower h = c_tolower n \<and> matches_here hs ns)"

fun search_from :: "string \<Rightarrow> string \<Rightarrow> bool" where
  "search_from hay needle =
     (if length needle \<le> length hay
      then matches_here hay needle \<or> (case hay of [] \<Rightarrow> False | _ # t \<Rightarrow> search_from t needle)
      else False)"

declare search_from.simps [simp del]

definition contains_ci :: "string \<Rightarrow> string \<Rightarrow> bool" where
  "contains_ci haystack needle =
     (if needle = [] then True
      else if length needle > length haystack then False else search_from haystack needle)"

text \<open>One round of the \<^verbatim>\<open>readdir\<close> loop: None is a \<^verbatim>\<open>continue\<close>.\<close>

definition zone_reading :: "reader_config \<Rightarrow> sysfs \<Rightarrow> string \<Rightarrow> int option" where
  "zone_reading config tree name =
     (if take 12 name \<noteq> zone_prefix then None
      else case snprintf_path 300 (path_in (base_path config) name) of
        None \<Rightarrow> None
      | Some zone_dir \<Rightarrow>
          let zone_type =
            (case c_read_zone_type tree zone_dir 64 of None \<Rightarrow> unknown_type | Some t \<Rightarrow> t)
          in if contains_ci zone_type (zone_type_filter config)
             then read_zone_millidegrees tree zone_dir else None)"

record accumulator =
  sum_c :: pyfloat
  max_c :: pyfloat
  zones_read :: nat

definition millis_to_c :: "int \<Rightarrow> pyfloat" where
  "millis_to_c millideg = fquot (to_float (of_int millideg)) (Fin 1000)"

definition add_zone :: "accumulator \<Rightarrow> int \<Rightarrow> accumulator" where
  "add_zone acc millideg =
     (let c = millis_to_c millideg
      in \<lparr>sum_c = fadd (sum_c acc) c, max_c = (if fgt c (max_c acc) then c else max_c acc),
          zones_read = Suc (zones_read acc)\<rparr>)"

primrec read_zones :: "reader_config \<Rightarrow> sysfs \<Rightarrow> string list \<Rightarrow> accumulator \<Rightarrow> accumulator" where
  "read_zones config tree [] acc = acc"
| "read_zones config tree (name # names) acc =
     read_zones config tree names
       (case zone_reading config tree name of None \<Rightarrow> acc | Some m \<Rightarrow> add_zone acc m)"

text \<open>None is the result -1, after which the output is untouched.\<close>

definition msp_thermal_reader_read :: "reader_config \<Rightarrow> sysfs \<Rightarrow> pyfloat option" where
  "msp_thermal_reader_read config tree =
     (case dir_entries tree (base_path config) of
        None \<Rightarrow> None
      | Some names \<Rightarrow>
          let acc = read_zones config tree names \<lparr>sum_c = Fin 0, max_c = NInf, zones_read = 0\<rparr>
          in if zones_read acc = 0 then None
             else Some (to_single
               (if aggregate_kind config = Aggregate_Mean
                then fquot (sum_c acc) (to_float (of_nat (zones_read acc))) else max_c acc)))"

definition msp_thermal_reader_telemetry_fn :: "reader_config \<Rightarrow> sysfs \<Rightarrow> pyfloat \<times> 64 word \<times> bool" where
  "msp_thermal_reader_telemetry_fn config tree =
     ((case msp_thermal_reader_read config tree of Some temp_c \<Rightarrow> temp_c | None \<Rightarrow> PInf), 0, False)"

section \<open>The substring search\<close>

lemma matches_here_iff: "matches_here hay needle \<longleftrightarrow> prefix (map c_tolower needle) (map c_tolower hay)"
  by (induction hay needle rule: matches_here.induct) auto

lemma sublist_shorter: "sublist xs ys \<Longrightarrow> length xs \<le> length ys"
  by (auto simp: sublist_def)

lemma search_from_iff: "search_from hay needle \<longleftrightarrow> sublist (map c_tolower needle) (map c_tolower hay)"
proof (induction hay)
  case Nil
  show ?case by (subst search_from.simps) (auto simp: matches_here_iff)
next
  case (Cons h hs)
  then show ?case
    using sublist_shorter [of "map c_tolower needle" "map c_tolower (h # hs)"]
    by (subst search_from.simps) (auto simp: matches_here_iff sublist_Cons_right)
qed

lemma contains_ci_iff:
  "contains_ci haystack needle \<longleftrightarrow> sublist (map c_tolower needle) (map c_tolower haystack)"
  using sublist_shorter [of "map c_tolower needle" "map c_tolower haystack"]
  by (auto simp: contains_ci_def search_from_iff)

definition ascii :: "string \<Rightarrow> bool" where
  "ascii s \<longleftrightarrow> list_all (\<lambda>c. ord_of c < 128) s"

lemma tolower_ascii: "ascii s \<Longrightarrow> map c_tolower s = py_lower s"
  by (auto simp: ascii_def list_all_iff py_lower_def lower_char_def c_tolower_def)

lemma contains_ci_python:
  assumes "ascii hay" and "ascii needle"
  shows "contains_ci hay needle \<longleftrightarrow> py_contains (py_lower needle) (py_lower hay)"
  using assms by (simp add: contains_ci_iff tolower_ascii py_contains_iff)

section \<open>The accumulated maximum\<close>

lemma millis_to_c_celsius: "\<bar>m\<bar> \<le> 2 ^ 53 \<Longrightarrow> millis_to_c m = celsius m"
proof -
  assume "\<bar>m\<bar> \<le> 2 ^ 53"
  from float_of_int_exact [OF this] have "to_float (of_int m) = Fin (of_int m)"
    by (auto simp: float_of_int_def split: pyfloat.splits)
  then show ?thesis by (simp add: millis_to_c_def celsius_def)
qed

lemma read_zones_foldl:
  "read_zones config tree names acc =
     foldl add_zone acc (List.map_filter (zone_reading config tree) names)"
  by (induction names arbitrary: acc) (auto simp: List.map_filter_simps split: option.split)

lemma foldl_add_zone:
  "zones_read (foldl add_zone acc ms) = zones_read acc + length ms"
  "max_c (foldl add_zone acc ms) = foldl (\<lambda>m y. if fgt y m then y else m) (max_c acc) (map millis_to_c ms)"
  "sum_c (foldl add_zone acc ms) = foldl fadd (sum_c acc) (map millis_to_c ms)"
  by (induction ms arbitrary: acc) (simp_all add: add_zone_def Let_def)

text \<open>What the two aggregates make of the readings, in the order in which they are read.\<close>

definition aggregate_of :: "msp_thermal_aggregate \<Rightarrow> int list \<Rightarrow> pyfloat" where
  "aggregate_of kind ms =
     (case kind of
        Aggregate_Max \<Rightarrow> celsius (Max (set ms))
      | Aggregate_Mean \<Rightarrow> fquot (py_sum (map celsius ms)) (to_float (of_nat (length ms))))"

lemma read_aggregate:
  assumes "dir_entries tree (base_path config) = Some names"
    and "ms = List.map_filter (zone_reading config tree) names"
    and "\<forall>m \<in> set ms. \<bar>m\<bar> \<le> 2 ^ 53"
  shows "msp_thermal_reader_read config tree =
    (if ms = [] then None else Some (to_single (aggregate_of (aggregate_kind config) ms)))"
proof -
  let ?max = "\<lambda>m y. if fgt y m then y else m"
  have eq: "map millis_to_c ms = map celsius ms" using assms(3) by (simp add: millis_to_c_celsius)
  have "foldl ?max NInf (map celsius ms) = celsius (Max (set ms))" if ne: "ms \<noteq> []"
  proof -
    obtain m ms' where ms: "ms = m # ms'" using ne by (cases ms) auto
    then have "celsius m = Fin (celsius_rat m)" using assms(3) celsius_Fin by simp
    then have "foldl ?max NInf (map celsius ms) = foldl ?max (celsius m) (map celsius ms')"
      by (simp add: ms)
    with py_max_celsius [OF ne assms(3)] show ?thesis by (simp add: ms)
  qed
  then show ?thesis
    using assms(1)
    by (cases "aggregate_kind config")
      (simp_all add: msp_thermal_reader_read_def read_zones_foldl foldl_add_zone assms(2) [symmetric] eq
        aggregate_of_def py_sum_def Let_def)
qed

section \<open>The same tree for the Python reader\<close>

text \<open>The file system of the Python model holds the directory of the tree.\<close>

definition mirrors :: "string \<Rightarrow> sysfs \<Rightarrow> frozen_fs \<Rightarrow> bool" where
  "mirrors base tree fs \<longleftrightarrow>
     ffs_dirs fs = [[base]] \<and> dir_entries tree base = Some (ffs_names fs) \<and>
     (\<forall>name \<in> set (ffs_names fs). \<forall>file \<in> {''temp'', ''type''}.
        file_bytes tree (path_in (path_in base name) file) =
          (case ffs_files fs [base, name, file] of Some (Text t) \<Rightarrow> Some t | _ \<Rightarrow> None))"

text \<open>
  What the kernel writes into these files: a name of printable characters, and a decimal
  number, each on a line of its own.
\<close>

definition type_line :: "string \<Rightarrow> bool" where
  "type_line s \<longleftrightarrow> s \<noteq> [] \<and> last s = CHR 0x0A \<and>
     (let t = butlast s in t \<noteq> [] \<and> length t \<le> 62 \<and>
        list_all (\<lambda>c. 32 \<le> ord_of c \<and> ord_of c < 127) t \<and> \<not> is_space (hd t) \<and> \<not> is_space (last t))"

definition temp_line :: "string \<Rightarrow> bool" where
  "temp_line s \<longleftrightarrow> s \<noteq> [] \<and> last s = CHR 0x0A \<and>
     (let (neg, ds) = split_sign (butlast s)
      in ds \<noteq> [] \<and> list_all is_digit ds \<and> length ds \<le> 15)"

definition kernel_zone :: "string \<Rightarrow> frozen_fs \<Rightarrow> string \<Rightarrow> bool" where
  "kernel_zone base fs name \<longleftrightarrow>
     drop 12 name \<noteq> [] \<and> list_all is_digit (drop 12 name) \<and> length base + length name < 299 \<and>
     (case ffs_files fs [base, name, ''type''] of
        Some (Text t) \<Rightarrow> type_line t | Some Undecodable \<Rightarrow> False | _ \<Rightarrow> True) \<and>
     (case ffs_files fs [base, name, ''temp''] of
        Some (Text t) \<Rightarrow> temp_line t | Some Undecodable \<Rightarrow> False | _ \<Rightarrow> True)"

definition kernel_tree :: "string \<Rightarrow> frozen_fs \<Rightarrow> bool" where
  "kernel_tree base fs \<longleftrightarrow>
     (\<forall>name \<in> set (ffs_names fs). prefix zone_prefix name \<longrightarrow> kernel_zone base fs name)"

lemma digit_facts:
  assumes "is_digit c"
  shows "\<not> is_space c" "\<not> c_isspace c" "c \<noteq> CHR ''-''" "c \<noteq> CHR ''+''" "c \<noteq> CHR ''_''"
  using assms by (auto simp: is_digit_def is_space_def c_isspace_def ord_of_def)

lemma digits_value_bound:
  "list_all is_digit ds \<Longrightarrow> digits_value a ds < (a + 1) * 10 ^ length ds"
proof (induction ds arbitrary: a)
  case (Cons d ds)
  then have "digits_value (10 * a + digit_value d) ds < (10 * a + digit_value d + 1) * 10 ^ length ds"
    by simp
  also have "\<dots> \<le> (10 * (a + 1)) * 10 ^ length ds"
    using Cons.prems by (intro mult_right_mono) (auto simp: is_digit_def digit_value_def)
  finally show ?case by (simp add: algebra_simps)
qed simp

text \<open>A line of the kernel is the same number to \<^verbatim>\<open>fscanf\<close> and to \<^verbatim>\<open>int(text.strip())\<close>.\<close>

lemma temp_line_number:
  assumes "temp_line s"
  obtains m where "scanf_ld s = Some m" and "int_of_str (py_strip s) = Inr m" and "\<bar>m\<bar> < 10 ^ 15"
proof -
  have "s = butlast s @ [CHR 0x0A]" using assms by (metis append_butlast_last_id temp_line_def)
  then obtain t where s: "s = t @ [CHR 0x0A]" by blast
  obtain neg ds where t: "split_sign t = (neg, ds)" by (metis surj_pair)
  from assms have ds: "ds \<noteq> []" "list_all is_digit ds" "length ds \<le> 15"
    by (auto simp: temp_line_def s t)
  let ?m = "(if neg then -1 else 1) * int (digits_value 0 ds)"
  have "digits_value 0 ds < 10 ^ length ds" using digits_value_bound [OF ds(2), of 0] by simp
  also have "\<dots> \<le> 10 ^ 15" using ds(3) by (intro power_increasing) simp_all
  finally have bound: "\<bar>?m\<bar> < 10 ^ 15" by simp
  have form: "t = ds \<or> t = CHR ''-'' # ds \<or> t = CHR ''+'' # ds"
    using t by (cases t) (auto split: if_splits)
  have nosp: "\<forall>c \<in> set t. \<not> is_space c \<and> \<not> c_isspace c" and ne: "t \<noteq> []"
    using form ds(1,2) digit_facts
    by (auto simp: list_all_iff is_space_def c_isspace_def ord_of_def)
  have nl: "is_space (CHR 0x0A)" "\<not> is_digit (CHR 0x0A)"
    by (simp_all add: is_space_def is_digit_def ord_of_def)
  have strip: "py_strip s = t" unfolding s
    using nosp ne nl(1) by (intro py_strip_append_space) auto
  have "CHR ''_'' \<notin> set ds" using ds(2) digit_facts(5) [of "CHR ''_''"] by (auto simp: list_all_iff)
  moreover have "py_strip t = t" using nosp by (intro py_strip_nospace) blast
  ultimately have py: "int_of_str (py_strip s) = Inr ?m"
    using ds by (simp add: strip int_of_str_def t underscores_ok_none drop_underscores_none max_str_digits_def)
  have drop: "dropWhile c_isspace s = s" using nosp ne by (cases t) (auto simp: s)
  have sign: "split_sign s = (neg, ds @ [CHR 0x0A])"
    using t ds(1) ne by (cases t) (auto simp: s split: if_splits)
  have "takeWhile is_digit (ds @ [CHR 0x0A]) = ds"
    using ds(2) nl(2) by (simp add: takeWhile_append2 list_all_iff)
  moreover have "long_clamp ?m = ?m" using bound by (auto simp: long_clamp_def)
  ultimately have "scanf_ld s = Some ?m" using ds(1) by (simp add: scanf_ld_def drop sign)
  with py bound that show thesis by blast
qed

lemma type_line_name:
  assumes "type_line s"
  obtains out where "fgets 64 s = Some out" and "strip_eol (takeWhile (\<lambda>c. c \<noteq> CHR 0x00) out) = py_strip s"
    and "ascii (py_strip s)"
proof -
  have "s = butlast s @ [CHR 0x0A]" using assms by (metis append_butlast_last_id type_line_def)
  then obtain t where s: "s = t @ [CHR 0x0A]" by blast
  from assms have t: "t \<noteq> []" "length t \<le> 62" "\<forall>c \<in> set t. 32 \<le> ord_of c \<and> ord_of c < 127"
    "\<not> is_space (hd t)" "\<not> is_space (last t)"
    by (auto simp: type_line_def s list_all_iff Let_def)
  have strip: "py_strip s = t" unfolding s
    using t by (intro py_strip_append_space) (auto simp: is_space_def ord_of_def)
  have asc: "ascii (py_strip s)" using t(3) by (auto simp: strip ascii_def list_all_iff)
  have plain: "c \<noteq> CHR 0x0A" "c \<noteq> CHR 0x0D" "c \<noteq> CHR 0x00" if "c \<in> set t" for c
    using t(3) that by (auto simp: ord_of_def)
  have "first_line (t @ [CHR 0x0A]) = t @ [CHR 0x0A]" if "\<forall>c \<in> set t. c \<noteq> CHR 0x0A" for t
    using that by (induction t) auto
  then have "fgets 64 s = Some s" using plain t(2) by (simp add: fgets_def s)
  moreover have "takeWhile (\<lambda>c. c \<noteq> CHR 0x00) s = s"
    using plain by (simp add: s takeWhile_append2)
  moreover have "strip_eol s = t"
    using t(1) plain [of "last t"] by (cases t rule: rev_cases) (auto simp: strip_eol_def s)
  ultimately show thesis using asc by (intro that [of s]) (simp_all add: strip del: takeWhile_eq_all_conv)
qed

section \<open>One zone, seen by both readers\<close>

text \<open>
  What \<^verbatim>\<open>LinuxThermalZoneReader(substring, aggregate, base)()\<close> returns or raises, with the aggregate
  that the daemon is configured with.
\<close>

definition aggregate_name :: "msp_thermal_aggregate \<Rightarrow> string" where
  "aggregate_name kind = (case kind of Aggregate_Max \<Rightarrow> ''max'' | Aggregate_Mean \<Rightarrow> ''mean'')"

definition python_reading ::
  "frozen_fs \<Rightarrow> msp_thermal_aggregate \<Rightarrow> string option \<Rightarrow> string \<Rightarrow> pyfloat result" where
  "python_reading fs kind substring base =
     fst (sbind (zone_reader_init frozen_ops substring (aggregate_name kind) [base])
       (zone_reader_call frozen_ops) fs)"

definition filter_of :: "string option \<Rightarrow> string" where
  "filter_of substring = (case substring of None \<Rightarrow> [] | Some s \<Rightarrow> s)"

definition python_zone :: "frozen_fs \<Rightarrow> string option \<Rightarrow> string \<Rightarrow> string \<Rightarrow> int option" where
  "python_zone fs substring base name =
     (case frozen_zone fs [base] name of
        Some z \<Rightarrow> if type_matches substring z then frozen_millis fs (temp_path z) else None
      | None \<Rightarrow> None)"

lemma zone_prefix_length: "length zone_prefix = 12"
  by (simp add: zone_prefix_def)

lemma prefix_take: "take 12 name = zone_prefix \<longleftrightarrow> prefix zone_prefix name"
  by (metis append_eq_conv_conj prefix_def zone_prefix_length)

lemma suffix_number:
  assumes "ds \<noteq> []" and "list_all is_digit ds" and "length ds \<le> 4300"
  shows "\<exists>i. int_of_str ds = Inr i"
proof -
  have "py_strip ds = ds" using assms(2) digit_facts by (intro py_strip_nospace) (auto simp: list_all_iff)
  moreover have "CHR ''_'' \<notin> set ds" using assms(2) digit_facts(5) [of "CHR ''_''"] by (auto simp: list_all_iff)
  moreover have "split_sign ds = (False, ds)"
    using assms(2) digit_facts by (intro split_sign_none) (auto simp: list_all_iff)
  ultimately show ?thesis using assms
    by (simp add: int_of_str_def underscores_ok_none drop_underscores_none max_str_digits_def)
qed

lemma zone_type_agrees:
  assumes "kernel_zone base fs name" and "mirrors base tree fs" and "name \<in> set (ffs_names fs)"
  shows "(case c_read_zone_type tree (path_in base name) 64 of None \<Rightarrow> unknown_type | Some t \<Rightarrow> t) =
      frozen_zone_type fs [base, name, ''type'']"
    and "ascii (frozen_zone_type fs [base, name, ''type''])"
proof -
  have "ascii unknown_type" by (simp add: ascii_def unknown_type_def ord_of_def)
  then show "ascii (frozen_zone_type fs [base, name, ''type''])"
    using assms(1)
    by (auto simp: frozen_zone_type_def kernel_zone_def elim: type_line_name split: option.splits file_content.splits)
  have "length (path_in (path_in base name) ''type'') < 320" using assms(1) by (simp add: kernel_zone_def)
  moreover have "file_bytes tree (path_in (path_in base name) ''type'') =
      (case ffs_files fs [base, name, ''type''] of Some (Text t) \<Rightarrow> Some t | _ \<Rightarrow> None)"
    using assms(2,3) by (auto simp: mirrors_def)
  ultimately show "(case c_read_zone_type tree (path_in base name) 64 of None \<Rightarrow> unknown_type | Some t \<Rightarrow> t) =
      frozen_zone_type fs [base, name, ''type'']"
    using assms(1)
    by (auto simp: c_read_zone_type_def snprintf_path_def frozen_zone_type_def kernel_zone_def
        elim!: type_line_name split: option.splits file_content.splits)
qed

lemma zone_millis_agree:
  assumes "kernel_zone base fs name" and "mirrors base tree fs" and "name \<in> set (ffs_names fs)"
  shows "read_zone_millidegrees tree (path_in base name) = frozen_millis fs [base, name, ''temp'']"
    and "frozen_millis fs [base, name, ''temp''] = Some m \<Longrightarrow> \<bar>m\<bar> < 10 ^ 15"
proof -
  have len: "length (path_in (path_in base name) ''temp'') < 320" using assms(1) by (simp add: kernel_zone_def)
  have bytes: "file_bytes tree (path_in (path_in base name) ''temp'') =
      (case ffs_files fs [base, name, ''temp''] of Some (Text t) \<Rightarrow> Some t | _ \<Rightarrow> None)"
    using assms(2,3) by (auto simp: mirrors_def)
  show "read_zone_millidegrees tree (path_in base name) = frozen_millis fs [base, name, ''temp'']"
    and "frozen_millis fs [base, name, ''temp''] = Some m \<Longrightarrow> \<bar>m\<bar> < 10 ^ 15"
    using len bytes assms(1)
    by (auto simp: read_zone_millidegrees_def snprintf_path_def frozen_millis_def frozen_read_def kernel_zone_def
        elim!: temp_line_number split: option.splits file_content.splits)
qed

lemma zone_reading_agrees:
  assumes kt: "kernel_tree (base_path config) fs" and mir: "mirrors (base_path config) tree fs"
    and sub: "zone_type_filter config = filter_of substring" "ascii (filter_of substring)"
    and name: "name \<in> set (ffs_names fs)" "prefix zone_prefix name"
  shows "zone_reading config tree name = python_zone fs substring (base_path config) name"
proof -
  let ?base = "base_path config"
  let ?zd = "path_in ?base name"
  have kz: "kernel_zone ?base fs name" using kt name by (simp add: kernel_tree_def)
  note ty = zone_type_agrees [OF kz mir name(1)] and ms = zone_millis_agree [OF kz mir name(1)]
  have fits: "snprintf_path 300 ?zd = Some ?zd" using kz by (simp add: kernel_zone_def snprintf_path_def)
  have c: "zone_reading config tree name =
      (if contains_ci (frozen_zone_type fs [?base, name, ''type'']) (filter_of substring)
       then frozen_millis fs [?base, name, ''temp''] else None)"
    using name(2) by (simp add: zone_reading_def prefix_take fits ty(1) ms(1) sub(1) Let_def)
  have "length (drop 12 name) \<le> 4300" using kz by (auto simp: kernel_zone_def)
  then obtain i where i: "int_of_str (drop (length zone_prefix) name) = Inr i"
    using suffix_number [of "drop 12 name"] kz unfolding zone_prefix_length by (auto simp: kernel_zone_def)
  have py: "contains_ci t (filter_of substring) \<longleftrightarrow> type_matches substring z"
    if "ascii t" "zone_type z = t" for t z
    using contains_ci_python [OF that(1) sub(2)] that(2)
    by (auto simp: type_matches_def filter_of_def contains_ci_def split: option.splits)
  have "frozen_millis fs [?base, name, ''temp''] = None" if "ffs_files fs [?base, name, ''temp''] = None"
    using that by (simp add: frozen_millis_def frozen_read_def)
  then show ?thesis
    using py [OF ty(2)] i
    by (auto simp: c python_zone_def frozen_zone_def split: option.splits)
qed

section \<open>The two readers on one tree\<close>

lemma map_filter_set: "set (List.map_filter f xs) = {y. \<exists>x \<in> set xs. f x = Some y}"
  by (force simp: List.map_filter_def)

lemma map_filter_cong: "(\<And>x. x \<in> set xs \<Longrightarrow> f x = g x) \<Longrightarrow> List.map_filter f xs = List.map_filter g xs"
  by (induction xs) (auto simp: List.map_filter_simps split: option.split)

lemma map_filter_filter:
  "(\<And>x. \<not> P x \<Longrightarrow> f x = None) \<Longrightarrow> List.map_filter f xs = List.map_filter f (filter P xs)"
  by (induction xs) (auto simp: List.map_filter_simps split: option.split)

definition tree_millis :: "frozen_fs \<Rightarrow> string option \<Rightarrow> string \<Rightarrow> int list" where
  "tree_millis fs substring base =
     List.map_filter (python_zone fs substring base) (filter (prefix zone_prefix) (ffs_names fs))"

lemma python_readings:
  "List.map_filter (frozen_millis fs) (map temp_path (filter (type_matches substring)
       (List.map_filter (frozen_zone fs [base]) names))) =
     List.map_filter (python_zone fs substring base) names"
  by (induction names) (auto simp: List.map_filter_simps python_zone_def split: option.split)

lemma kernel_millis_bound:
  assumes "kernel_tree base fs" and "mirrors base tree fs"
    and "name \<in> set (ffs_names fs)" and "prefix zone_prefix name"
    and "frozen_zone fs [base] name = Some z" and "frozen_millis fs (temp_path z) = Some m"
  shows "\<bar>m\<bar> \<le> 2 ^ 53"
proof -
  have "temp_path z = [base, name, ''temp'']"
    using assms(5) by (auto simp: frozen_zone_def split: option.splits sum.splits)
  then have "\<bar>m\<bar> < 10 ^ 15"
    using assms zone_millis_agree(2) [of base fs name tree m] by (simp add: kernel_tree_def)
  then show ?thesis by simp
qed

text \<open>The Python reader visits the zones in the order of their sorted names, the daemon as listed.\<close>

definition sorted_zones :: "frozen_fs \<Rightarrow> string list" where
  "sorted_zones fs = sort (filter (prefix zone_prefix) (ffs_names fs))"

definition sorted_millis :: "frozen_fs \<Rightarrow> string option \<Rightarrow> string \<Rightarrow> int list" where
  "sorted_millis fs substring base = List.map_filter (python_zone fs substring base) (sorted_zones fs)"

lemma sorted_millis_set: "set (sorted_millis fs substring base) = set (tree_millis fs substring base)"
  unfolding sorted_millis_def tree_millis_def sorted_zones_def map_filter_set by simp

lemma sorted_millis_length:
  "length (sorted_millis fs substring base) \<le> length (ffs_names fs)"
proof -
  have "length (sorted_millis fs substring base) \<le> length (sorted_zones fs)"
    by (simp add: sorted_millis_def List.map_filter_def)
  also have "\<dots> \<le> length (ffs_names fs)" by (simp add: sorted_zones_def)
  finally show ?thesis .
qed

lemma mean_zone_sample:
  assumes "\<forall>p \<in> set (temp_paths r). plausible fs p" and "aggregate r = ''mean''"
    and "length (frozen_readings fs r) < 2 ^ 53"
  shows "zone_reader_call frozen_ops r fs =
    (if frozen_readings fs r = [] then Inl RuntimeError
     else Inr (aggregate_of Aggregate_Mean (frozen_readings fs r)), fs)"
proof -
  let ?ms = "frozen_readings fs r"
  have "zone_samples frozen_ops (temp_paths r) fs = (Inr (map celsius ?ms), fs)"
    using zone_samples_frozen [OF assms(1)] by (simp add: frozen_readings_def)
  moreover have "int (length ?ms) < 2 ^ 53" using assms(3) by (metis of_nat_less_iff of_nat_numeral of_nat_power)
  then have n: "float_of_int (int (length ?ms)) = Inr (Fin (of_int (int (length ?ms))))"
    by (intro float_of_int_exact) simp
  then have "to_float (of_nat (length ?ms)) = Fin (of_int (int (length ?ms)))"
    by (auto simp: float_of_int_def split: pyfloat.splits)
  ultimately show ?thesis
    using assms(2) n by (auto simp: zone_reader_call_def prog_simps aggregate_of_def)
qed

lemma python_reading_kernel:
  assumes kt: "kernel_tree base fs" and mir: "mirrors base tree fs"
    and few: "kind = Aggregate_Mean \<Longrightarrow> length (ffs_names fs) < 2 ^ 53"
  shows "python_reading fs kind substring base =
    (if sorted_millis fs substring base = [] then Inl RuntimeError
     else Inr (aggregate_of kind (sorted_millis fs substring base)))"
proof -
  let ?zs = "filter (type_matches substring) (List.map_filter (frozen_zone fs [base]) (sorted_zones fs))"
  let ?r = "\<lparr>temp_paths = map temp_path ?zs, aggregate = aggregate_name kind\<rparr>"
  have "\<forall>name \<in> set (filter (prefix zone_prefix) (ffs_names fs)).
      ffs_files fs [base, name, ''type''] \<noteq> Some Undecodable"
    using kt by (auto simp: kernel_tree_def kernel_zone_def)
  then have scan: "list_thermal_zones frozen_ops [base] fs =
      (Inr (List.map_filter (frozen_zone fs [base]) (sorted_zones fs)), fs)"
    using mir scan_zones_frozen [of "sorted_zones fs" fs "[base]"]
    by (simp add: list_thermal_zones_def prog_simps mirrors_def sorted_zones_def)
  have readings: "frozen_readings fs ?r = sorted_millis fs substring base"
    using python_readings by (simp add: frozen_readings_def sorted_millis_def)
  have kind: "aggregate_name kind = ''max'' \<or> aggregate_name kind = ''mean''"
    by (cases kind) (simp_all add: aggregate_name_def)
  show ?thesis
  proof (cases "?zs = []")
    case True
    then have "frozen_readings fs ?r = []" by (simp add: frozen_readings_def List.map_filter_simps)
    with True kind readings show ?thesis
      by (auto simp: python_reading_def zone_reader_init_def prog_simps scan Let_def)
  next
    case False
    have ok: "\<forall>p \<in> set (temp_paths ?r). plausible fs p"
      using kernel_millis_bound [OF kt mir]
      by (auto simp: map_filter_set plausible_def sorted_zones_def split: option.split)
    have "zone_reader_call frozen_ops ?r fs =
        (if frozen_readings fs ?r = [] then Inl RuntimeError
         else Inr (aggregate_of kind (frozen_readings fs ?r)), fs)"
    proof (cases kind)
      case Aggregate_Max
      then show ?thesis using hottest_zone_sample [OF ok] by (simp add: aggregate_name_def aggregate_of_def)
    next
      case Aggregate_Mean
      have "length (frozen_readings fs ?r) < 2 ^ 53"
        using few [OF Aggregate_Mean] sorted_millis_length [of fs substring base] unfolding readings by linarith
      with mean_zone_sample [OF ok] show ?thesis by (simp add: Aggregate_Mean aggregate_name_def)
    qed
    with False kind readings show ?thesis
      by (auto simp: python_reading_def zone_reader_init_def prog_simps scan Let_def)
  qed
qed

lemma c_reading_kernel:
  assumes "kernel_tree (base_path config) fs" and "mirrors (base_path config) tree fs"
    and "zone_type_filter config = filter_of substring" and "ascii (filter_of substring)"
  shows "msp_thermal_reader_read config tree =
    (if tree_millis fs substring (base_path config) = [] then None
     else Some (to_single (aggregate_of (aggregate_kind config) (tree_millis fs substring (base_path config)))))"
proof -
  let ?ms = "List.map_filter (zone_reading config tree) (ffs_names fs)"
  have "zone_reading config tree name = None" if "\<not> prefix zone_prefix name" for name
    using that by (simp add: zone_reading_def prefix_take)
  then have "?ms = List.map_filter (zone_reading config tree) (filter (prefix zone_prefix) (ffs_names fs))"
    by (rule map_filter_filter)
  also have "\<dots> = tree_millis fs substring (base_path config)"
    unfolding tree_millis_def
    using zone_reading_agrees [OF assms(1-4)] by (intro map_filter_cong) simp
  finally have ms: "tree_millis fs substring (base_path config) = ?ms" ..
  moreover have "\<forall>m \<in> set (tree_millis fs substring (base_path config)). \<bar>m\<bar> \<le> 2 ^ 53"
    using kernel_millis_bound [OF assms(1,2)]
    by (auto simp: tree_millis_def map_filter_set python_zone_def split: option.splits if_splits)
  moreover have "dir_entries tree (base_path config) = Some (ffs_names fs)"
    using assms(2) by (simp add: mirrors_def)
  ultimately show ?thesis using read_aggregate [of tree config] by simp
qed

text \<open>
  The mean is a sum in double precision, whose rounding depends on the order: the daemon adds in
  the order of \<^verbatim>\<open>readdir\<close>, Python in the order of the names. The maximum does not depend on it.
\<close>

definition order_agrees :: "msp_thermal_aggregate \<Rightarrow> frozen_fs \<Rightarrow> bool" where
  "order_agrees kind fs \<longleftrightarrow>
     (kind = Aggregate_Mean \<longrightarrow>
        sorted (filter (prefix zone_prefix) (ffs_names fs)) \<and> length (ffs_names fs) < 2 ^ 53)"

lemma aggregate_order:
  assumes "order_agrees kind fs"
  shows "aggregate_of kind (sorted_millis fs substring base) = aggregate_of kind (tree_millis fs substring base)"
  using assms sorted_millis_set [of fs substring base]
  by (cases kind) (simp_all add: aggregate_of_def order_agrees_def sorted_millis_def tree_millis_def
    sorted_zones_def sort_key_id_if_sorted)

lemma python_reading_listed:
  assumes "kernel_tree base fs" and "mirrors base tree fs" and "order_agrees kind fs"
  shows "python_reading fs kind substring base =
    (if tree_millis fs substring base = [] then Inl RuntimeError
     else Inr (aggregate_of kind (tree_millis fs substring base)))"
proof -
  have "sorted_millis fs substring base = [] \<longleftrightarrow> tree_millis fs substring base = []"
    using sorted_millis_set [of fs substring base] by (metis set_empty)
  then show ?thesis
    using python_reading_kernel [OF assms(1,2), of kind substring] aggregate_order [OF assms(3)] assms(3)
    by (simp add: order_agrees_def)
qed

section \<open>Example trees\<close>

definition example_names :: "string list" where
  "example_names = [''thermal_zone7'', ''cooling_device0'', ''thermal_zone3'', ''thermal_zone0'']"

text \<open>Three zones, of which \<^verbatim>\<open>thermal_zone3\<close> has no type file.\<close>

definition example_sysfs :: sysfs where
  "example_sysfs =
     \<lparr>dir_entries = (\<lambda>d. if d = ''/t'' then Some example_names else None),
      file_bytes = map_of
        [(path_in (path_in ''/t'' ''thermal_zone7'') ''type'', ''x86_pkg_temp'' @ [CHR 0x0A]),
         (path_in (path_in ''/t'' ''thermal_zone7'') ''temp'', ''-5'' @ [CHR 0x0A]),
         (path_in (path_in ''/t'' ''thermal_zone3'') ''temp'', ''99000'' @ [CHR 0x0A]),
         (path_in (path_in ''/t'' ''thermal_zone0'') ''type'', ''acpitz'' @ [CHR 0x0A]),
         (path_in (path_in ''/t'' ''thermal_zone0'') ''temp'', ''45123'' @ [CHR 0x0A])]\<rparr>"

definition example_sysfs_python :: frozen_fs where
  "example_sysfs_python =
     \<lparr>ffs_dirs = [[''/t'']], ffs_names = example_names,
      ffs_files = map_of
        [([''/t'', ''thermal_zone7'', ''type''], Text (''x86_pkg_temp'' @ [CHR 0x0A])),
         ([''/t'', ''thermal_zone7'', ''temp''], Text (''-5'' @ [CHR 0x0A])),
         ([''/t'', ''thermal_zone3'', ''temp''], Text (''99000'' @ [CHR 0x0A])),
         ([''/t'', ''thermal_zone0'', ''type''], Text (''acpitz'' @ [CHR 0x0A])),
         ([''/t'', ''thermal_zone0'', ''temp''], Text (''45123'' @ [CHR 0x0A]))]\<rparr>"

definition example_config :: "string \<Rightarrow> reader_config" where
  "example_config needle =
     \<lparr>base_path = ''/t'', zone_type_filter = needle, aggregate_kind = Aggregate_Max\<rparr>"

lemma example_mirrors: "mirrors ''/t'' example_sysfs example_sysfs_python"
  by (simp add: mirrors_def example_sysfs_def example_sysfs_python_def example_names_def path_in_def)

lemma example_kernel_tree: "kernel_tree ''/t'' example_sysfs_python"
  unfolding kernel_tree_def by code_simp

text \<open>The same zones, listed in the order of their names, and a daemon that reports their mean.\<close>

definition listed_names :: "string list" where
  "listed_names = [''thermal_zone0'', ''thermal_zone3'', ''thermal_zone7'']"

definition listed_sysfs :: sysfs where
  "listed_sysfs = example_sysfs\<lparr>dir_entries := (\<lambda>d. if d = ''/t'' then Some listed_names else None)\<rparr>"

definition listed_sysfs_python :: frozen_fs where
  "listed_sysfs_python = example_sysfs_python\<lparr>ffs_names := listed_names\<rparr>"

definition mean_config :: reader_config where
  "mean_config = (example_config [])\<lparr>aggregate_kind := Aggregate_Mean\<rparr>"

lemma listed_mirrors: "mirrors ''/t'' listed_sysfs listed_sysfs_python"
  by (simp add: mirrors_def listed_sysfs_def listed_sysfs_python_def listed_names_def
      example_sysfs_def example_sysfs_python_def path_in_def)

lemma listed_kernel_tree: "kernel_tree ''/t'' listed_sysfs_python"
  unfolding kernel_tree_def by code_simp

lemma example_texts:
  "int_of_str ''0'' = Inr 0" "int_of_str ''3'' = Inr 3" "int_of_str ''7'' = Inr 7"
  "int_of_str (py_strip (''45123'' @ [CHR 0x0A])) = Inr 45123"
  "int_of_str (py_strip (''99000'' @ [CHR 0x0A])) = Inr 99000"
  "int_of_str (py_strip (''-5'' @ [CHR 0x0A])) = Inr (-5)"
  "py_strip (''acpitz'' @ [CHR 0x0A]) = ''acpitz''"
  "py_strip (''x86_pkg_temp'' @ [CHR 0x0A]) = ''x86_pkg_temp''"
  by (simp_all add: text_eval)

lemma example_matches:
  "py_contains (py_lower ''CPI'') (py_lower ''acpitz'')"
  "\<not> py_contains (py_lower ''CPI'') (py_lower ''x86_pkg_temp'')"
  "\<not> py_contains (py_lower ''CPI'') (py_lower ''unknown'')"
  "\<not> py_contains (py_lower ''know'') (py_lower ''acpitz'')"
  "\<not> py_contains (py_lower ''know'') (py_lower ''x86_pkg_temp'')"
  "py_contains (py_lower ''know'') (py_lower ''unknown'')"
  by code_simp+

lemma example_millis:
  "tree_millis example_sysfs_python (Some ''CPI'') ''/t'' = [45123]"
  "tree_millis example_sysfs_python (Some ''know'') ''/t'' = [99000]"
  using example_texts
  by (simp_all add: tree_millis_def python_zone_def frozen_zone_def frozen_zone_type_def type_matches_def
      zone_prefix_def unknown_type_def frozen_millis_def frozen_read_def example_sysfs_python_def
      example_names_def List.map_filter_simps example_matches)

lemma listed_millis: "tree_millis listed_sysfs_python None ''/t'' = [45123, 99000, -5]"
  using example_texts
  by (simp add: tree_millis_def python_zone_def frozen_zone_def type_matches_def
      zone_prefix_def frozen_millis_def frozen_read_def listed_sysfs_python_def listed_names_def
      example_sysfs_python_def List.map_filter_simps)

lemma example_orders:
  "order_agrees Aggregate_Max fs" "order_agrees Aggregate_Mean listed_sysfs_python"
proof -
  have "sorted listed_names" by code_simp
  then show "order_agrees Aggregate_Mean listed_sysfs_python"
    by (simp add: order_agrees_def listed_sysfs_python_def sorted_filter [of id, simplified])
      (simp add: listed_names_def)
qed (simp add: order_agrees_def)

section \<open>Properties\<close>

text \<open>
  C14. On a tree as the kernel writes it (\<open>kernel_tree\<close>: printable type lines, decimal numbers of at
  most 15 digits, paths that fit the buffers) and with an ASCII filter, the daemon's thermal reader
  and a Python reader with the same filter and the same aggregate agree, whichever zones are
  unreadable or filtered out: the C function returns the Python reader's temperature in single
  precision, and fails exactly when the Python reader raises its RuntimeError. With the maximum
  this holds for every order in which the directory is listed; with the mean the claim is for
  directories listed in the order of the names (\<open>order_agrees\<close>), in which Python adds.
\<close>

theorem thermal_readers_agree:
  assumes "kernel_tree (base_path config) fs" and "mirrors (base_path config) tree fs"
    and "zone_type_filter config = filter_of substring" and "ascii (filter_of substring)"
    and "order_agrees (aggregate_kind config) fs"
  shows "msp_thermal_reader_read config tree =
      (case python_reading fs (aggregate_kind config) substring (base_path config) of
         Inr t \<Rightarrow> Some (to_single t) | Inl _ \<Rightarrow> None)
    \<and> (\<forall>e. python_reading fs (aggregate_kind config) substring (base_path config) = Inl e \<longrightarrow> e = RuntimeError)"
  using c_reading_kernel [OF assms(1-4)] python_reading_listed [OF assms(1,2,5)] by simp

theorem thermal_readers_agree_witness:
  "msp_thermal_reader_read (example_config ''CPI'') example_sysfs = Some (to_single (celsius 45123)) \<and>
   msp_thermal_reader_read mean_config listed_sysfs =
     Some (to_single (aggregate_of Aggregate_Mean [45123, 99000, -5]))"
proof
  let ?c = "example_config ''CPI''"
  have c: "base_path ?c = ''/t''" "zone_type_filter ?c = filter_of (Some ''CPI'')"
    "aggregate_kind ?c = Aggregate_Max"
    by (simp_all add: example_config_def filter_of_def)
  have "ascii (filter_of (Some ''CPI''))" by (simp add: ascii_def filter_of_def ord_of_def)
  from thermal_readers_agree [OF _ _ c(2) this, unfolded c, OF example_kernel_tree example_mirrors example_orders(1)]
  show "msp_thermal_reader_read ?c example_sysfs = Some (to_single (celsius 45123))"
    by (simp add: python_reading_listed [OF example_kernel_tree example_mirrors example_orders(1)] example_millis
        aggregate_of_def)
next
  have c: "base_path mean_config = ''/t''" "zone_type_filter mean_config = filter_of None"
    "aggregate_kind mean_config = Aggregate_Mean"
    by (simp_all add: mean_config_def example_config_def filter_of_def)
  have "ascii (filter_of None)" by (simp add: ascii_def filter_of_def)
  from thermal_readers_agree [OF _ _ c(2) this, unfolded c, OF listed_kernel_tree listed_mirrors example_orders(2)]
  show "msp_thermal_reader_read mean_config listed_sysfs =
      Some (to_single (aggregate_of Aggregate_Mean [45123, 99000, -5]))"
    by (simp add: python_reading_listed [OF listed_kernel_tree listed_mirrors example_orders(2)] listed_millis)
qed

text \<open>
  A zone whose type file cannot be read is named "unknown", so that a filter which this word
  contains does select it.
\<close>

lemma unreadable_type_matches_filter:
  "msp_thermal_reader_read (example_config ''know'') example_sysfs = Some (to_single (celsius 99000))"
proof -
  let ?c = "example_config ''know''"
  have c: "base_path ?c = ''/t''" "zone_type_filter ?c = filter_of (Some ''know'')"
    "aggregate_kind ?c = Aggregate_Max"
    by (simp_all add: example_config_def filter_of_def)
  have "ascii (filter_of (Some ''know''))" by (simp add: ascii_def filter_of_def ord_of_def)
  from c_reading_kernel [OF _ _ c(2) this, unfolded c, OF example_kernel_tree example_mirrors]
  show ?thesis by (simp add: example_millis aggregate_of_def)
qed

text \<open>A corrupt temperature that starts with digits is read by \<^verbatim>\<open>fscanf\<close> and rejected by \<^verbatim>\<open>int\<close>.\<close>

lemma corrupt_temperature_read:
  "scanf_ld ''45 corrupt'' = Some 45" "int_of_str (py_strip ''45 corrupt'') = Inl ValueError"
  by (simp_all add: scanf_ld_def long_clamp_def c_isspace_def text_eval)

end
