(* ===== verification/WatchdogControl.thy ===== *)
theory WatchdogControl
  imports Telemetry
begin

text \<open>
  \<^verbatim>\<open>src/python/msp/watchdog_control.py\<close>: the violation policy, the telemetry probes, the entry
  point of the child process and the executor that polls telemetry while the child runs.

  What \<^verbatim>\<open>multiprocessing\<close> does is modelled by a child with a state (alive, exit code, signals it
  was sent, the message it will publish) and a schedule: the moves the child makes before each
  library call of the parent returns. Theorems for all schedules hold for all timings. A probe
  may raise, and may not return at all, so the polling loop is a partial function.
\<close>

section \<open>Policy\<close>

datatype fallback_reason = Telemetry_Error | Sram | Temperature | Security

record telemetry_reading =
  tr_temperature_c :: pyfloat
  tr_sram_usage_bytes :: int
  tr_security_violation :: bool
  tr_timestamp :: pyfloat

record violation_policy =
  temperature_threshold_c :: pyfloat
  sram_usage_threshold_bytes :: "int option"
  trigger_on_security_violation :: bool
  poll_interval_s :: pyfloat
  fail_safe_on_telemetry_error :: bool

definition default_policy :: violation_policy where
  "default_policy =
     \<lparr>temperature_threshold_c = Fin 85, sram_usage_threshold_bytes = None,
      trigger_on_security_violation = True, poll_interval_s = Fin (1 / 2),
      fail_safe_on_telemetry_error = True\<rparr>"

definition policy_post_init :: "violation_policy \<Rightarrow> violation_policy result" where
  "policy_post_init p =
     (if fle (poll_interval_s p) (Fin 0) then Inl ValueError
      else (case sram_usage_threshold_bytes p of
              None \<Rightarrow> Inr p
            | Some n \<Rightarrow> if n < 0 then Inl ValueError else Inr p))"

definition evaluate :: "violation_policy \<Rightarrow> telemetry_reading \<Rightarrow> fallback_reason option" where
  "evaluate p r =
     (if trigger_on_security_violation p \<and> tr_security_violation r then Some Security
      else if fgt (tr_temperature_c r) (temperature_threshold_c p) then Some Temperature
      else (case sram_usage_threshold_bytes p of
              None \<Rightarrow> None
            | Some n \<Rightarrow> if n < tr_sram_usage_bytes r then Some Sram else None))"

section \<open>Probes\<close>

type_synonym 's probe = "'s \<Rightarrow> (telemetry_reading result \<times> 's) option"

definition stamp :: "'s clock \<Rightarrow> telemetry result \<times> 's \<Rightarrow> telemetry_reading result \<times> 's" where
  "stamp clock = (\<lambda>(r, s).
     case r of
       Inl e \<Rightarrow> (Inl e, s)
     | Inr (t, m, v) \<Rightarrow>
         (let (now, s') = clock s
          in (Inr \<lparr>tr_temperature_c = t, tr_sram_usage_bytes = m, tr_security_violation = v,
                   tr_timestamp = now\<rparr>, s')))"

definition telemetry_probe_from_watchdog_socket :: "'s socket_ops \<Rightarrow> 's clock \<Rightarrow> 's probe" where
  "telemetry_probe_from_watchdog_socket ops clock s = map_option (stamp clock) (read_full ops s)"

definition telemetry_probe_from_reader :: "'s reader \<Rightarrow> 's clock \<Rightarrow> 's probe" where
  "telemetry_probe_from_reader rd clock s =
     Some (stamp clock (sbind rd (\<lambda>t. sret (t, 0, False)) s))"

section \<open>The child\<close>

text \<open>
  What the target does: return a value or raise an exception (its type's name, message and
  traceback, and whether its class is below \<^verbatim>\<open>Exception\<close>).
\<close>

record raised =
  type_name :: string
  exc_message :: string
  exc_traceback :: string
  below_exception :: bool

datatype 'p message = Ok_Message 'p | Error_Message string string string

text \<open>\<open>dumps\<close> is \<^verbatim>\<open>pickle.dumps\<close>; the result is what is put on the queue, if anything.\<close>

definition child_entrypoint :: "('v \<Rightarrow> raised + 'p) \<Rightarrow> raised + 'v \<Rightarrow> 'p message option" where
  "child_entrypoint dumps outcome =
     (case outcome of
        Inl exc \<Rightarrow>
          if below_exception exc
          then Some (Error_Message (type_name exc) (exc_message exc) (exc_traceback exc)) else None
      | Inr v \<Rightarrow>
          (case dumps v of
             Inl exc \<Rightarrow>
               if below_exception exc
               then Some (Error_Message ''PicklingError''
                      (''return value could not be pickled: '' @ exc_message exc) (exc_traceback exc))
               else None
           | Inr payload \<Rightarrow> Some (Ok_Message payload)))"

section \<open>Processes and queues\<close>

record ('s, 'p) guard_world =
  env :: 's
  outbox :: "'p message option"
  queue :: "'p message list"
  alive :: bool
  exit_code :: "int option"
  term_sent :: bool
  kill_sent :: bool
  queue_closed :: bool
  calls :: nat

datatype child_move = Publish | Exit int | Obey_Term | Obey_Kill

type_synonym schedule = "nat \<Rightarrow> child_move list"

definition die :: "int \<Rightarrow> ('s, 'p) guard_world \<Rightarrow> ('s, 'p) guard_world" where
  "die c w = w\<lparr>alive := False, exit_code := Some c\<rparr>"

fun child_step :: "child_move \<Rightarrow> ('s, 'p) guard_world \<Rightarrow> ('s, 'p) guard_world" where
  "child_step Publish w =
     (if alive w then (case outbox w of None \<Rightarrow> w | Some m \<Rightarrow> w\<lparr>queue := queue w @ [m], outbox := None\<rparr>)
      else w)"
| "child_step (Exit c) w = (if alive w then die c w else w)"
| "child_step Obey_Term w = (if alive w \<and> term_sent w then die (- 15) w else w)"
| "child_step Obey_Kill w = (if alive w \<and> kill_sent w then die (- 9) w else w)"

definition child_runs :: "schedule \<Rightarrow> ('s, 'p) guard_world \<Rightarrow> ('s, 'p) guard_world" where
  "child_runs sched w = (fold child_step (sched (calls w)) w)\<lparr>calls := calls w + 1\<rparr>"

text \<open>\<^verbatim>\<open>queue.get\<close> with a timeout or without waiting; None is the exception \<^verbatim>\<open>queue.Empty\<close>.\<close>

definition queue_get :: "schedule \<Rightarrow> ('s, 'p) guard_world \<Rightarrow> 'p message option \<times> ('s, 'p) guard_world" where
  "queue_get sched w =
     (let w = child_runs sched w
      in case queue w of [] \<Rightarrow> (None, w) | m # ms \<Rightarrow> (Some m, w\<lparr>queue := ms\<rparr>))"

definition is_alive :: "schedule \<Rightarrow> ('s, 'p) guard_world \<Rightarrow> bool \<times> ('s, 'p) guard_world" where
  "is_alive sched w = (let w = child_runs sched w in (alive w, w))"

definition send_term :: "('s, 'p) guard_world \<Rightarrow> ('s, 'p) guard_world" where
  "send_term w = w\<lparr>term_sent := True\<rparr>"

definition send_kill :: "('s, 'p) guard_world \<Rightarrow> ('s, 'p) guard_world" where
  "send_kill w = w\<lparr>kill_sent := True\<rparr>"

text \<open>\<^verbatim>\<open>child.exitcode\<close>, which polls the child too.\<close>

definition child_exitcode :: "schedule \<Rightarrow> ('s, 'p) guard_world \<Rightarrow> int option \<times> ('s, 'p) guard_world" where
  "child_exitcode sched w = (let w = child_runs sched w in (exit_code w, w))"

definition join_child :: "schedule \<Rightarrow> ('s, 'p) guard_world \<Rightarrow> ('s, 'p) guard_world" where
  "join_child sched w = child_runs sched w"

section \<open>The executor\<close>

record 's executor =
  telemetry_source :: "'s probe"
  policy :: violation_policy

definition executor_init :: "'s probe \<Rightarrow> violation_policy option \<Rightarrow> 's executor" where
  "executor_init src p =
     \<lparr>telemetry_source = src, policy = (case p of None \<Rightarrow> default_policy | Some q \<Rightarrow> q)\<rparr>"

definition terminate_child :: "schedule \<Rightarrow> ('s, 'p) guard_world \<Rightarrow> ('s, 'p) guard_world" where
  "terminate_child sched w =
     (case is_alive sched w of
        (False, w1) \<Rightarrow> w1
      | (True, w1) \<Rightarrow>
          (case is_alive sched (join_child sched (send_term w1)) of
             (False, w2) \<Rightarrow> w2
           | (True, w2) \<Rightarrow> join_child sched (send_kill w2)))"

text \<open>How the polling loop ends: with or without a message, by a fallback, or by an exception of
  the probe that is not below \<^verbatim>\<open>Exception\<close>.\<close>

datatype 'p loop_end =
    Got "'p message option"
  | Fallback fallback_reason telemetry_reading "py_error option"
  | Escaped py_error

text \<open>One round: it ends the loop or goes on; None is a probe that does not return.\<close>

definition poll_round ::
  "schedule \<Rightarrow> 's clock \<Rightarrow> 's executor \<Rightarrow> ('s, 'p) guard_world \<Rightarrow>
   (('p loop_end \<times> ('s, 'p) guard_world) + ('s, 'p) guard_world) option" where
  "poll_round sched clock ex w =
     (case queue_get sched w of
        (Some m, w1) \<Rightarrow> Some (Inl (Got (Some m), w1))
      | (None, w1) \<Rightarrow>
          (case is_alive sched w1 of
             (False, w2) \<Rightarrow> (case queue_get sched w2 of (r, w3) \<Rightarrow> Some (Inl (Got r, w3)))
           | (True, w2) \<Rightarrow>
               (case telemetry_source ex (env w2) of
                  None \<Rightarrow> None
                | Some (Inl e, s) \<Rightarrow>
                    if \<not> is_exception e then Some (Inl (Escaped e, w2\<lparr>env := s\<rparr>))
                    else if \<not> fail_safe_on_telemetry_error (policy ex) then Some (Inr (w2\<lparr>env := s\<rparr>))
                    else
                      (case clock s of (now, s') \<Rightarrow>
                         Some (Inl (Fallback Telemetry_Error
                           \<lparr>tr_temperature_c = PInf, tr_sram_usage_bytes = 0,
                            tr_security_violation = False, tr_timestamp = now\<rparr> (Some e),
                           w2\<lparr>env := s'\<rparr>)))
                | Some (Inr reading, s) \<Rightarrow>
                    (case evaluate (policy ex) reading of
                       None \<Rightarrow> Some (Inr (w2\<lparr>env := s\<rparr>))
                     | Some reason \<Rightarrow> Some (Inl (Fallback reason reading None, w2\<lparr>env := s\<rparr>))))))"

partial_function (option) poll_loop ::
  "schedule \<Rightarrow> 's clock \<Rightarrow> 's executor \<Rightarrow> ('s, 'p) guard_world \<Rightarrow>
   ('p loop_end \<times> ('s, 'p) guard_world) option" where
  "poll_loop sched clock ex w =
     (case poll_round sched clock ex w of
        None \<Rightarrow> None
      | Some (Inl r) \<Rightarrow> Some r
      | Some (Inr w') \<Rightarrow> poll_loop sched clock ex w')"

declare poll_loop.simps [simp del]

datatype guarded_error =
    Guarded_Process_Error string string string
  | No_Result "int option"
  | Probe_Failed py_error

record 'v run_result =
  completed :: bool
  fallback_triggered :: bool
  fallback_reason :: "fallback_reason option"
  violation_telemetry :: "telemetry_reading option"
  return_value :: "'v option"
  run_exception :: "guarded_error option"
  elapsed_s :: pyfloat

definition elapsed_since :: "pyfloat \<Rightarrow> 's clock \<Rightarrow> ('s, 'p) guard_world \<Rightarrow> pyfloat \<times> ('s, 'p) guard_world" where
  "elapsed_since t0 clock w = (case clock (env w) of (now, s) \<Rightarrow> (fsub now t0, w\<lparr>env := s\<rparr>))"

text \<open>After the loop; \<open>loads\<close> is \<^verbatim>\<open>pickle.loads\<close>, which may raise.\<close>

definition conclude ::
  "('p \<Rightarrow> 'v result) \<Rightarrow> schedule \<Rightarrow> 's clock \<Rightarrow> pyfloat \<Rightarrow> 'p loop_end \<Rightarrow>
   (('s, 'p) guard_world, 'v run_result) prog" where
  "conclude loads sched clock t0 r w =
     (case r of
        Escaped e \<Rightarrow> (Inl e, w)
      | Fallback reason reading err \<Rightarrow>
          (case elapsed_since t0 clock (terminate_child sched w) of (dt, w') \<Rightarrow>
             (Inr \<lparr>completed = False, fallback_triggered = True, fallback_reason = Some reason,
                   violation_telemetry = Some reading, return_value = None,
                   run_exception = map_option Probe_Failed err, elapsed_s = dt\<rparr>, w'))
      | Got child_result \<Rightarrow>
          (case (case child_result of None \<Rightarrow> queue_get sched w | Some m \<Rightarrow> (Some m, w)) of (child_result, w1) \<Rightarrow>
           case elapsed_since t0 clock (terminate_child sched w1) of (dt, w2) \<Rightarrow>
             (case child_result of
                None \<Rightarrow>
                  (case child_exitcode sched w2 of (code, w3) \<Rightarrow>
                    (Inr \<lparr>completed = False, fallback_triggered = False, fallback_reason = None,
                          violation_telemetry = None, return_value = None,
                          run_exception = Some (No_Result code), elapsed_s = dt\<rparr>, w3))
              | Some (Ok_Message payload) \<Rightarrow>
                  (case loads payload of
                     Inl e \<Rightarrow> (Inl e, w2)
                   | Inr v \<Rightarrow>
                       (Inr \<lparr>completed = True, fallback_triggered = False, fallback_reason = None,
                             violation_telemetry = None, return_value = Some v,
                             run_exception = None, elapsed_s = dt\<rparr>, w2))
              | Some (Error_Message ty msg tb) \<Rightarrow>
                  (Inr \<lparr>completed = True, fallback_triggered = False, fallback_reason = None,
                        violation_telemetry = None, return_value = None,
                        run_exception = Some (Guarded_Process_Error ty msg tb), elapsed_s = dt\<rparr>, w2))))"

definition run_finally :: "schedule \<Rightarrow> ('s, 'p) guard_world \<Rightarrow> ('s, 'p) guard_world" where
  "run_finally sched w =
     (case is_alive sched w of
        (True, w1) \<Rightarrow> join_child sched (send_kill w1)
      | (False, w1) \<Rightarrow> w1)\<lparr>queue_closed := True\<rparr>"

text \<open>The world once the child was started, with the message it is going to publish.\<close>

definition started :: "'s \<Rightarrow> 'p message option \<Rightarrow> ('s, 'p) guard_world" where
  "started s m =
     \<lparr>env = s, outbox = m, queue = [], alive = True, exit_code = None, term_sent = False,
      kill_sent = False, queue_closed = False, calls = 0\<rparr>"

text \<open>\<open>spawn\<close> is what starting the child raises, if anything; the child does not exist then.\<close>

definition run ::
  "('p \<Rightarrow> 'v result) \<Rightarrow> schedule \<Rightarrow> 's clock \<Rightarrow> 's executor \<Rightarrow> unit result \<Rightarrow> 'p message option \<Rightarrow>
   's \<Rightarrow> ('v run_result result \<times> ('s, 'p) guard_world option) option" where
  "run loads sched clock ex spawn m s =
     (case clock s of (t0, s1) \<Rightarrow>
        (case spawn of
           Inl e \<Rightarrow> Some (Inl e, None)
         | Inr _ \<Rightarrow>
             map_option (\<lambda>(r, w). case conclude loads sched clock t0 r w of
                 (res, w') \<Rightarrow> (res, Some (run_finally sched w')))
               (poll_loop sched clock ex (started s1 m))))"

definition raise_if_error :: "'v run_result \<Rightarrow> guarded_error + unit" where
  "raise_if_error r = (case run_exception r of None \<Rightarrow> Inr () | Some e \<Rightarrow> Inl e)"

section \<open>Severity\<close>

fun severity :: "fallback_reason \<Rightarrow> nat" where
  "severity Telemetry_Error = 0"
| "severity Sram = 1"
| "severity Temperature = 2"
| "severity Security = 3"

instantiation fallback_reason :: linorder
begin

definition less_eq_fallback_reason :: "fallback_reason \<Rightarrow> fallback_reason \<Rightarrow> bool" where
  "less_eq_fallback_reason a b \<longleftrightarrow> severity a \<le> severity b"

definition less_fallback_reason :: "fallback_reason \<Rightarrow> fallback_reason \<Rightarrow> bool" where
  "less_fallback_reason a b \<longleftrightarrow> severity a < severity b"

instance
proof
  fix a b :: fallback_reason
  show "a \<le> b \<Longrightarrow> b \<le> a \<Longrightarrow> a = b"
    by (cases a; cases b) (simp_all add: less_eq_fallback_reason_def)
qed (auto simp: less_eq_fallback_reason_def less_fallback_reason_def)

end

text \<open>The conditions of a policy, each on its own.\<close>

fun violated :: "violation_policy \<Rightarrow> telemetry_reading \<Rightarrow> fallback_reason \<Rightarrow> bool" where
  "violated p r Security \<longleftrightarrow> trigger_on_security_violation p \<and> tr_security_violation r"
| "violated p r Temperature \<longleftrightarrow> fgt (tr_temperature_c r) (temperature_threshold_c p)"
| "violated p r Sram \<longleftrightarrow> (\<exists>n. sram_usage_threshold_bytes p = Some n \<and> n < tr_sram_usage_bytes r)"
| "violated p r Telemetry_Error \<longleftrightarrow> False"

lemma evaluate_Some: "evaluate p r = Some x \<Longrightarrow> violated p r x \<and> (\<forall>y. violated p r y \<longrightarrow> y \<le> x)"
proof -
  assume e: "evaluate p r = Some x"
  have "violated p r y \<Longrightarrow> y \<le> x" for y
    using e by (cases y) (auto simp: evaluate_def less_eq_fallback_reason_def split: if_splits option.splits)
  then show ?thesis using e by (auto simp: evaluate_def split: if_splits option.splits)
qed

lemma evaluate_None: "evaluate p r = None \<Longrightarrow> \<not> violated p r y"
  by (cases y) (auto simp: evaluate_def split: if_splits option.splits)

lemma evaluate_not_error [simp]: "evaluate p r \<noteq> Some Telemetry_Error"
  using evaluate_Some [of p r Telemetry_Error] by auto

section \<open>Lemmas about the child\<close>

lemma child_step_keeps [simp]:
  "env (child_step mv w) = env w" "term_sent (child_step mv w) = term_sent w"
  "kill_sent (child_step mv w) = kill_sent w" "queue_closed (child_step mv w) = queue_closed w"
  "calls (child_step mv w) = calls w"
  by (cases mv; simp add: die_def split: option.split)+

lemma fold_child_step_keeps [simp]:
  "env (fold child_step ms w) = env w" "term_sent (fold child_step ms w) = term_sent w"
  "kill_sent (fold child_step ms w) = kill_sent w" "queue_closed (fold child_step ms w) = queue_closed w"
  "calls (fold child_step ms w) = calls w"
  by (induction ms arbitrary: w) simp_all

lemma child_runs_keeps [simp]:
  "env (child_runs sched w) = env w" "term_sent (child_runs sched w) = term_sent w"
  "kill_sent (child_runs sched w) = kill_sent w" "queue_closed (child_runs sched w) = queue_closed w"
  "calls (child_runs sched w) = Suc (calls w)"
  by (simp_all add: child_runs_def)

lemma child_step_alive: "alive (child_step mv w) \<Longrightarrow> alive w"
  by (cases mv) (auto simp: die_def split: if_splits option.splits)

lemma fold_child_step_alive: "alive (fold child_step ms w) \<Longrightarrow> alive w"
  by (induction ms arbitrary: w) (auto dest: child_step_alive)

lemma child_runs_alive: "alive (child_runs sched w) \<Longrightarrow> alive w"
  by (auto simp: child_runs_def dest: fold_child_step_alive)

lemma fold_child_step_dies:
  fixes w :: "('s, 'p) guard_world"
  assumes "mv \<in> set ms" and "\<And>w' :: ('s, 'p) guard_world. kill_sent w' = kill_sent w \<Longrightarrow> \<not> alive (child_step mv w')"
  shows "\<not> alive (fold child_step ms w)"
  using assms
proof (induction ms arbitrary: w)
  case (Cons m ms)
  show ?case
  proof (cases "mv = m")
    case True
    then have "\<not> alive (child_step m w)" using Cons.prems(2) [of w] by simp
    then show ?thesis using fold_child_step_alive by (metis fold_simps(2))
  next
    case False
    then have "\<not> alive (fold child_step ms (child_step m w))"
      using Cons.prems by (intro Cons.IH) auto
    then show ?thesis by simp
  qed
qed simp

lemma exit_kills: "Exit c \<in> set (sched (calls w)) \<Longrightarrow> \<not> alive (child_runs sched w)"
  unfolding child_runs_def by simp (rule fold_child_step_dies, assumption, simp add: die_def)

lemma kill_kills: "Obey_Kill \<in> set (sched (calls w)) \<Longrightarrow> kill_sent w \<Longrightarrow> \<not> alive (child_runs sched w)"
  unfolding child_runs_def by simp (rule fold_child_step_dies, assumption, auto simp: die_def)

text \<open>The message that the parent can get is the one the child was going to publish.\<close>

definition only_message :: "'p message option \<Rightarrow> ('s, 'p) guard_world \<Rightarrow> bool" where
  "only_message m w \<longleftrightarrow> (outbox w = None \<or> outbox w = m) \<and> (\<forall>x \<in> set (queue w). m = Some x)"

lemma child_step_message: "only_message m w \<Longrightarrow> only_message m (child_step mv w)"
  by (cases mv) (auto simp: only_message_def die_def split: option.split)

lemma fold_child_step_message: "only_message m w \<Longrightarrow> only_message m (fold child_step ms w)"
  by (induction ms arbitrary: w) (auto intro: child_step_message)

lemma child_runs_message: "only_message m w \<Longrightarrow> only_message m (child_runs sched w)"
  using fold_child_step_message [of m w "sched (calls w)"]
  by (simp add: child_runs_def only_message_def)

lemma queue_get_message:
  assumes "only_message m w" and "queue_get sched w = (r, w')"
  shows "only_message m w' \<and> (\<forall>x. r = Some x \<longrightarrow> m = Some x)"
  using child_runs_message [OF assms(1), of sched] assms(2)
  by (auto simp: queue_get_def Let_def only_message_def split: list.splits)

text \<open>What the parent's calls leave alone.\<close>

lemma queue_get_keeps:
  "queue_get sched w = (r, w') \<Longrightarrow> term_sent w' = term_sent w \<and> kill_sent w' = kill_sent w \<and>
     queue_closed w' = queue_closed w \<and> env w' = env w \<and> calls w' = Suc (calls w) \<and> (alive w' \<longrightarrow> alive w)"
  by (auto simp: queue_get_def Let_def split: list.splits dest: child_runs_alive)

lemma is_alive_keeps:
  "is_alive sched w = (b, w') \<Longrightarrow> w' = child_runs sched w \<and> b = alive w'"
  by (auto simp: is_alive_def Let_def)

section \<open>The polling loop\<close>

inductive polls ::
  "schedule \<Rightarrow> 's clock \<Rightarrow> 's executor \<Rightarrow> ('s, 'p) guard_world \<Rightarrow> ('s, 'p) guard_world \<Rightarrow> bool"
  for sched clock ex where
  here: "polls sched clock ex w w"
| again: "poll_round sched clock ex w = Some (Inr w1) \<Longrightarrow> polls sched clock ex w1 w2 \<Longrightarrow>
    polls sched clock ex w w2"

inductive_cases pollsE: "polls sched clock ex w w'"

text \<open>The loop returns exactly what a round that ends it, after rounds that go on, returns.\<close>

lemma poll_loop_ends:
  assumes "polls sched clock ex w w1" and "poll_round sched clock ex w1 = Some (Inl r)"
  shows "poll_loop sched clock ex w = Some r"
  using assms
proof (induction rule: polls.induct)
  case (here w)
  then show ?case by (subst poll_loop.simps) simp
next
  case (again w w1 w2)
  have "poll_loop sched clock ex w = poll_loop sched clock ex w1"
    using again.hyps(1) by (subst poll_loop.simps) simp
  with again show ?case by simp
qed

lemma poll_loop_rounds:
  assumes "poll_loop sched clock ex w = Some r"
  shows "\<exists>w1. polls sched clock ex w w1 \<and> poll_round sched clock ex w1 = Some (Inl r)"
  using assms
proof (induction rule: poll_loop.raw_induct [rotated, consumes 1, case_names 1])
  case (1 loop sched clock ex w r)
  then obtain x where x: "poll_round sched clock ex w = Some x" by (auto split: option.splits)
  show ?case
  proof (cases x)
    case (Inl y)
    with 1 x show ?thesis by (auto intro: polls.here)
  next
    case (Inr w')
    with 1(2) x have "loop sched clock ex w' = Some r" by simp
    from 1(1) [OF this] obtain w1 where "polls sched clock ex w' w1"
      and r: "poll_round sched clock ex w1 = Some (Inl r)" by blast
    then have "polls sched clock ex w w1" using polls.again x Inr by blast
    with r show ?thesis by blast
  qed
qed

text \<open>What every round keeps while the loop goes on.\<close>

definition polling :: "'p message option \<Rightarrow> ('s, 'p) guard_world \<Rightarrow> bool" where
  "polling m w \<longleftrightarrow> only_message m w \<and> \<not> term_sent w \<and> \<not> kill_sent w \<and> \<not> queue_closed w"

lemma polling_started: "polling m (started s m)"
  by (simp add: polling_def started_def only_message_def)

lemma polling_env [simp]: "polling m (w\<lparr>env := s\<rparr>) = polling m w"
  by (simp add: polling_def only_message_def)

lemma polling_queue_get: "polling m w \<Longrightarrow> queue_get sched w = (r, w') \<Longrightarrow> polling m w'"
  using queue_get_message queue_get_keeps by (metis polling_def)

lemma polling_runs: "polling m w \<Longrightarrow> polling m (child_runs sched w)"
  by (simp add: polling_def child_runs_message)

lemmas round_splits =
  prod.splits option.splits sum.splits bool.splits if_splits

lemma poll_round_polling:
  assumes "polling m w" and "poll_round sched clock ex w = Some r"
  shows "case r of Inl (l, w') \<Rightarrow> polling m w' | Inr w' \<Rightarrow> polling m w'"
proof -
  obtain q w1 where q: "queue_get sched w = (q, w1)" by fastforce
  have p1: "polling m w1" by (rule polling_queue_get [OF assms(1) q])
  have p2: "polling m (child_runs sched w1)" by (rule polling_runs [OF p1])
  obtain q' w3 where q': "queue_get sched (child_runs sched w1) = (q', w3)" by fastforce
  have p3: "polling m w3" by (rule polling_queue_get [OF p2 q'])
  show ?thesis using assms(2) p1 p2 p3
    by (auto simp: poll_round_def q is_alive_def Let_def q' split: round_splits)
qed

lemma polls_polling: "polls sched clock ex w w' \<Longrightarrow> polling m w \<Longrightarrow> polling m w'"
  by (induction rule: polls.induct) (auto dest: poll_round_polling)

text \<open>How a round can end the loop.\<close>

lemma poll_round_got:
  assumes "polling m w" and "poll_round sched clock ex w = Some (Inl (Got r, w'))"
  shows "(\<forall>x. r = Some x \<longrightarrow> m = Some x) \<and> (r = None \<longrightarrow> \<not> alive w')"
proof -
  obtain q w1 where q: "queue_get sched w = (q, w1)" by fastforce
  have om: "only_message m w" using assms(1) by (simp add: polling_def)
  note m1 = queue_get_message [OF om q]
  have om2: "only_message m (child_runs sched w1)" using m1 by (simp add: child_runs_message)
  obtain q' w3 where q': "queue_get sched (child_runs sched w1) = (q', w3)" by fastforce
  note m3 = queue_get_message [OF om2 q'] queue_get_keeps [OF q']
  show ?thesis using assms(2) m1 m3
    by (auto simp: poll_round_def q is_alive_def Let_def q' split: round_splits)
qed

lemma poll_round_fallback:
  assumes "poll_round sched clock ex w = Some (Inl (Fallback reason reading err, w'))"
  shows "(\<exists>s s'. telemetry_source ex s = Some (Inr reading, s') \<and> evaluate (policy ex) reading = Some reason \<and> err = None) \<or>
    (\<exists>s e s'. telemetry_source ex s = Some (Inl e, s') \<and> is_exception e \<and> err = Some e \<and>
       reason = Telemetry_Error \<and> fail_safe_on_telemetry_error (policy ex) \<and> tr_temperature_c reading = PInf)"
  using assms
  by (auto simp: poll_round_def is_alive_def Let_def split: round_splits) blast+

lemma poll_round_escaped:
  assumes "poll_round sched clock ex w = Some (Inl (Escaped e, w'))"
  shows "\<not> is_exception e"
  using assms by (auto simp: poll_round_def is_alive_def Let_def split: round_splits)

section \<open>After the loop\<close>

lemma terminate_child_facts:
  assumes "terminate_child sched w = w'"
  shows "(alive w' \<longrightarrow> term_sent w' \<and> kill_sent w') \<and> (kill_sent w' \<longrightarrow> kill_sent w \<or> term_sent w') \<and>
    queue_closed w' = queue_closed w"
  using assms
  by (auto simp: terminate_child_def is_alive_def Let_def join_child_def send_term_def send_kill_def
      split: prod.splits bool.splits dest: child_runs_alive)

lemma elapsed_since_keeps:
  "elapsed_since t0 clock w = (dt, w') \<Longrightarrow> alive w' = alive w \<and> kill_sent w' = kill_sent w \<and>
     term_sent w' = term_sent w \<and> queue_closed w' = queue_closed w \<and> exit_code w' = exit_code w"
  by (auto simp: elapsed_since_def split: prod.splits)

text \<open>What \<open>run\<close> returns comes from a round that ended the loop.\<close>

lemma run_cases:
  assumes "run loads sched clock ex spawn m s = Some (r, Some w')"
  obtains w1 l w2 w3 where "polling m w1" "poll_round sched clock ex w1 = Some (Inl (l, w2))" "polling m w2"
    "conclude loads sched clock (fst (clock s)) l w2 = (r, w3)" "w' = run_finally sched w3"
proof -
  have "spawn = Inr ()" using assms by (cases spawn) (auto simp: run_def split: prod.splits)
  then obtain l w2 where l2: "poll_loop sched clock ex (started (snd (clock s)) m) = Some (l, w2)"
    using assms by (auto simp: run_def split_beta)
  obtain r3 w3 where "conclude loads sched clock (fst (clock s)) l w2 = (r3, w3)" by fastforce
  with l2 assms \<open>spawn = Inr ()\<close>
  have l: "poll_loop sched clock ex (started (snd (clock s)) m) = Some (l, w2)"
    "conclude loads sched clock (fst (clock s)) l w2 = (r, w3)" "w' = run_finally sched w3"
    by (simp_all add: run_def split_beta)
  obtain w1 where w1: "polls sched clock ex (started (snd (clock s)) m) w1"
    "poll_round sched clock ex w1 = Some (Inl (l, w2))"
    using poll_loop_rounds [OF l(1)] by blast
  have p1: "polling m w1" by (rule polls_polling [OF w1(1) polling_started])
  have "polling m w2" using poll_round_polling [OF p1 w1(2)] by simp
  with that p1 w1(2) l(2,3) show thesis by blast
qed

text \<open>The three results of \<open>conclude\<close>.\<close>

lemma conclude_fallback:
  "conclude loads sched clock t0 (Fallback reason reading err) w = (r, w') \<Longrightarrow>
   \<exists>dt. r = Inr \<lparr>completed = False, fallback_triggered = True, fallback_reason = Some reason,
       violation_telemetry = Some reading, return_value = None,
       run_exception = map_option Probe_Failed err, elapsed_s = dt\<rparr> \<and>
     (alive w' \<longrightarrow> term_sent w' \<and> kill_sent w') \<and> (kill_sent w' \<longrightarrow> kill_sent w \<or> term_sent w')"
  using terminate_child_facts [OF refl, of sched w]
  by (auto simp: conclude_def split: prod.splits dest!: elapsed_since_keeps)

lemma conclude_got:
  assumes "polling m w" and "\<forall>x. got = Some x \<longrightarrow> m = Some x"
    and "conclude loads sched clock t0 (Got got) w = (r, w')"
  shows "(\<exists>dt code. r = Inr \<lparr>completed = False, fallback_triggered = False, fallback_reason = None,
        violation_telemetry = None, return_value = None, run_exception = Some (No_Result code),
        elapsed_s = dt\<rparr>) \<or>
    (\<exists>payload. m = Some (Ok_Message payload) \<and>
       ((\<exists>e. loads payload = Inl e \<and> r = Inl e) \<or>
        (\<exists>v dt. loads payload = Inr v \<and>
           r = Inr \<lparr>completed = True, fallback_triggered = False, fallback_reason = None,
             violation_telemetry = None, return_value = Some v, run_exception = None, elapsed_s = dt\<rparr>))) \<or>
    (\<exists>ty msg tb dt. m = Some (Error_Message ty msg tb) \<and>
       r = Inr \<lparr>completed = True, fallback_triggered = False, fallback_reason = None,
         violation_telemetry = None, return_value = None,
         run_exception = Some (Guarded_Process_Error ty msg tb), elapsed_s = dt\<rparr>)"
proof -
  obtain c w1 where c: "(case got of None \<Rightarrow> queue_get sched w | Some x \<Rightarrow> (Some x, w)) = (c, w1)" by fastforce
  obtain dt w2 where dt: "elapsed_since t0 clock (terminate_child sched w1) = (dt, w2)" by fastforce
  have m: "\<forall>x. c = Some x \<longrightarrow> m = Some x"
    using c assms(1,2) queue_get_message [of m w sched c w1]
    by (cases got) (auto simp: polling_def)
  obtain code w3 where code: "child_exitcode sched w2 = (code, w3)" by fastforce
  show ?thesis
  proof (cases c)
    case None
    with assms(3) show ?thesis by (intro disjI1) (auto simp: conclude_def c dt code)
  next
    case (Some x)
    with m have mx: "m = Some x" by simp
    show ?thesis
    proof (cases x)
      case (Ok_Message payload)
      with assms(3) Some mx show ?thesis
        by (cases "loads payload") (auto simp: conclude_def c dt)
    next
      case (Error_Message ty msg tb)
      with assms(3) Some mx show ?thesis by (auto simp: conclude_def c dt)
    qed
  qed
qed

lemma run_finally_facts:
  "run_finally sched w = w' \<Longrightarrow> queue_closed w' \<and> (alive w' \<longrightarrow> kill_sent w') \<and>
     (kill_sent w' \<longrightarrow> kill_sent w \<or> alive w) \<and>
     ((\<forall>i. Obey_Kill \<in> set (sched i)) \<longrightarrow> \<not> alive w') \<and> term_sent w' = term_sent w \<and> (alive w' \<longrightarrow> alive w)"
  using kill_kills [of sched "send_kill (child_runs sched w)"]
  by (auto simp: run_finally_def is_alive_def Let_def join_child_def send_kill_def
      split: prod.splits bool.splits dest: child_runs_alive)

text \<open>The results of a run, with what is known in each case.\<close>

lemma run_result_cases:
  assumes "run loads sched clock ex spawn m s = Some (Inr res, Some w')"
  obtains (no_result) dt code where "res = \<lparr>completed = False, fallback_triggered = False,
      fallback_reason = None, violation_telemetry = None, return_value = None,
      run_exception = Some (No_Result code), elapsed_s = dt\<rparr>"
  | (returned) payload v dt where "m = Some (Ok_Message payload)" "loads payload = Inr v"
      "res = \<lparr>completed = True, fallback_triggered = False, fallback_reason = None,
        violation_telemetry = None, return_value = Some v, run_exception = None, elapsed_s = dt\<rparr>"
  | (target_raised) ty msg tb dt where "m = Some (Error_Message ty msg tb)"
      "res = \<lparr>completed = True, fallback_triggered = False, fallback_reason = None,
        violation_telemetry = None, return_value = None,
        run_exception = Some (Guarded_Process_Error ty msg tb), elapsed_s = dt\<rparr>"
  | (violation) reason reading dt t t' where
      "telemetry_source ex t = Some (Inr reading, t')" "evaluate (policy ex) reading = Some reason"
      "res = \<lparr>completed = False, fallback_triggered = True, fallback_reason = Some reason,
        violation_telemetry = Some reading, return_value = None, run_exception = None, elapsed_s = dt\<rparr>"
      "kill_sent w' \<longrightarrow> term_sent w'"
  | (probe_raised) reading e dt t t' where
      "telemetry_source ex t = Some (Inl e, t')" "is_exception e"
      "fail_safe_on_telemetry_error (policy ex)"
      "res = \<lparr>completed = False, fallback_triggered = True, fallback_reason = Some Telemetry_Error,
        violation_telemetry = Some reading, return_value = None,
        run_exception = Some (Probe_Failed e), elapsed_s = dt\<rparr>"
      "kill_sent w' \<longrightarrow> term_sent w'"
proof (rule run_cases [OF assms])
  fix w1 l w2 w3
  assume 1: "polling m w1" "poll_round sched clock ex w1 = Some (Inl (l, w2))" "polling m w2"
    and c: "conclude loads sched clock (fst (clock s)) l w2 = (Inr res, w3)" and w': "w' = run_finally sched w3"
  show thesis
  proof (cases l)
    case (Got got)
    with 1(2) poll_round_got [OF 1(1)] have "\<forall>x. got = Some x \<longrightarrow> m = Some x" by blast
    from conclude_got [OF 1(3) this c [unfolded Got]] show thesis
    proof (elim disjE exE conjE)
      fix dt code assume "Inr res = Inr \<lparr>completed = False, fallback_triggered = False,
          fallback_reason = None, violation_telemetry = None, return_value = None,
          run_exception = Some (No_Result code), elapsed_s = dt\<rparr>"
      then show thesis by (intro no_result) simp
    next
      fix payload v dt assume "m = Some (Ok_Message payload)" "loads payload = Inr v"
        "Inr res = Inr \<lparr>completed = True, fallback_triggered = False, fallback_reason = None,
          violation_telemetry = None, return_value = Some v, run_exception = None, elapsed_s = dt\<rparr>"
      then show thesis by (intro returned) simp_all
    next
      fix ty msg tb dt assume "m = Some (Error_Message ty msg tb)"
        "Inr res = Inr \<lparr>completed = True, fallback_triggered = False, fallback_reason = None,
          violation_telemetry = None, return_value = None,
          run_exception = Some (Guarded_Process_Error ty msg tb), elapsed_s = dt\<rparr>"
      then show thesis by (intro target_raised) simp_all
    qed simp_all
  next
    case (Fallback reason reading err)
    obtain dt where r: "res = \<lparr>completed = False, fallback_triggered = True, fallback_reason = Some reason,
        violation_telemetry = Some reading, return_value = None,
        run_exception = map_option Probe_Failed err, elapsed_s = dt\<rparr>"
      and k: "kill_sent w3 \<longrightarrow> kill_sent w2 \<or> term_sent w3" "alive w3 \<longrightarrow> term_sent w3"
      using conclude_fallback [OF c [unfolded Fallback]] by auto
    have kt: "kill_sent w' \<longrightarrow> term_sent w'"
      using k run_finally_facts [of sched w3 w'] 1(3) w' by (auto simp: polling_def)
    from poll_round_fallback [OF 1(2) [unfolded Fallback]] show thesis
      by (elim disjE exE conjE) (use r kt in \<open>simp_all add: violation probe_raised\<close>)
  next
    case (Escaped e)
    with c show thesis by (simp add: conclude_def)
  qed
qed

lemma run_fallback:
  assumes "polls sched clock ex (started (snd (clock s)) m) w"
    and "poll_round sched clock ex w = Some (Inl (Fallback reason reading err, w2))"
  shows "\<exists>dt w'. run loads sched clock ex (Inr ()) m s =
      Some (Inr \<lparr>completed = False, fallback_triggered = True, fallback_reason = Some reason,
        violation_telemetry = Some reading, return_value = None,
        run_exception = map_option Probe_Failed err, elapsed_s = dt\<rparr>, Some w') \<and>
    (alive w' \<longrightarrow> term_sent w' \<and> kill_sent w')"
proof -
  note l = poll_loop_ends [OF assms]
  obtain r w3 where c: "conclude loads sched clock (fst (clock s)) (Fallback reason reading err) w2 = (r, w3)"
    by fastforce
  from conclude_fallback [OF c] obtain dt where
    "r = Inr \<lparr>completed = False, fallback_triggered = True, fallback_reason = Some reason,
        violation_telemetry = Some reading, return_value = None,
        run_exception = map_option Probe_Failed err, elapsed_s = dt\<rparr>"
    and k: "alive w3 \<longrightarrow> term_sent w3" by auto
  with l c have run: "run loads sched clock ex (Inr ()) m s =
      Some (Inr \<lparr>completed = False, fallback_triggered = True, fallback_reason = Some reason,
        violation_telemetry = Some reading, return_value = None,
        run_exception = map_option Probe_Failed err, elapsed_s = dt\<rparr>, Some (run_finally sched w3))"
    by (simp add: run_def split_beta)
  have "alive (run_finally sched w3) \<longrightarrow> term_sent (run_finally sched w3) \<and> kill_sent (run_finally sched w3)"
    using run_finally_facts [of sched w3 "run_finally sched w3"] k by blast
  with run show ?thesis by blast
qed

section \<open>Termination\<close>

text \<open>
  If the child exits at some point of the schedule and every probe returns, the loop ends: every
  round moves on in the schedule, and the round that finds the child dead is the last one.
\<close>

lemma poll_round_progress:
  assumes "poll_round sched clock ex w = Some (Inr w')"
  shows "alive w' \<and> calls w' = calls w + 2 \<and> alive (child_runs sched w) \<and>
    (\<exists>w1. queue_get sched w = (None, w1) \<and> calls w1 = calls w + 1 \<and> alive (child_runs sched w1))"
proof -
  obtain q w1 where q: "queue_get sched w = (q, w1)" by fastforce
  note k = queue_get_keeps [OF q]
  have "q = None \<Longrightarrow> alive w1 = alive (child_runs sched w)"
    using q by (auto simp: queue_get_def Let_def split: list.splits)
  with assms k q show ?thesis
    by (auto simp: poll_round_def is_alive_def Let_def split: round_splits dest: child_runs_alive)
qed

lemma poll_loop_returns:
  assumes exits: "Exit c \<in> set (sched i)" and probes: "\<And>s. telemetry_source ex s \<noteq> None"
    and "alive w \<Longrightarrow> calls w \<le> i"
  shows "\<exists>r. poll_loop sched clock ex w = Some r"
  using assms(3)
proof (induction "Suc i - calls w" arbitrary: w rule: less_induct)
  case less
  have total: "poll_round sched clock ex w \<noteq> None"
    by (auto simp: poll_round_def is_alive_def Let_def probes split: round_splits)
  then obtain x where x: "poll_round sched clock ex w = Some x" by blast
  show ?case
  proof (cases x)
    case (Inl r)
    with x show ?thesis by (subst poll_loop.simps) simp
  next
    case (Inr w')
    with x have "poll_round sched clock ex w = Some (Inr w')" by simp
    note P = poll_round_progress [OF this]
    then obtain w1 where "queue_get sched w = (None, w1)"
      and w1: "calls w1 = calls w + 1" "alive (child_runs sched w1)" by blast
    have "calls w \<noteq> i" using P exit_kills [of c sched w] exits by auto
    moreover have "calls w1 \<noteq> i" using w1 exit_kills [of c sched w1] exits by auto
    moreover have "calls w \<le> i" using less.prems P child_runs_alive by blast
    ultimately have "calls w' \<le> i" using P w1 by simp
    moreover have "Suc i - calls w' < Suc i - calls w" using P \<open>calls w \<le> i\<close> by simp
    ultimately obtain r where "poll_loop sched clock ex w' = Some r" using less.hyps by blast
    with x Inr show ?thesis by (subst poll_loop.simps) simp
  qed
qed

section \<open>Example runs\<close>

definition example_clock :: "scripted_reader clock" where
  "example_clock r = (Fin 0, r)"

definition example_executor :: "scripted_reader executor" where
  "example_executor = executor_init (telemetry_probe_from_reader scripted_call example_clock) None"

definition example_env :: scripted_reader where
  "example_env = \<lparr>script = [Fin 90], script_idx = 0\<rparr>"

definition example_reading :: telemetry_reading where
  "example_reading = \<lparr>tr_temperature_c = Fin 90, tr_sram_usage_bytes = 0,
     tr_security_violation = False, tr_timestamp = Fin 0\<rparr>"

text \<open>A child that ignores SIGTERM and a hot device; a child that returns at once.\<close>

definition hung_child :: schedule where
  "hung_child i = [Obey_Kill]"

definition quick_child :: schedule where
  "quick_child i = (if i = 0 then [Publish] else [Exit 0])"

abbreviation example_run :: "schedule \<Rightarrow> int message option \<Rightarrow>
    (int run_result result \<times> (scripted_reader, int) guard_world option) option" where
  "example_run sched m \<equiv> run Inr sched example_clock example_executor (Inr ()) m example_env"

lemma example_probe:
  "telemetry_source example_executor example_env = Some (Inr example_reading, example_env\<lparr>script_idx := 1\<rparr>)"
  by (simp add: example_executor_def executor_init_def telemetry_probe_from_reader_def stamp_def
      sbind_def sret_def scripted_call_def example_env_def example_clock_def example_reading_def)

lemma example_probe_returns: "telemetry_source example_executor t \<noteq> None"
  by (simp add: example_executor_def executor_init_def telemetry_probe_from_reader_def)

lemma example_violation: "evaluate (policy example_executor) example_reading = Some Temperature"
  by (simp add: example_executor_def executor_init_def default_policy_def evaluate_def example_reading_def)

lemma hung_round:
  "queue_get hung_child (started s m) = (None, (started s m)\<lparr>calls := Suc 0\<rparr>)"
  "is_alive hung_child ((started s m)\<lparr>calls := Suc 0\<rparr>) = (True, (started s m)\<lparr>calls := 2\<rparr>)"
  by (simp_all add: queue_get_def is_alive_def child_runs_def hung_child_def started_def)

lemma quick_run:
  "\<exists>res w'. example_run quick_child (child_entrypoint Inr (Inr 7)) = Some (Inr res, Some w') \<and> completed res"
proof -
  let ?m = "child_entrypoint (Inr :: int \<Rightarrow> raised + int) (Inr 7)"
  have m: "?m = Some (Ok_Message 7)" by (simp add: child_entrypoint_def)
  obtain w1 where "queue_get quick_child (started example_env ?m) = (Some (Ok_Message 7), w1)"
    by (simp add: queue_get_def child_runs_def quick_child_def started_def m)
  then have "poll_round quick_child example_clock example_executor (started example_env ?m) =
      Some (Inl (Got (Some (Ok_Message 7)), w1))" by (simp add: poll_round_def)
  from poll_loop_ends [OF polls.here this]
  have l: "poll_loop quick_child example_clock example_executor (started example_env ?m) =
      Some (Got (Some (Ok_Message 7)), w1)" .
  have "\<exists>res w'. conclude Inr quick_child example_clock t0 (Got (Some (Ok_Message 7))) w1 = (Inr res, w') \<and> completed res"
    for t0 by (simp add: conclude_def split_beta)
  with l show ?thesis by (auto simp: run_def example_clock_def [of example_env] split_beta) (metis fst_conv snd_conv)
qed

lemma hung_poll:
  assumes "telemetry_source ex example_env = Some (r, t)"
    and "case r of Inr reading \<Rightarrow> evaluate (policy ex) reading = Some reason \<and> err = None
      | Inl e \<Rightarrow> is_exception e \<and> fail_safe_on_telemetry_error (policy ex) \<and>
          reason = Telemetry_Error \<and> err = Some e"
  shows "\<exists>reading w2. poll_round hung_child example_clock ex (started example_env m) =
    Some (Inl (Fallback reason reading err, w2))"
proof -
  have e: "env ((started example_env m)\<lparr>calls := 2\<rparr>) = example_env" by (simp add: started_def)
  show ?thesis
    using assms by (cases r) (simp_all add: poll_round_def hung_round e example_clock_def)
qed

lemma hung_run:
  "\<exists>reading dt w'. example_run hung_child None =
     Some (Inr \<lparr>completed = False, fallback_triggered = True, fallback_reason = Some Temperature,
       violation_telemetry = Some reading, return_value = None, run_exception = None,
       elapsed_s = dt\<rparr>, Some w')"
proof -
  obtain reading and w2 :: "(scripted_reader, int) guard_world" where
    "poll_round hung_child example_clock example_executor (started example_env None) =
      Some (Inl (Fallback Temperature reading None, w2))"
    using hung_poll [OF example_probe, of Temperature None None] example_violation by auto
  then have "poll_round hung_child example_clock example_executor
      (started (snd (example_clock example_env)) None) = Some (Inl (Fallback Temperature reading None, w2))"
    by (simp add: example_clock_def)
  from run_fallback [OF polls.here this, of Inr] show ?thesis by auto
qed

text \<open>An executor whose probe fails.\<close>

definition broken_executor :: "scripted_reader executor" where
  "broken_executor = executor_init (telemetry_probe_from_reader (sraise RuntimeError) example_clock) None"

lemma broken_run:
  "\<exists>reading dt w'. run Inr hung_child example_clock broken_executor (Inr ()) None example_env =
     Some (Inr \<lparr>completed = False, fallback_triggered = True, fallback_reason = Some Telemetry_Error,
       violation_telemetry = Some reading, return_value = None :: int option,
       run_exception = Some (Probe_Failed RuntimeError), elapsed_s = dt\<rparr>, Some w')"
proof -
  have "telemetry_source broken_executor example_env = Some (Inl RuntimeError, example_env)"
    "fail_safe_on_telemetry_error (policy broken_executor)"
    by (simp_all add: broken_executor_def executor_init_def telemetry_probe_from_reader_def stamp_def
        sbind_def sraise_def default_policy_def)
  then obtain reading and w2 :: "(scripted_reader, int) guard_world" where
    "poll_round hung_child example_clock broken_executor (started example_env None) =
      Some (Inl (Fallback Telemetry_Error reading (Some RuntimeError), w2))"
    using hung_poll [of broken_executor "Inl RuntimeError" example_env Telemetry_Error "Some RuntimeError" None]
    by auto
  then have "poll_round hung_child example_clock broken_executor (started (snd (example_clock example_env)) None) =
      Some (Inl (Fallback Telemetry_Error reading (Some RuntimeError), w2))" by (simp add: example_clock_def)
  from run_fallback [OF polls.here this, of Inr] show ?thesis by auto
qed

section \<open>Properties\<close>

text \<open>
  The policy reports the most severe condition that a reading violates, in the order security,
  temperature, memory, and reports nothing exactly when no condition is violated.
\<close>

lemma evaluate_most_severe:
  "case evaluate p r of
     None \<Rightarrow> \<forall>x. \<not> violated p r x
   | Some x \<Rightarrow> violated p r x \<and> (\<forall>y. violated p r y \<longrightarrow> y \<le> x)"
  using evaluate_Some [of p r] evaluate_None [of p r] by (cases "evaluate p r") auto

lemma evaluate_most_severe_example:
  "evaluate (default_policy\<lparr>sram_usage_threshold_bytes := Some 100\<rparr>)
     \<lparr>tr_temperature_c = Fin 90, tr_sram_usage_bytes = 200, tr_security_violation = False,
      tr_timestamp = Fin 0\<rparr> = Some Temperature \<and> Sram \<le> Temperature"
proof -
  let ?p = "default_policy\<lparr>sram_usage_threshold_bytes := Some 100\<rparr>"
  let ?r = "\<lparr>tr_temperature_c = Fin 90, tr_sram_usage_bytes = 200, tr_security_violation = False,
      tr_timestamp = Fin 0\<rparr>"
  have e: "evaluate ?p ?r = Some Temperature" by (simp add: evaluate_def default_policy_def)
  have "violated ?p ?r Sram" by (simp add: default_policy_def)
  with evaluate_most_severe [of ?p ?r] e show ?thesis by auto
qed

text \<open>
  C37. The results of a run: the child completed, with a return value or the error of its target;
  or a fallback was triggered, with its reason and reading, and an exception exactly if the
  reason is a telemetry error; or the child was gone without a result.
\<close>

theorem run_result_shape:
  assumes "run loads sched clock ex spawn m s = Some (Inr res, Some w')"
  shows "(completed res \<and> \<not> fallback_triggered res \<and> fallback_reason res = None \<and>
      violation_telemetry res = None \<and>
      (return_value res \<noteq> None \<and> run_exception res = None \<or>
       return_value res = None \<and> (\<exists>ty msg tb. run_exception res = Some (Guarded_Process_Error ty msg tb)))) \<or>
    (\<not> completed res \<and> fallback_triggered res \<and> fallback_reason res \<noteq> None \<and>
      violation_telemetry res \<noteq> None \<and> return_value res = None \<and>
      (run_exception res \<noteq> None \<longleftrightarrow> fallback_reason res = Some Telemetry_Error)) \<or>
    (\<not> completed res \<and> \<not> fallback_triggered res \<and> fallback_reason res = None \<and>
      return_value res = None \<and> (\<exists>code. run_exception res = Some (No_Result code)))"
  by (rule run_result_cases [OF assms]) auto

theorem run_result_shape_witness:
  "\<exists>res w'. example_run hung_child None = Some (Inr res, Some w') \<and> \<not> completed res \<and>
     run_exception res = None"
proof -
  obtain res w' where r: "example_run hung_child None = Some (Inr res, Some w')"
    "fallback_triggered res" "fallback_reason res = Some Temperature" using hung_run by force
  with run_result_shape [OF r(1)] show ?thesis by auto
qed

text \<open>
  C7. No child survives: whatever the child does, however the probe or the unpickling fails, and
  whether the run returns or raises, the queue is closed and the child is dead or was sent
  SIGKILL; a child on which SIGKILL takes effect while it is being joined is dead.
\<close>

theorem no_child_survives:
  assumes "run loads sched clock ex spawn m s = Some (r, Some w')"
  shows "queue_closed w' \<and> (alive w' \<longrightarrow> kill_sent w') \<and>
    ((\<forall>i. Obey_Kill \<in> set (sched i)) \<longrightarrow> \<not> alive w')"
proof (rule run_cases [OF assms])
  fix w3 assume "w' = run_finally sched w3"
  then show ?thesis using run_finally_facts [of sched w3 w'] by simp
qed

theorem no_child_survives_witness:
  "\<exists>res w'. example_run hung_child None = Some (res, Some w') \<and> \<not> alive w'"
proof -
  obtain res w' where r: "example_run hung_child None = Some (Inr res, Some w')"
    "fallback_triggered res" "fallback_reason res = Some Temperature" using hung_run by force
  with no_child_survives [OF r(1)] show ?thesis by (auto simp: hung_child_def)
qed

text \<open>
  C8. A fallback is always justified: the reading it reports came from the probe and violates the
  policy as reported, or the probe raised and the policy treats that as a violation. The child
  was sent SIGTERM before any SIGKILL, or was dead already.
\<close>

theorem fallback_is_justified:
  assumes "run loads sched clock ex spawn m s = Some (Inr res, Some w')" and "fallback_triggered res"
  shows "((\<exists>reading reason t t'. telemetry_source ex t = Some (Inr reading, t') \<and>
      evaluate (policy ex) reading = Some reason \<and> violation_telemetry res = Some reading \<and>
      fallback_reason res = Some reason) \<or>
    (\<exists>t e t'. telemetry_source ex t = Some (Inl e, t') \<and> is_exception e \<and>
      fail_safe_on_telemetry_error (policy ex) \<and> fallback_reason res = Some Telemetry_Error \<and>
      run_exception res = Some (Probe_Failed e))) \<and>
    (kill_sent w' \<longrightarrow> term_sent w')"
  by (rule run_result_cases [OF assms(1)]) (use assms(2) in auto)

theorem fallback_is_justified_witness:
  "\<exists>res w'. example_run hung_child None = Some (Inr res, Some w') \<and> (kill_sent w' \<longrightarrow> term_sent w')"
proof -
  obtain res w' where r: "example_run hung_child None = Some (Inr res, Some w')"
    "fallback_triggered res" "fallback_reason res = Some Temperature" using hung_run by force
  with fallback_is_justified [OF r(1,2)] show ?thesis by blast
qed

text \<open>
  C17. A violation is never missed: when a round of the loop finds no message, a living child and a
  reading that violates the policy, the run returns a fallback with that reading and reason, and
  the child is dead or was sent SIGTERM and SIGKILL.
\<close>

theorem violation_triggers_fallback:
  assumes "polls sched clock ex (started (snd (clock s)) m) w"
    and "queue_get sched w = (None, w1)" and "is_alive sched w1 = (True, w2)"
    and "telemetry_source ex (env w2) = Some (Inr reading, t)"
    and "evaluate (policy ex) reading = Some reason"
  shows "\<exists>res w'. run loads sched clock ex (Inr ()) m s = Some (Inr res, Some w') \<and>
    fallback_triggered res \<and> \<not> completed res \<and> fallback_reason res = Some reason \<and>
    violation_telemetry res = Some reading \<and> (alive w' \<longrightarrow> term_sent w' \<and> kill_sent w')"
proof -
  have "poll_round sched clock ex w = Some (Inl (Fallback reason reading None, w2\<lparr>env := t\<rparr>))"
    using assms(2-5) by (simp add: poll_round_def)
  from run_fallback [OF assms(1) this, of loads] show ?thesis by force
qed

theorem violation_triggers_fallback_witness:
  "\<exists>res w'. example_run hung_child None = Some (Inr res, Some w') \<and> fallback_reason res = Some Temperature"
  using violation_triggers_fallback [OF polls.here hung_round(1) hung_round(2), of example_executor example_clock
      example_env None example_reading "example_env\<lparr>script_idx := 1\<rparr>" Temperature Inr]
    example_probe example_violation by (auto simp: example_clock_def started_def)

text \<open>
  C29. What a completed run reports is what the target did: its return value, if pickling round-trips
  it, or the name, message and traceback of the exception it raised, or that its value could not
  be pickled. A target that ends by an exception outside \<^verbatim>\<open>Exception\<close>, such as SystemExit,
  never completes.
\<close>

theorem completed_run_reports_target:
  assumes "run loads sched clock ex spawn (child_entrypoint dumps outcome) s = Some (Inr res, Some w')"
    and "\<And>v p. dumps v = Inr p \<Longrightarrow> loads p = Inr v" and "completed res"
  shows "case outcome of
      Inl exc \<Rightarrow> below_exception exc \<and> return_value res = None \<and> run_exception res =
        Some (Guarded_Process_Error (type_name exc) (exc_message exc) (exc_traceback exc))
    | Inr v \<Rightarrow>
        (case dumps v of
           Inr p \<Rightarrow> return_value res = Some v \<and> run_exception res = None
         | Inl exc \<Rightarrow> below_exception exc \<and> return_value res = None \<and>
             (\<exists>msg. run_exception res = Some (Guarded_Process_Error ''PicklingError'' msg (exc_traceback exc))))"
proof (rule run_result_cases [OF assms(1)])
  fix payload v dt
  assume m: "child_entrypoint dumps outcome = Some (Ok_Message payload)" and v: "loads payload = Inr v"
    and r: "res = \<lparr>completed = True, fallback_triggered = False, fallback_reason = None,
        violation_telemetry = None, return_value = Some v, run_exception = None, elapsed_s = dt\<rparr>"
  from m obtain v' where o: "outcome = Inr v'" "dumps v' = Inr payload"
    by (auto simp: child_entrypoint_def split: sum.splits if_splits)
  from assms(2) [OF o(2)] v r o show ?thesis by simp
next
  fix ty msg tb dt
  assume "child_entrypoint dumps outcome = Some (Error_Message ty msg tb)"
    and "res = \<lparr>completed = True, fallback_triggered = False, fallback_reason = None,
        violation_telemetry = None, return_value = None,
        run_exception = Some (Guarded_Process_Error ty msg tb), elapsed_s = dt\<rparr>"
  then show ?thesis by (auto simp: child_entrypoint_def split: sum.splits if_splits)
qed (use assms(3) in simp_all)

theorem completed_run_reports_target_witness:
  "\<exists>res w'. example_run quick_child (child_entrypoint Inr (Inr 7)) = Some (Inr res, Some w') \<and>
     return_value res = Some 7"
proof -
  obtain res w' where r: "example_run quick_child (child_entrypoint Inr (Inr 7)) = Some (Inr res, Some w')"
    "completed res" using quick_run by blast
  from completed_run_reports_target [OF r(1) _ r(2)] r(1) show ?thesis by auto
qed

text \<open>
  C30. A run returns: if the child exits at some point of the schedule and every call of the probe
  returns, the polling loop ends, whatever the probe reports.
\<close>

theorem run_returns:
  assumes "Exit c \<in> set (sched i)" and "\<And>t. telemetry_source ex t \<noteq> None"
  shows "\<exists>r. run loads sched clock ex spawn m s = Some r"
proof -
  have "\<exists>r. poll_loop sched clock ex (started (snd (clock s)) m) = Some r"
    by (rule poll_loop_returns [where c = c and i = i]) (use assms in \<open>simp_all add: started_def\<close>)
  then show ?thesis by (cases spawn) (auto simp: run_def split_beta)
qed

theorem run_returns_witness: "\<exists>r. example_run quick_child None = Some r"
  by (rule run_returns [of 0 quick_child 1]) (simp_all add: quick_child_def example_probe_returns)

text \<open>
  With the fail-safe policy, a run whose probe raised has triggered its fallback, and
  \<^verbatim>\<open>raise_if_error\<close> still raises the probe's failure.
\<close>

lemma raise_if_error_on_fallback:
  assumes "run loads sched clock ex spawn m s = Some (Inr res, Some w')"
    and "fallback_reason res = Some Telemetry_Error"
  shows "fallback_triggered res \<and> (\<exists>e. raise_if_error res = Inl (Probe_Failed e))"
  by (rule run_result_cases [OF assms(1)]) (use assms(2) in \<open>auto simp: raise_if_error_def\<close>)

lemma raise_if_error_on_fallback_example:
  "\<exists>res w'. run Inr hung_child example_clock broken_executor (Inr ()) None example_env =
       Some (Inr (res :: int run_result), Some w') \<and> (\<exists>e. raise_if_error res = Inl (Probe_Failed e))"
proof -
  obtain res :: "int run_result" and w' where r: "run Inr hung_child example_clock broken_executor (Inr ()) None example_env =
      Some (Inr res, Some w')" "fallback_reason res = Some Telemetry_Error"
    using broken_run by force
  with raise_if_error_on_fallback [OF r] show ?thesis by blast
qed

text \<open>
  The wire hides violations: a temperature above the critical 85 degrees by no more than half a
  thousandth, a violation for the daemon that reports it, reaches Python as exactly 85 and is
  within the default policy.
\<close>

lemma wire_hides_violation:
  assumes "85 < x" and "x \<le> 85 + 1 / 2000"
  shows "fgt (Fin x) (Fin 85) \<and> wire_temperature (Fin x) = Fin 85 \<and>
    evaluate default_policy \<lparr>tr_temperature_c = wire_temperature (Fin x), tr_sram_usage_bytes = m,
      tr_security_violation = False, tr_timestamp = t\<rparr> = None"
proof -
  have "round_half_even (of_int 85000) \<le> round_half_even (1000 * x)"
    using assms(1) by (intro round_half_even_mono) simp
  then have lo: "85000 \<le> round_half_even (1000 * x)" unfolding round_half_even_of_int .
  have "round_half_even (1000 * x) \<le> round_half_even (85000 + 1 / 2)"
    using assms(2) by (intro round_half_even_mono) simp
  moreover have "\<lfloor>170001 / 2 :: rat\<rfloor> = 85000" by (simp add: floor_eq_iff)
  then have "round_half_even (85000 + 1 / 2) = 85000" by (simp add: round_half_even_def Let_def)
  ultimately have r: "round_half_even (1000 * x) = 85000" using lo by simp
  have "dyadic53 85" using dyadic53_of_int [of 85] by simp
  then have "to_float 85 = Fin 85" by (rule to_float_dyadic) simp
  with r have "wire_temperature (Fin x) = Fin 85" by simp
  with assms(1) show ?thesis by (simp add: evaluate_def default_policy_def del: wire_temperature.simps)
qed

lemma wire_hides_violation_example:
  "wire_temperature (Fin (85 + 10 / 2 ^ 17)) = Fin 85"
  using wire_hides_violation [of "85 + 10 / 2 ^ 17"] by simp

text \<open>The condition of the daemon's own watchdog thread, \<^verbatim>\<open>src/daemon/sandbox_watchdog.c\<close>.\<close>

definition max_sram_alloc :: "64 word" where
  "max_sram_alloc = 512 * 1024 * 1024"

definition daemon_violated :: "pyfloat \<Rightarrow> 64 word \<Rightarrow> bool \<Rightarrow> bool" where
  "daemon_violated temp sram violation \<longleftrightarrow>
     fgt temp (Fin 85) \<or> max_sram_alloc < sram \<or> violation"

text \<open>The sample a probe makes of the daemon's telemetry.\<close>

definition daemon_reading :: "pyfloat \<Rightarrow> 64 word \<Rightarrow> bool \<Rightarrow> pyfloat \<Rightarrow> telemetry_reading" where
  "daemon_reading temp sram violation now =
     \<lparr>tr_temperature_c = temp, tr_sram_usage_bytes = uint sram, tr_security_violation = violation,
      tr_timestamp = now\<rparr>"

text \<open>
  On the same telemetry, the default policy with a memory threshold of 512 MB triggers exactly
  when the daemon's watchdog does; the default policy itself, which has no memory threshold,
  disagrees with the daemon exactly on readings that exceed the memory limit and nothing else.
\<close>

lemma policy_against_daemon:
  "(evaluate (default_policy\<lparr>sram_usage_threshold_bytes := Some (512 * 1024 * 1024)\<rparr>)
      (daemon_reading temp sram violation now) \<noteq> None \<longleftrightarrow> daemon_violated temp sram violation) \<and>
    ((evaluate default_policy (daemon_reading temp sram violation now) \<noteq> None) \<noteq>
        daemon_violated temp sram violation \<longleftrightarrow>
      \<not> fgt temp (Fin 85) \<and> \<not> violation \<and> max_sram_alloc < sram)"
proof -
  have "max_sram_alloc < sram \<longleftrightarrow> 512 * 1024 * 1024 < uint sram"
    by (simp add: word_less_def max_sram_alloc_def)
  then show ?thesis by (auto simp: daemon_reading_def evaluate_def default_policy_def daemon_violated_def)
qed

end
