(* ===== verification/Supervision.thy ===== *)
theory Supervision
  imports WatchdogControl
begin

text \<open>
  The executor of \<^verbatim>\<open>src/python/msp/watchdog_control.py\<close> against the server of
  \<^verbatim>\<open>src/daemon/telemetry_server.c\<close>: the daemon answers each connection with the line of one sample, the
  probe reads it through \<^verbatim>\<open>WatchdogTelemetryReader\<close>, the policy judges it, and the loop stops the
  child. The theory follows one sample through all of them.
\<close>

section \<open>A daemon that answers every connection\<close>

text \<open>The replies of the connections to come, in the chunks in which they arrive, and the open one.\<close>

record daemon_feed =
  upcoming :: "string list list"
  conn :: daemon_conn

type_synonym sample = "pyfloat \<times> 64 word \<times> bool"

definition feed_connect :: "(daemon_feed, unit) prog" where
  "feed_connect w =
     (case upcoming w of
        [] \<Rightarrow> (Inl FileNotFoundError, w)
      | c # cs \<Rightarrow> (Inr (), w\<lparr>upcoming := cs, conn := \<lparr>reply = c, closed = False\<rparr>\<rparr>))"

definition feed_recv :: "(daemon_feed, string) prog" where
  "feed_recv w = (case daemon_recv (conn w) of (r, c) \<Rightarrow> (r, w\<lparr>conn := c\<rparr>))"

definition feed_ops :: "daemon_feed socket_ops" where
  "feed_ops =
     \<lparr>so_socket = sret (), so_connect = feed_connect, so_recv = feed_recv,
      so_close = (\<lambda>w. w\<lparr>conn := (conn w)\<lparr>closed := True\<rparr>\<rparr>)\<rparr>"

definition feeds :: "sample list \<Rightarrow> daemon_feed \<Rightarrow> bool" where
  "feeds samples w \<longleftrightarrow>
     list_all2 (\<lambda>(t, n, v) chunks. float32_range t \<and> [] \<notin> set chunks \<and> concat chunks = telemetry_line t n v)
       samples (upcoming w)"

interpretation feed: byte_stream feed_recv "\<lambda>w. concat (reply (conn w))"
  "\<lambda>w. [] \<notin> set (reply (conn w)) \<and> upcoming w = rest" for rest
  by unfold_locales (auto simp: feed_recv_def daemon_recv_def split: list.splits)

lemma feed_read:
  assumes "feeds ((t, n, v) # samples) w"
  shows "\<exists>w'. read_full feed_ops w = Some (Inr (wire_temperature t, int (unat n), v), w') \<and> feeds samples w'"
proof -
  obtain c cs where w: "upcoming w = c # cs" "float32_range t" "[] \<notin> set c" "concat c = telemetry_line t n v"
    "feeds samples (w\<lparr>upcoming := cs\<rparr>)"
    using assms by (auto simp: feeds_def list_all2_Cons1)
  let ?w = "w\<lparr>upcoming := cs, conn := \<lparr>reply = c, closed = False\<rparr>\<rparr>"
  have start: "so_socket feed_ops w = (Inr (), w)" "so_connect feed_ops w = (Inr (), ?w)"
    by (simp_all add: feed_ops_def sret_def feed_connect_def w(1))
  obtain chunks w2 where run: "recv_all feed_ops [] ?w = Some (Inr chunks, w2)" "concat chunks = concat c"
    "upcoming w2 = cs"
    using feed.recv_all_ends [of ?w cs feed_ops "[]"] w(3) by (auto simp: feed_ops_def)
  have line: "concat c = telemetry_text t n v" using w(2,4) telemetry_line_eq by simp
  have "receive_line feed_ops w = Some (Inr (concat c), so_close feed_ops w2)"
    using start(2) run(1,2) by (simp add: receive_line_def wrap_os_error_def)
  then have "read_full feed_ops w =
      Some (Inr (wire_temperature t, int (unat n), v), so_close feed_ops w2)"
    using start(1) w(2) by (simp add: read_full_def line decode_ascii_def telemetry_text_ascii parse_telemetry_text)
  moreover have "feeds samples (so_close feed_ops w2)"
    using w(5) run(3) by (simp add: feeds_def feed_ops_def)
  ultimately show ?thesis by blast
qed

section \<open>What the policy makes of a sample\<close>

text \<open>A sample as the probe reports it, up to the time of the reading, which the policy ignores.\<close>

definition wire_reading :: "sample \<Rightarrow> pyfloat \<Rightarrow> telemetry_reading" where
  "wire_reading s now = (case s of (t, n, v) \<Rightarrow> daemon_reading (wire_temperature t) n v now)"

definition verdict :: "violation_policy \<Rightarrow> sample \<Rightarrow> fallback_reason option" where
  "verdict p s = evaluate p (wire_reading s (Fin 0))"

lemma verdict_any_time: "evaluate p (wire_reading s now) = verdict p s"
  by (cases s) (simp add: verdict_def wire_reading_def evaluate_def daemon_reading_def split: option.split)

lemma probe_sample:
  assumes "feeds (s # samples) w" and clock: "\<And>w. snd (clock w) = w"
  shows "\<exists>now w'. telemetry_probe_from_watchdog_socket feed_ops clock w = Some (Inr (wire_reading s now), w') \<and>
    feeds samples w'"
proof -
  obtain t n v where s: "s = (t, n, v)" by (metis surj_pair)
  obtain w' where w': "read_full feed_ops w = Some (Inr (wire_temperature t, int (unat n), v), w')" "feeds samples w'"
    using feed_read assms(1) s by blast
  obtain now where "clock w' = (now, w')" using clock by (metis prod.collapse)
  with w' show ?thesis
    by (simp add: telemetry_probe_from_watchdog_socket_def stamp_def s wire_reading_def daemon_reading_def)
qed

section \<open>A busy child\<close>

text \<open>
  A child that is still computing: whatever it does before a call of the parent, it neither
  publishes nor ends; it could obey signals, but there are none yet.
\<close>

definition busy_until :: "schedule \<Rightarrow> nat \<Rightarrow> bool" where
  "busy_until sched k \<longleftrightarrow> (\<forall>n < k. set (sched n) \<subseteq> {Obey_Term, Obey_Kill})"

definition computing :: "'s \<Rightarrow> 'p message option \<Rightarrow> nat \<Rightarrow> ('s, 'p) guard_world" where
  "computing s m n = (started s m)\<lparr>calls := n\<rparr>"

lemma computing_runs:
  assumes "busy_until sched k" and "n < k"
  shows "child_runs sched (computing s m n) = computing s m (Suc n)"
proof -
  have "fold child_step ms (computing s m n) = computing s m n" if "set ms \<subseteq> {Obey_Term, Obey_Kill}" for ms
    using that by (induction ms) (auto simp: computing_def started_def)
  then show ?thesis using assms by (simp add: busy_until_def child_runs_def) (simp add: computing_def)
qed

lemma computing_simps [simp]:
  "env (computing s m n) = s" "(computing s m n)\<lparr>env := s'\<rparr> = computing s' m n"
  "queue (computing s m n) = []" "alive (computing s m n)"
  by (simp_all add: computing_def started_def)

lemma computing_round:
  assumes "busy_until sched k" and "n + 2 \<le> k"
  shows "queue_get sched (computing s m n) = (None, computing s m (Suc n))"
    "is_alive sched (computing s m (Suc n)) = (True, computing s m (n + 2))"
proof -
  have "child_runs sched (computing s m n) = computing s m (Suc n)"
    "child_runs sched (computing s m (Suc n)) = computing s m (n + 2)"
    using computing_runs [OF assms(1), of n] computing_runs [OF assms(1), of "Suc n"] assms(2) by simp_all
  then show "queue_get sched (computing s m n) = (None, computing s m (Suc n))"
    "is_alive sched (computing s m (Suc n)) = (True, computing s m (n + 2))"
    by (simp_all add: queue_get_def is_alive_def Let_def)
qed

lemma sampled_round:
  assumes "busy_until sched k" and "n + 2 \<le> k" and "telemetry_source ex s = Some (Inr r, s')"
  shows "poll_round sched clock ex (computing s m n) =
    Some (case evaluate (policy ex) r of
        None \<Rightarrow> Inr (computing s' m (n + 2))
      | Some reason \<Rightarrow> Inl (Fallback reason r None, computing s' m (n + 2)))"
  using assms(3)
  by (simp add: poll_round_def computing_round [OF assms(1,2)] del: add_2_eq_Suc' split: option.split)

lemma quiet_samples:
  assumes busy: "busy_until sched k" and clock: "\<And>w. snd (clock w) = w"
    and ex: "telemetry_source ex = telemetry_probe_from_watchdog_socket feed_ops clock"
  shows "feeds (pre @ samples) w \<Longrightarrow> \<forall>s \<in> set pre. verdict (policy ex) s = None \<Longrightarrow> n + 2 * length pre \<le> k \<Longrightarrow>
    \<exists>w'. polls sched clock ex (computing w m n) (computing w' m (n + 2 * length pre)) \<and> feeds samples w'"
proof (induction pre arbitrary: w n)
  case Nil
  then show ?case by (auto intro: polls.here)
next
  case (Cons s pre)
  obtain now w1 where w1: "telemetry_source ex w = Some (Inr (wire_reading s now), w1)" "feeds (pre @ samples) w1"
    using probe_sample [OF _ clock] Cons.prems(1) ex by fastforce
  have "evaluate (policy ex) (wire_reading s now) = None" using Cons.prems(2) by (simp add: verdict_any_time)
  then have step: "poll_round sched clock ex (computing w m n) = Some (Inr (computing w1 m (n + 2)))"
    using sampled_round [OF busy _ w1(1), of n] Cons.prems(3) by simp
  obtain w' where "polls sched clock ex (computing w1 m (n + 2)) (computing w' m (n + 2 + 2 * length pre))"
    "feeds samples w'"
    using Cons.IH [OF w1(2), of "n + 2"] Cons.prems(2,3) by auto
  then show ?case using polls.again [OF step] by (auto simp: algebra_simps)
qed

section \<open>The guarantee\<close>

text \<open>
  C18. A violation that the daemon reports stops the guarded process: while the child computes, the
  executor opens one connection per round; at the first sample that the policy flags as it
  arrives over the socket, in whatever chunks, the run returns a fallback with that sample and
  the policy's reason, and the child is dead or was sent SIGTERM and SIGKILL.
\<close>

theorem daemon_violation_stops_child:
  assumes feed: "feeds (pre @ s # post) w" and clock: "\<And>w. snd (clock w) = w"
    and quiet: "\<forall>x \<in> set pre. verdict p x = None" and hit: "verdict p s = Some reason"
    and busy: "busy_until sched (2 * length pre + 2)"
  shows "\<exists>now w' res. run loads sched clock
      (executor_init (telemetry_probe_from_watchdog_socket feed_ops clock) (Some p)) (Inr ()) m w =
        Some (Inr res, Some w') \<and>
    fallback_triggered res \<and> \<not> completed res \<and> fallback_reason res = Some reason \<and>
    violation_telemetry res = Some (wire_reading s now) \<and> (alive w' \<longrightarrow> term_sent w' \<and> kill_sent w')"
proof -
  let ?ex = "executor_init (telemetry_probe_from_watchdog_socket feed_ops clock) (Some p)"
  have ex: "telemetry_source ?ex = telemetry_probe_from_watchdog_socket feed_ops clock" "policy ?ex = p"
    by (simp_all add: executor_init_def)
  obtain w1 where w1: "polls sched clock ?ex (computing w m 0) (computing w1 m (2 * length pre))" "feeds (s # post) w1"
    using quiet_samples [OF busy clock ex(1) feed, of 0] quiet ex(2) by auto
  obtain now w2 where w2: "telemetry_source ?ex w1 = Some (Inr (wire_reading s now), w2)"
    using probe_sample [OF w1(2) clock] ex(1) by metis
  have round: "poll_round sched clock ?ex (computing w1 m (2 * length pre)) =
      Some (Inl (Fallback reason (wire_reading s now) None, computing w2 m (2 * length pre + 2)))"
    using sampled_round [OF busy _ w2, of "2 * length pre"] hit ex(2) by (simp add: verdict_any_time)
  have "polls sched clock ?ex (started (snd (clock w)) m) (computing w1 m (2 * length pre))"
    using w1(1) by (simp add: clock computing_def started_def)
  from run_fallback [OF this round, of loads] obtain dt w' where "run loads sched clock ?ex (Inr ()) m w =
      Some (Inr \<lparr>completed = False, fallback_triggered = True, fallback_reason = Some reason,
        violation_telemetry = Some (wire_reading s now), return_value = None,
        run_exception = map_option Probe_Failed None, elapsed_s = dt\<rparr>, Some w')"
    "alive w' \<longrightarrow> term_sent w' \<and> kill_sent w'"
    by blast
  then show ?thesis by (intro exI [of _ now] exI [of _ w'] exI conjI) (assumption | simp)+
qed

theorem daemon_violation_stops_child_witness:
  "\<exists>res w'. run Inr (\<lambda>_. []) (\<lambda>w. (Fin 0, w))
      (executor_init (telemetry_probe_from_watchdog_socket feed_ops (\<lambda>w. (Fin 0, w))) (Some default_policy)) (Inr ())
      (None :: string message option)
      \<lparr>upcoming = [[telemetry_line NInf 7 False], [telemetry_line PInf 7 False]], conn = \<lparr>reply = [], closed = True\<rparr>\<rparr> =
        Some (Inr res, Some w') \<and> fallback_reason res = Some Temperature"
proof -
  let ?w = "\<lparr>upcoming = [[telemetry_line NInf 7 False], [telemetry_line PInf 7 False]],
    conn = \<lparr>reply = [], closed = True\<rparr>\<rparr>"
  have r: "float32_range PInf" "float32_range NInf" by (simp_all add: float32_range_def)
  then have "telemetry_line NInf 7 False \<noteq> []" "telemetry_line PInf 7 False \<noteq> []"
    by (simp_all add: telemetry_line_eq telemetry_text_def)
  with r have "feeds ([(NInf, 7, False)] @ (PInf, 7, False) # []) ?w" by (simp add: feeds_def)
  from daemon_violation_stops_child [OF this, of "\<lambda>w. (Fin 0, w)" default_policy Temperature "\<lambda>_. []" Inr None]
  show ?thesis
    by (fastforce simp: verdict_def evaluate_def default_policy_def wire_reading_def daemon_reading_def busy_until_def)
qed

end
