(* ===== verification/Daemon.thy ===== *)
theory Daemon
  imports ThermalReader Supervision
begin

text \<open>
  \<^verbatim>\<open>src/daemon/sandbox_watchdog.c\<close>: the watchdog thread of the daemon, which polls a telemetry
  reader and signals the monitored thread, run with the thermal reader of \<open>ThermalReader\<close>; and its
  judgement of the temperature beside the one of \<^verbatim>\<open>watchdog_control.py\<close> on the other end of the
  socket. What the loop reads, its flag to keep running and one sample per poll, is a function of the
  number of the poll.
\<close>

section \<open>The polling loop\<close>

text \<open>\<^verbatim>\<open>msp_allocate_isolated_region\<close> refuses sizes above the limit; \<^verbatim>\<open>mmap\<close> is a parameter.\<close>

definition msp_allocate_isolated_region :: "(64 word \<Rightarrow> 'a option) \<Rightarrow> 64 word \<Rightarrow> 'a option" where
  "msp_allocate_isolated_region mmap bytes = (if max_sram_alloc < bytes then None else mmap bytes)"

text \<open>
  What a run of the thread leaves: the flag of the configuration (None for a null pointer), the
  number of signals sent and of samples taken.
\<close>

record watchdog_trace =
  violation_flag :: "bool option"
  signals_sent :: nat
  poll_count :: nat

definition violates :: "sample \<Rightarrow> bool" where
  "violates s = (case s of (temp, sram, violation) \<Rightarrow> daemon_violated temp sram violation)"

partial_function (option) msp_telemetry_watchdog_daemon ::
  "(nat \<Rightarrow> bool) \<Rightarrow> (nat \<Rightarrow> sample) \<Rightarrow> nat \<Rightarrow> bool option \<Rightarrow> watchdog_trace option" where
  "msp_telemetry_watchdog_daemon keep_running read_telemetry n flag =
     (if \<not> keep_running n then Some \<lparr>violation_flag = flag, signals_sent = 0, poll_count = n\<rparr>
      else if violates (read_telemetry n)
      then Some \<lparr>violation_flag = map_option (\<lambda>_. True) flag, signals_sent = 1, poll_count = Suc n\<rparr>
      else msp_telemetry_watchdog_daemon keep_running read_telemetry (Suc n) flag)"

declare msp_telemetry_watchdog_daemon.simps [simp del]

definition stops_at :: "(nat \<Rightarrow> bool) \<Rightarrow> (nat \<Rightarrow> sample) \<Rightarrow> nat \<Rightarrow> bool" where
  "stops_at keep read_telemetry k \<longleftrightarrow> \<not> keep k \<or> violates (read_telemetry k)"

definition trace_at :: "(nat \<Rightarrow> bool) \<Rightarrow> bool option \<Rightarrow> nat \<Rightarrow> watchdog_trace" where
  "trace_at keep flag k =
     (if keep k then \<lparr>violation_flag = map_option (\<lambda>_. True) flag, signals_sent = 1, poll_count = Suc k\<rparr>
      else \<lparr>violation_flag = flag, signals_sent = 0, poll_count = k\<rparr>)"

lemma watchdog_first_stop:
  assumes "stops_at keep samples k" and "\<And>i. n \<le> i \<Longrightarrow> i < k \<Longrightarrow> \<not> stops_at keep samples i" and "n \<le> k"
  shows "msp_telemetry_watchdog_daemon keep samples n flag = Some (trace_at keep flag k)"
  using assms(3,2)
proof (induction rule: inc_induct)
  case base
  show ?case using assms(1)
    by (subst msp_telemetry_watchdog_daemon.simps) (simp add: stops_at_def trace_at_def)
next
  case (step n)
  then have "\<not> stops_at keep samples n" by simp
  then show ?case using step
    by (subst msp_telemetry_watchdog_daemon.simps) (simp add: stops_at_def)
qed

lemma watchdog_returns_only_at_stop:
  assumes "msp_telemetry_watchdog_daemon keep samples n flag = Some r"
  shows "\<exists>k. stops_at keep samples k"
  using assms
proof (induction rule: msp_telemetry_watchdog_daemon.raw_induct [rotated, consumes 1, case_names 1])
  case (1 run keep samples n flag r)
  then show ?case by (auto simp: stops_at_def split: if_splits)
qed

section \<open>The fallback signal\<close>

text \<open>
  The monitored thread's side: whether the handler is installed and the fallback point armed, and
  what the signal then does. Without a handler its default action ends the process.
\<close>

record signal_state =
  handler_installed :: bool
  msp_fallback_armed :: bool

datatype signal_effect = Jump_To_Fallback | Return_From_Handler | Process_Killed

definition fallback_signal_handler :: "signal_state \<Rightarrow> signal_effect" where
  "fallback_signal_handler s = (if msp_fallback_armed s then Jump_To_Fallback else Return_From_Handler)"

definition signal_arrives :: "signal_state \<Rightarrow> signal_effect" where
  "signal_arrives s = (if handler_installed s then fallback_signal_handler s else Process_Killed)"

text \<open>\<^verbatim>\<open>sigaction\<close> is a parameter: whether the call succeeds. True is the result 0.\<close>

definition msp_install_fallback_handler :: "bool \<Rightarrow> signal_state \<Rightarrow> bool \<times> signal_state" where
  "msp_install_fallback_handler sigaction_ok s =
     (if \<not> sigaction_ok then (False, s)
      else (True, s\<lparr>handler_installed := True, msp_fallback_armed := True\<rparr>))"

text \<open>\<^verbatim>\<open>MSP_ARM_FALLBACK_POINT\<close> drops the result of the installation.\<close>

definition arm_fallback_point :: "bool \<Rightarrow> signal_state \<Rightarrow> signal_state" where
  "arm_fallback_point sigaction_ok s = snd (msp_install_fallback_handler sigaction_ok s)"

text \<open>
  Once one installation went through, every later violation reaches the fallback point, also after
  arming attempts that fail; as long as none did, the first violation kills the process.
\<close>

lemma armed_signal:
  "signal_arrives (fold arm_fallback_point oks \<lparr>handler_installed = False, msp_fallback_armed = False\<rparr>) =
     (if True \<in> set oks then Jump_To_Fallback else Process_Killed)"
proof -
  have "signal_arrives (fold arm_fallback_point oks s) =
      (if True \<in> set oks then Jump_To_Fallback else signal_arrives s)" for s
  proof (induction oks arbitrary: s)
    case (Cons ok oks)
    then show ?case
      by (simp add: arm_fallback_point_def msp_install_fallback_handler_def signal_arrives_def
          fallback_signal_handler_def)
  qed simp
  then show ?thesis by (simp add: signal_arrives_def)
qed

section \<open>Temperatures that the daemon and the policy judge\<close>

definition in_range :: "frozen_fs \<Rightarrow> string option \<Rightarrow> string \<Rightarrow> bool" where
  "in_range fs substring base \<longleftrightarrow> list_all millis_range (tree_millis fs substring base)"

text \<open>
  Every selected zone reads less than 16384 degrees, where single precision still tells whole
  millidegrees apart. A tree is critical when a selected zone is above 85 degrees or none can be read.
\<close>

definition critical :: "frozen_fs \<Rightarrow> string option \<Rightarrow> string \<Rightarrow> bool" where
  "critical fs substring base \<longleftrightarrow>
     tree_millis fs substring base = [] \<or> (\<exists>m \<in> set (tree_millis fs substring base). 85000 < m)"

text \<open>A configuration of the daemon that reads the tree which \<open>fs\<close> mirrors.\<close>

definition reads_tree :: "reader_config \<Rightarrow> sysfs \<Rightarrow> frozen_fs \<Rightarrow> string option \<Rightarrow> bool" where
  "reads_tree config tree fs substring \<longleftrightarrow>
     kernel_tree (base_path config) fs \<and> mirrors (base_path config) tree fs \<and>
     zone_type_filter config = filter_of substring \<and> ascii (filter_of substring)"

lemma celsius_round53: "millis_range m \<Longrightarrow> celsius m = Fin (round53 (of_int m / 1000))"
  using celsius_Fin [of m] by (simp add: millis_range_def celsius_rat_def)

lemma float32_range_PInf: "float32_range PInf"
  by (simp add: float32_range_def)

lemma telemetry_fn_kernel:
  assumes "reads_tree config tree fs substring" and "order_agrees (aggregate_kind config) fs"
  shows "msp_thermal_reader_telemetry_fn config tree =
    (case python_reading fs (aggregate_kind config) substring (base_path config) of
       Inr t \<Rightarrow> to_single t | Inl _ \<Rightarrow> PInf, 0, False)"
  using assms c_reading_kernel [of config fs tree substring]
    python_reading_listed [of "base_path config" fs tree "aggregate_kind config" substring]
  by (simp add: reads_tree_def msp_thermal_reader_telemetry_fn_def)

lemma reading_kernel:
  assumes "reads_tree config tree fs substring" and "in_range fs substring (base_path config)"
  shows "python_reading fs Aggregate_Max substring (base_path config) = Inl RuntimeError \<and>
        tree_millis fs substring (base_path config) = [] \<or>
      (\<exists>m. python_reading fs Aggregate_Max substring (base_path config) = Inr (celsius m) \<and> millis_range m \<and>
        (critical fs substring (base_path config) \<longleftrightarrow> 85000 < m))"
proof -
  let ?ms = "tree_millis fs substring (base_path config)"
  have py: "python_reading fs Aggregate_Max substring (base_path config) =
      (if ?ms = [] then Inl RuntimeError else Inr (celsius (Max (set ?ms))))"
    using assms(1) python_reading_listed [OF _ _ example_orders(1), of "base_path config" fs tree substring]
    by (simp add: reads_tree_def aggregate_of_def)
  show ?thesis
  proof (cases "?ms = []")
    case False
    then have "Max (set ?ms) \<in> set ?ms" by simp
    moreover have "\<forall>m \<in> set ?ms. millis_range m"
      using assms(2) by (simp add: in_range_def list_all_iff)
    moreover have "85000 < Max (set ?ms) \<longleftrightarrow> (\<exists>m \<in> set ?ms. 85000 < m)"
      using False by (simp add: Max_gr_iff)
    ultimately show ?thesis using False py by (auto simp: critical_def)
  qed (simp add: py)
qed

lemma wire_of_celsius: "millis_range m \<Longrightarrow> wire_temperature (to_single (celsius m)) = celsius m"
  using wire_of_millis [of m] celsius_round53 [of m] by (simp only: celsius_def)

lemma celsius_above_85:
  assumes "millis_range m"
  shows "fgt (to_single (celsius m)) (Fin 85) \<longleftrightarrow> 85000 < m" "fgt (celsius m) (Fin 85) \<longleftrightarrow> 85000 < m"
  using millis_above [OF assms, of 85] by (simp_all only: celsius_round53 [OF assms]) simp_all

lemma sample_kernel:
  assumes "reads_tree config tree fs substring" and "aggregate_kind config = Aggregate_Max"
    and "in_range fs substring (base_path config)"
  defines "s \<equiv> msp_thermal_reader_telemetry_fn config tree"
  shows "violates s \<longleftrightarrow> critical fs substring (base_path config)"
    and "verdict default_policy s = (if critical fs substring (base_path config) then Some Temperature else None)"
    and "wire_temperature (fst s) =
      (case python_reading fs Aggregate_Max substring (base_path config) of Inr t \<Rightarrow> t | Inl _ \<Rightarrow> PInf)"
proof -
  have s: "s = (case python_reading fs Aggregate_Max substring (base_path config) of
      Inr t \<Rightarrow> to_single t | Inl _ \<Rightarrow> PInf, 0, False)"
    unfolding s_def using telemetry_fn_kernel [OF assms(1)] example_orders(1) by (simp add: assms(2))
  have judged: "violates (t, 0, False) \<longleftrightarrow> fgt t (Fin 85)"
    "verdict default_policy (t, 0, False) = (if fgt (wire_temperature t) (Fin 85) then Some Temperature else None)" for t
    by (simp_all add: violates_def daemon_violated_def max_sram_alloc_def verdict_def wire_reading_def
        daemon_reading_def evaluate_def default_policy_def)
  consider (blind) "python_reading fs Aggregate_Max substring (base_path config) = Inl RuntimeError"
      "tree_millis fs substring (base_path config) = []"
    | (reading) m where "python_reading fs Aggregate_Max substring (base_path config) = Inr (celsius m)" "millis_range m"
      "critical fs substring (base_path config) \<longleftrightarrow> 85000 < m"
    using reading_kernel [OF assms(1,3)] by blast
  then have "(violates s \<longleftrightarrow> critical fs substring (base_path config)) \<and>
      verdict default_policy s = (if critical fs substring (base_path config) then Some Temperature else None) \<and>
      wire_temperature (fst s) =
        (case python_reading fs Aggregate_Max substring (base_path config) of Inr t \<Rightarrow> t | Inl _ \<Rightarrow> PInf)"
  proof cases
    case blind
    then show ?thesis unfolding s by (simp add: judged) (simp add: critical_def)
  next
    case reading
    show ?thesis unfolding s reading(1)
      by (simp add: judged reading(3) celsius_above_85 [OF reading(2)] wire_of_celsius [OF reading(2)]
          del: to_single.simps)
  qed
  then show "violates s \<longleftrightarrow> critical fs substring (base_path config)"
    "verdict default_policy s = (if critical fs substring (base_path config) then Some Temperature else None)"
    "wire_temperature (fst s) =
      (case python_reading fs Aggregate_Max substring (base_path config) of Inr t \<Rightarrow> t | Inl _ \<Rightarrow> PInf)"
    by blast+
qed

text \<open>A read that fails is a violation, whatever the tree.\<close>

lemma failed_read_violates:
  "msp_thermal_reader_read config tree = None \<Longrightarrow> violates (msp_thermal_reader_telemetry_fn config tree)"
  by (simp add: msp_thermal_reader_telemetry_fn_def violates_def daemon_violated_def)

lemma example_reads_tree:
  "reads_tree (example_config ''CPI'') example_sysfs example_sysfs_python (Some ''CPI'')"
  "reads_tree (example_config ''know'') example_sysfs example_sysfs_python (Some ''know'')"
  "reads_tree mean_config listed_sysfs listed_sysfs_python None"
  "in_range example_sysfs_python (Some ''CPI'') (base_path (example_config ''CPI''))"
  "in_range example_sysfs_python (Some ''know'') (base_path (example_config ''know''))"
  "aggregate_kind (example_config needle) = Aggregate_Max"
  using example_kernel_tree example_mirrors listed_kernel_tree listed_mirrors
  by (simp_all add: reads_tree_def example_config_def mean_config_def filter_of_def in_range_def example_millis
      millis_range_def ascii_def ord_of_def)

text \<open>
  With the mean, a critical zone can hide behind cold ones: the daemon averages 40 and 90 degrees to
  65 and sees no violation, and the maximum of the same zones is one.
\<close>

definition two_zones :: "msp_thermal_aggregate \<Rightarrow> reader_config" where
  "two_zones kind = (example_config [])\<lparr>aggregate_kind := kind\<rparr>"

definition two_zones_sysfs :: sysfs where
  "two_zones_sysfs =
     \<lparr>dir_entries = (\<lambda>d. if d = ''/t'' then Some [''thermal_zone0'', ''thermal_zone1''] else None),
      file_bytes = map_of
        [(path_in (path_in ''/t'' ''thermal_zone0'') ''temp'', ''40000'' @ [CHR 0x0A]),
         (path_in (path_in ''/t'' ''thermal_zone1'') ''temp'', ''90000'' @ [CHR 0x0A])]\<rparr>"

lemma two_zones_readings:
  "List.map_filter (zone_reading (two_zones kind) two_zones_sysfs) [''thermal_zone0'', ''thermal_zone1''] =
     [40000, 90000]"
proof -
  have "scanf_ld (''40000'' @ [CHR 0x0A]) = Some 40000" "scanf_ld (''90000'' @ [CHR 0x0A]) = Some 90000"
    by (simp_all add: scanf_ld_def long_clamp_def c_isspace_def text_eval)
  then show ?thesis
    by (simp add: List.map_filter_simps zone_reading_def read_zone_millidegrees_def snprintf_path_def
        two_zones_sysfs_def two_zones_def example_config_def zone_prefix_def contains_ci_def path_in_def)
qed

lemma mean_hides_critical_zone:
  "msp_thermal_reader_read (two_zones Aggregate_Mean) two_zones_sysfs = Some (Fin 65)"
  "msp_thermal_reader_read (two_zones Aggregate_Max) two_zones_sysfs = Some (Fin 90)"
  "\<not> violates (msp_thermal_reader_telemetry_fn (two_zones Aggregate_Mean) two_zones_sysfs)"
  "violates (msp_thermal_reader_telemetry_fn (two_zones Aggregate_Max) two_zones_sysfs)"
proof -
  let ?read = "\<lambda>kind. msp_thermal_reader_read (two_zones kind) two_zones_sysfs"
  have whole: "to_float (of_int n) = Fin (of_int n)" "to_single (Fin (of_int n)) = Fin (of_int n)"
    if "\<bar>n\<bar> \<le> 1000" for n
  proof -
    have "(of_int \<bar>n\<bar> :: rat) \<le> of_int 1000" using that by (simp only: of_int_le_iff)
    then have "\<bar>of_int n :: rat\<bar> \<le> 1000" by simp
    moreover have "(1000::rat) < 2 ^ 128" "(1000::rat) < 2 ^ 1024" by simp_all
    ultimately have "\<bar>of_int n :: rat\<bar> < 2 ^ 128" "\<bar>of_int n :: rat\<bar> < 2 ^ 1024" by linarith+
    with that show "to_float (of_int n) = Fin (of_int n)" "to_single (Fin (of_int n)) = Fin (of_int n)"
      using to_float_dyadic [OF dyadic53_of_int [of n]] by (simp_all add: round24_small_int)
  qed
  have w: "to_float 40 = Fin 40" "to_float 90 = Fin 90" "to_float 130 = Fin 130" "to_float 65 = Fin 65"
    "to_float 2 = Fin 2" "to_single (Fin 65) = Fin 65" "to_single (Fin 90) = Fin 90"
    using whole(1) [of 40] whole(1) [of 90] whole(1) [of 130] whole(1) [of 65] whole(1) [of 2]
      whole(2) [of 65] whole(2) [of 90]
    by (simp_all del: to_single.simps)
  have c: "celsius 40000 = Fin 40" "celsius 90000 = Fin 90" by (simp_all add: celsius_def w)
  have read: "?read kind = Some (to_single (aggregate_of kind [40000, 90000]))" for kind
    using read_aggregate [OF _ two_zones_readings [symmetric], of kind]
    by (simp add: two_zones_sysfs_def two_zones_def example_config_def)
  have "aggregate_of Aggregate_Mean [40000, 90000] = Fin 65" "aggregate_of Aggregate_Max [40000, 90000] = Fin 90"
    by (simp_all add: aggregate_of_def py_sum_def c w del: to_single.simps)
  then show mean: "?read Aggregate_Mean = Some (Fin 65)" and max: "?read Aggregate_Max = Some (Fin 90)"
    by (simp_all add: read w(6,7) del: to_single.simps)
  show "\<not> violates (msp_thermal_reader_telemetry_fn (two_zones Aggregate_Mean) two_zones_sysfs)"
    "violates (msp_thermal_reader_telemetry_fn (two_zones Aggregate_Max) two_zones_sysfs)"
    by (simp_all add: msp_thermal_reader_telemetry_fn_def mean max violates_def daemon_violated_def max_sram_alloc_def)
qed

section \<open>Properties\<close>

text \<open>
  C32. The watchdog thread ends at the first poll before which it is told to stop or whose sample
  violates a limit, and runs for ever when there is none. It sets the flag and sends exactly one
  signal when it ends by a violation, and does neither when it is stopped.
\<close>

theorem watchdog_outcome:
  "msp_telemetry_watchdog_daemon keep samples 0 flag =
    (if \<exists>k. stops_at keep samples k
     then Some (trace_at keep flag (LEAST k. stops_at keep samples k)) else None)"
proof (cases "\<exists>k. stops_at keep samples k")
  case True
  then have "stops_at keep samples (LEAST k. stops_at keep samples k)" by (rule LeastI_ex)
  from watchdog_first_stop [OF this, of 0] True show ?thesis by (auto dest: not_less_Least)
next
  case False
  with watchdog_returns_only_at_stop show ?thesis by (cases "msp_telemetry_watchdog_daemon keep samples 0 flag") auto
qed

text \<open>
  C15. For a daemon that aggregates by the maximum, on trees as the kernel writes them with readings
  below 16384 degrees, the watchdog thread signals at exactly the first poll at which a zone that
  the filter selects is above 85000 millidegrees or no such zone can be read: neither single
  precision nor the maximum hides or invents a violation.
\<close>

theorem watchdog_signals_first_critical:
  assumes "aggregate_kind config = Aggregate_Max"
    and "\<forall>i \<le> k. keep i \<and> reads_tree config (trees i) (fss i) substring \<and>
      in_range (fss i) substring (base_path config)"
    and "\<forall>i < k. \<not> critical (fss i) substring (base_path config)"
    and "critical (fss k) substring (base_path config)"
  shows "msp_telemetry_watchdog_daemon keep (\<lambda>i. msp_thermal_reader_telemetry_fn config (trees i)) 0 (Some False) =
    Some \<lparr>violation_flag = Some True, signals_sent = 1, poll_count = Suc k\<rparr>"
proof -
  let ?samples = "\<lambda>i. msp_thermal_reader_telemetry_fn config (trees i)"
  have stop: "stops_at keep ?samples i \<longleftrightarrow> critical (fss i) substring (base_path config)" if "i \<le> k" for i
    using assms(1,2) that sample_kernel(1) by (simp add: stops_at_def)
  have "msp_telemetry_watchdog_daemon keep ?samples 0 (Some False) = Some (trace_at keep (Some False) k)"
    by (rule watchdog_first_stop) (use stop assms(3,4) in auto)
  then show ?thesis using assms(2) by (simp add: trace_at_def)
qed

theorem watchdog_signals_first_critical_witness:
  "msp_telemetry_watchdog_daemon (\<lambda>_. True)
     (\<lambda>i. msp_thermal_reader_telemetry_fn (example_config ''know'') example_sysfs) 0 (Some False) =
     Some \<lparr>violation_flag = Some True, signals_sent = 1, poll_count = Suc 0\<rparr>"
proof (rule watchdog_signals_first_critical [where fss = "\<lambda>_. example_sysfs_python"])
  show "critical example_sysfs_python (Some ''know'') (base_path (example_config ''know''))"
    by (simp add: critical_def example_config_def example_millis)
qed (simp_all add: example_reads_tree)

text \<open>
  C22. On a sample that the thermal reader takes with the maximum, from a tree as the kernel writes
  it with readings below 16384 degrees, the daemon and the default policy of the executor, which
  sees the sample after it went through the socket, agree: both find a violation exactly when the
  hottest selected zone is above 85 degrees or none can be read, and the reason is the temperature.
\<close>

theorem daemon_and_policy_agree:
  assumes "aggregate_kind config = Aggregate_Max" and "reads_tree config tree fs substring"
    and "in_range fs substring (base_path config)"
  shows "(violates (msp_thermal_reader_telemetry_fn config tree) \<longleftrightarrow> critical fs substring (base_path config))
    \<and> verdict default_policy (msp_thermal_reader_telemetry_fn config tree) =
        (if critical fs substring (base_path config) then Some Temperature else None)"
  using sample_kernel [OF assms(2,1,3)] by blast

theorem daemon_and_policy_agree_witness:
  "\<not> violates (msp_thermal_reader_telemetry_fn (example_config ''CPI'') example_sysfs) \<and>
    verdict default_policy (msp_thermal_reader_telemetry_fn (example_config ''CPI'') example_sysfs) = None"
  using daemon_and_policy_agree [OF example_reads_tree(6,1,4)]
  by (simp add: critical_def example_config_def example_millis)

text \<open>
  C13. What Python reads through the daemon, its socket and \<^verbatim>\<open>WatchdogTelemetryReader\<close>, in whatever
  chunks the line arrives, is the temperature that \<^verbatim>\<open>LinuxThermalZoneReader\<close> computes on the same
  tree with the same filter and aggregate, rounded to single precision and to three decimals, and
  infinity where that reader raises. With the maximum and readings below 16384 degrees the
  rounding is undone and the two doubles are equal; with the mean they need not be, and the claim
  is for directories listed in the order of their names. The tree is as the kernel writes it.
\<close>

theorem daemon_serves_python_reading:
  assumes "reads_tree config tree fs substring" and "order_agrees (aggregate_kind config) fs"
    and "msp_thermal_reader_telemetry_fn config tree = (temp, sram, violation)"
    and "[] \<notin> set chunks" and "concat chunks = telemetry_line temp sram violation"
  shows "\<exists>reading. telemetry_reader_call daemon_ops \<lparr>reply = chunks, closed = False\<rparr> =
        Some (Inr reading, \<lparr>reply = [], closed = True\<rparr>) \<and>
      reading = (case python_reading fs (aggregate_kind config) substring (base_path config) of
        Inr t \<Rightarrow> wire_temperature (to_single t) | Inl _ \<Rightarrow> PInf) \<and>
      (aggregate_kind config = Aggregate_Max \<and> in_range fs substring (base_path config) \<longrightarrow>
        reading = (case python_reading fs Aggregate_Max substring (base_path config) of Inr t \<Rightarrow> t | Inl _ \<Rightarrow> PInf))"
proof -
  have temp: "temp = (case python_reading fs (aggregate_kind config) substring (base_path config) of
      Inr t \<Rightarrow> to_single t | Inl _ \<Rightarrow> PInf)"
    using assms(3) telemetry_fn_kernel [OF assms(1,2)] by simp
  then have range: "float32_range temp"
    by (simp add: float32_range_PInf del: to_single.simps split: sum.split)
  have "wire_temperature temp = (case python_reading fs (aggregate_kind config) substring (base_path config) of
      Inr t \<Rightarrow> wire_temperature (to_single t) | Inl _ \<Rightarrow> PInf)"
    by (simp add: temp split: sum.split)
  with read_full_daemon [OF range assms(4,5)] sample_kernel(3) [OF assms(1)] assms(3) show ?thesis
    by (intro exI [of _ "wire_temperature temp"]) (simp add: telemetry_reader_call_def)
qed

theorem daemon_serves_python_reading_witness:
  "telemetry_reader_call daemon_ops
     \<lparr>reply = [telemetry_line (to_single (celsius 45123)) 0 False], closed = False\<rparr> =
     Some (Inr (celsius 45123), \<lparr>reply = [], closed = True\<rparr>)"
proof -
  let ?c = "example_config ''CPI''"
  have py: "python_reading example_sysfs_python Aggregate_Max (Some ''CPI'') (base_path ?c) = Inr (celsius 45123)"
    using python_reading_listed [OF example_kernel_tree example_mirrors example_orders(1)]
    by (simp add: example_config_def example_millis aggregate_of_def)
  have order: "order_agrees (aggregate_kind ?c) example_sysfs_python"
    using example_orders(1) by (simp add: example_reads_tree)
  have "msp_thermal_reader_telemetry_fn ?c example_sysfs = (to_single (celsius 45123), 0, False)"
    using telemetry_fn_kernel [OF example_reads_tree(1) order] by (simp add: py example_reads_tree del: to_single.simps)
  from daemon_serves_python_reading [OF example_reads_tree(1) order this, of "[telemetry_line (to_single (celsius 45123)) 0 False]"]
  show ?thesis
    using telemetry_line_fits [OF float32_to_single [of "celsius 45123"], of 0 False] example_reads_tree(4)
    by (auto simp: py telemetry_text_def example_reads_tree simp del: to_single.simps)
qed

end
