(* ===== verification/Watchdogd.thy ===== *)
theory Watchdogd
  imports Daemon
begin

text \<open>
  The \<^verbatim>\<open>watchdogd\<close> program: the telemetry server of \<^verbatim>\<open>src/daemon/telemetry_server.c\<close>, with the partial
  writes of its loop, and \<^verbatim>\<open>src/daemon/watchdogd_main.c\<close>: the command line, and the main loop as a
  step relation in which the watchdog thread's signal can leave the server at any point, also out
  of the thermal reader that answers a client. The
  locale \<open>byte_sink\<close> is what the write loop needs of a connection, interpreted on a connection
  whose peer takes a line in pieces and may hang up.
\<close>

section \<open>Writing a line to a connection\<close>

datatype write_outcome = Wrote nat | Interrupted | Failed

type_synonym 'c writer = "string \<Rightarrow> 'c \<Rightarrow> write_outcome \<times> 'c"

text \<open>The results 0 and -1 are True and False; the loop goes on while calls are interrupted.\<close>

partial_function (option) write_all :: "'c writer \<Rightarrow> string \<Rightarrow> nat \<Rightarrow> 'c \<Rightarrow> (bool \<times> 'c) option" where
  "write_all write_to buf written fd =
     (if length buf \<le> written then Some (True, fd)
      else case write_to (drop written buf) fd of
        (Interrupted, fd') \<Rightarrow> write_all write_to buf written fd'
      | (Failed, fd') \<Rightarrow> Some (False, fd')
      | (Wrote n, fd') \<Rightarrow> write_all write_to buf (written + n) fd')"

declare write_all.simps [simp del]

text \<open>The connection when the loop is left by a signal after \<open>rounds\<close> calls of \<^verbatim>\<open>write\<close>.\<close>

fun write_rounds :: "nat \<Rightarrow> 'c writer \<Rightarrow> string \<Rightarrow> nat \<Rightarrow> 'c \<Rightarrow> 'c" where
  "write_rounds 0 write_to buf written fd = fd"
| "write_rounds (Suc rounds) write_to buf written fd =
     (if length buf \<le> written then fd
      else case write_to (drop written buf) fd of
        (Interrupted, fd') \<Rightarrow> write_rounds rounds write_to buf written fd'
      | (Failed, fd') \<Rightarrow> fd'
      | (Wrote n, fd') \<Rightarrow> write_rounds rounds write_to buf (written + n) fd')"

locale byte_sink =
  fixes write_to :: "'c writer" and received :: "'c \<Rightarrow> string list"
    and retries :: "'c \<Rightarrow> nat" and gone :: "'c \<Rightarrow> bool"
  assumes wrote: "bytes \<noteq> [] \<Longrightarrow> write_to bytes fd = (Wrote n, fd') \<Longrightarrow>
      0 < n \<and> n \<le> length bytes \<and> received fd' = received fd @ [take n bytes]"
    and interrupted: "write_to bytes fd = (Interrupted, fd') \<Longrightarrow>
      retries fd' < retries fd \<and> received fd' = received fd"
    and failed: "write_to bytes fd = (Failed, fd') \<Longrightarrow> received fd' = received fd \<and> gone fd"
    and stays: "write_to bytes fd = (r, fd') \<Longrightarrow> gone fd' \<Longrightarrow> gone fd"
begin

definition delivers :: "bool \<times> 'c \<Rightarrow> string \<Rightarrow> 'c \<Rightarrow> bool" where
  "delivers r buf fd \<longleftrightarrow>
     (\<exists>chunks. received (snd r) = received fd @ chunks \<and> [] \<notin> set chunks \<and> prefix (concat chunks) buf \<and>
       (\<not> gone fd \<longrightarrow> fst r \<and> concat chunks = buf))"

lemma delivers_wrote:
  assumes w: "write_to buf fd = (Wrote n, fd')" and "buf \<noteq> []" and "delivers r (drop n buf) fd'"
  shows "delivers r buf fd"
proof -
  obtain chunks where c: "received (snd r) = received fd' @ chunks" "[] \<notin> set chunks"
    "prefix (concat chunks) (drop n buf)" "\<not> gone fd' \<longrightarrow> fst r \<and> concat chunks = drop n buf"
    using assms(3) by (auto simp: delivers_def)
  note n = wrote [OF assms(2) w]
  have split: "buf = take n buf @ drop n buf" by simp
  have "received (snd r) = received fd @ (take n buf # chunks)" using n c(1) by simp
  moreover have "[] \<notin> set (take n buf # chunks)" using n assms(2) c(2) by auto
  moreover have "prefix (concat (take n buf # chunks)) buf" using c(3) by (metis concat.simps(2) same_prefix_prefix split)
  moreover have "\<not> gone fd \<longrightarrow> fst r \<and> concat (take n buf # chunks) = buf"
    using c(4) stays [OF w] by auto
  ultimately show ?thesis unfolding delivers_def by blast
qed

lemma delivers_interrupted:
  "write_to buf fd = (Interrupted, fd') \<Longrightarrow> delivers r rest fd' \<Longrightarrow> delivers r rest fd"
  using interrupted stays by (fastforce simp: delivers_def)

text \<open>The loop ends; a peer that stays gets the whole buffer, any other a part of it from the start.\<close>

lemma write_all_delivers:
  "\<exists>r. write_all write_to buf written fd = Some r \<and> delivers r (drop written buf) fd"
proof (induction "length buf - written" arbitrary: written fd rule: less_induct)
  case outer: less
  show ?case
  proof (induction "retries fd" arbitrary: fd rule: less_induct)
    case inner: less
    show ?case
    proof (cases "length buf \<le> written")
      case True
      then show ?thesis by (subst write_all.simps) (simp add: delivers_def)
    next
      case False
      then have ne: "drop written buf \<noteq> []" by simp
      obtain o' fd' where w: "write_to (drop written buf) fd = (o', fd')" by fastforce
      have step: "write_all write_to buf written fd =
          (case o' of Interrupted \<Rightarrow> write_all write_to buf written fd' | Failed \<Rightarrow> Some (False, fd')
           | Wrote n \<Rightarrow> write_all write_to buf (written + n) fd')"
        using False w by (subst write_all.simps) (simp split: write_outcome.split)
      show ?thesis
      proof (cases o')
        case (Wrote n)
        then have "length buf - (written + n) < length buf - written" using wrote [OF ne] w False by fastforce
        from outer [OF this, of fd'] obtain r where
          "write_all write_to buf (written + n) fd' = Some r" "delivers r (drop n (drop written buf)) fd'"
          by (auto simp: add.commute)
        with delivers_wrote [OF w [unfolded Wrote] ne] step Wrote show ?thesis by auto
      next
        case Interrupted
        then have "retries fd' < retries fd" using interrupted w by blast
        from inner [OF this] delivers_interrupted [OF w [unfolded Interrupted]] step Interrupted
        show ?thesis by auto
      next
        case Failed
        with failed [OF w [unfolded Failed]] step show ?thesis by (simp add: delivers_def)
      qed
    qed
  qed
qed

text \<open>A loop that is left early has sent a part of the buffer from the start.\<close>

lemma write_rounds_delivers:
  "\<exists>chunks. received (write_rounds rounds write_to buf written fd) = received fd @ chunks \<and>
     prefix (concat chunks) (drop written buf)"
proof (induction rounds arbitrary: written fd)
  case (Suc rounds)
  show ?case
  proof (cases "length buf \<le> written")
    case False
    then have ne: "drop written buf \<noteq> []" by simp
    obtain o' fd' where w: "write_to (drop written buf) fd = (o', fd')" by fastforce
    show ?thesis
    proof (cases o')
      case (Wrote n)
      note n = wrote [OF ne w [unfolded Wrote]]
      obtain chunks where c: "received (write_rounds rounds write_to buf (written + n) fd') = received fd' @ chunks"
        "prefix (concat chunks) (drop n (drop written buf))"
        using Suc [of "written + n" fd'] by (auto simp: add.commute)
      have "prefix (concat (take n (drop written buf) # chunks)) (drop written buf)"
        using c(2) by (metis append_take_drop_id concat.simps(2) same_prefix_prefix)
      with False w Wrote n c(1) show ?thesis
        by (intro exI [of _ "take n (drop written buf) # chunks"]) simp
    next
      case Interrupted
      with Suc [of written fd'] interrupted [OF w [unfolded Interrupted]] False w show ?thesis by simp
    next
      case Failed
      with failed [OF w [unfolded Failed]] False w show ?thesis by (intro exI [of _ "[]"]) simp
    qed
  qed (intro exI [of _ "[]"], simp)
qed simp

end

text \<open>A connected client: what its end does with the calls to come, and the pieces it was sent.\<close>

datatype peer_move = Take nat | Interrupt | Hang_Up

record peer =
  moves :: "peer_move list"
  delivered :: "string list"

definition peer_write :: "peer writer" where
  "peer_write bytes p =
     (case moves p of
        [] \<Rightarrow> (Wrote (length bytes), p\<lparr>delivered := delivered p @ [bytes]\<rparr>)
      | Take n # ms \<Rightarrow>
          let k = min (Suc n) (length bytes)
          in (Wrote k, p\<lparr>moves := ms, delivered := delivered p @ [take k bytes]\<rparr>)
      | Interrupt # ms \<Rightarrow> (Interrupted, p\<lparr>moves := ms\<rparr>)
      | Hang_Up # ms \<Rightarrow> (Failed, p))"

definition hangs_up :: "peer \<Rightarrow> bool" where
  "hangs_up p \<longleftrightarrow> Hang_Up \<in> set (moves p)"

interpretation client: byte_sink peer_write delivered "length \<circ> moves" hangs_up
  by unfold_locales
    (auto simp: peer_write_def hangs_up_def Let_def split: list.splits peer_move.splits)

section \<open>The accept loop\<close>

text \<open>
  What one round of the loop meets: \<^verbatim>\<open>select\<close> times out or is interrupted, \<^verbatim>\<open>accept\<close> fails, or a client is
  connected and the telemetry is read. Or the fallback signal of the watchdog leaves the server for
  the main loop: while no connection is open, or while one is being answered, after some calls of
  \<^verbatim>\<open>write\<close>; none, when the telemetry is still being read. Nothing is closed then.
\<close>

datatype 'c server_event =
    Idle
  | Refused
  | Accepted sample 'c
  | Jump_Idle
  | Jump_Answering sample 'c nat

text \<open>
  The events with the flag as the loop head reads it; the result is the closed connections and the
  one that a jump leaves open.
\<close>

fun server_loop :: "'c writer \<Rightarrow> (bool \<times> 'c server_event) list \<Rightarrow> ('c list \<times> 'c option) option" where
  "server_loop write_to [] = Some ([], None)"
| "server_loop write_to ((keep_running, ev) # evs) =
     (if \<not> keep_running then Some ([], None)
      else case ev of
        Accepted (temp, sram, violation) fd \<Rightarrow>
          (case write_all write_to (telemetry_line temp sram violation) 0 fd of
             None \<Rightarrow> None
           | Some (_, fd') \<Rightarrow> map_option (apfst (Cons fd')) (server_loop write_to evs))
      | Jump_Idle \<Rightarrow> Some ([], None)
      | Jump_Answering (temp, sram, violation) fd rounds \<Rightarrow>
          Some ([], Some (write_rounds rounds write_to (telemetry_line temp sram violation) 0 fd))
      | _ \<Rightarrow> server_loop write_to evs)"

text \<open>The clients that the server finishes with, and the one that it is taken away from.\<close>

fun clients :: "(bool \<times> 'c server_event) list \<Rightarrow> (sample \<times> 'c) list" where
  "clients [] = []"
| "clients ((keep_running, ev) # evs) =
     (if \<not> keep_running then []
      else case ev of
        Accepted s fd \<Rightarrow> (s, fd) # clients evs
      | Jump_Idle \<Rightarrow> []
      | Jump_Answering s fd rounds \<Rightarrow> []
      | _ \<Rightarrow> clients evs)"

fun deserted :: "(bool \<times> 'c server_event) list \<Rightarrow> (sample \<times> 'c) option" where
  "deserted [] = None"
| "deserted ((keep_running, ev) # evs) =
     (if \<not> keep_running then None
      else case ev of
        Jump_Idle \<Rightarrow> None
      | Jump_Answering s fd rounds \<Rightarrow> Some (s, fd)
      | _ \<Rightarrow> deserted evs)"

definition left_partway :: "sample \<times> peer \<Rightarrow> peer \<Rightarrow> bool" where
  "left_partway a p' \<longleftrightarrow>
     (case a of ((temp, sram, violation), p) \<Rightarrow> \<exists>chunks. delivered p' = delivered p @ chunks \<and>
        prefix (concat chunks) (telemetry_line temp sram violation))"

lemma jump_left_partway:
  "left_partway ((temp, sram, violation), p)
     (write_rounds rounds peer_write (telemetry_line temp sram violation) 0 p)"
  using client.write_rounds_delivers [of rounds "telemetry_line temp sram violation" 0 p]
  by (simp add: left_partway_def)

definition answered :: "sample \<times> peer \<Rightarrow> peer \<Rightarrow> bool" where
  "answered a p' \<longleftrightarrow>
     (case a of ((temp, sram, violation), p) \<Rightarrow>
        prefix (concat (delivered p')) (telemetry_line temp sram violation) \<and>
        (\<not> hangs_up p \<longrightarrow>
           read_full daemon_ops \<lparr>reply = delivered p', closed = False\<rparr> =
             Some (Inr (wire_temperature temp, int (unat sram), violation), \<lparr>reply = [], closed = True\<rparr>)))"

lemma client_answered:
  assumes "float32_range temp" and "delivered p = []"
  shows "\<exists>ok p'. write_all peer_write (telemetry_line temp sram violation) 0 p = Some (ok, p') \<and>
    answered ((temp, sram, violation), p) p'"
proof -
  obtain ok chunks p' where w: "write_all peer_write (telemetry_line temp sram violation) 0 p = Some (ok, p')"
    "delivered p' = chunks" "[] \<notin> set chunks" "prefix (concat chunks) (telemetry_line temp sram violation)"
    "\<not> hangs_up p \<longrightarrow> concat chunks = telemetry_line temp sram violation"
    using client.write_all_delivers [of "telemetry_line temp sram violation" 0 p] assms(2)
    by (auto simp: client.delivers_def)
  then have "answered ((temp, sram, violation), p) p'"
    using read_full_daemon [OF assms(1) w(3)] by (simp add: answered_def)
  with w(1) show ?thesis by blast
qed

text \<open>
  C23. However the writes to a client are split or interrupted, every client whose answer the server
  finishes and that does not hang up reads the sample taken for it, with the temperature as the
  line carries it, rounded to three decimals; a client that hangs up is left with a part of its
  line and does not keep the others from theirs. The server finishes with every client that it
  accepts before it is told to stop or left by the fallback signal; the one client that the signal
  may find connected has a part of its line, and its connection is not closed.
\<close>

theorem server_answers_clients:
  assumes "\<forall>((temp, _), p) \<in> set (clients evs). float32_range temp \<and> delivered p = []"
  shows "\<exists>closed left. server_loop peer_write evs = Some (closed, left) \<and>
    list_all2 answered (clients evs) closed \<and> rel_option left_partway (deserted evs) left"
  using assms
proof (induction evs)
  case (Cons e evs)
  obtain keep ev where e: "e = (keep, ev)" by (metis surj_pair)
  show ?case
  proof (cases "keep \<and> (\<exists>s p. ev = Accepted s p)")
    case True
    then obtain temp sram violation p where ev: "ev = Accepted (temp, sram, violation) p" by (metis surj_pair)
    with True Cons.prems have ok: "float32_range temp" "delivered p = []" by (auto simp: e)
    from client_answered [OF ok] obtain b p' where w:
      "write_all peer_write (telemetry_line temp sram violation) 0 p = Some (b, p')"
      "answered ((temp, sram, violation), p) p'" by blast
    from Cons True ev obtain closed left where IH: "server_loop peer_write evs = Some (closed, left)"
      "list_all2 answered (clients evs) closed" "rel_option left_partway (deserted evs) left"
      by (auto simp: e)
    with w True ev show ?thesis by (auto simp: e)
  next
    case False
    with Cons jump_left_partway show ?thesis by (cases ev) (auto simp: e)
  qed
qed simp

definition example_events :: "(bool \<times> peer server_event) list" where
  "example_events =
     [(True, Idle),
      (True, Accepted (Fin 42, 7, False) \<lparr>moves = [Take 2, Hang_Up], delivered = []\<rparr>),
      (True, Accepted (PInf, 0, False) \<lparr>moves = [Take 0, Interrupt], delivered = []\<rparr>),
      (True, Jump_Answering (Fin 90, 0, False) \<lparr>moves = [Interrupt, Take 1], delivered = []\<rparr> 2),
      (True, Refused)]"

theorem server_answers_clients_witness:
  "\<exists>p p' p''. server_loop peer_write example_events = Some ([p, p'], Some p'') \<and>
    prefix (concat (delivered p'')) (telemetry_line (Fin 90) 0 False) \<and>
    read_full daemon_ops \<lparr>reply = delivered p', closed = False\<rparr> =
      Some (Inr (PInf, 0, False), \<lparr>reply = [], closed = True\<rparr>)"
proof -
  have c: "clients example_events =
      [((Fin 42, 7, False), \<lparr>moves = [Take 2, Hang_Up], delivered = []\<rparr>),
       ((PInf, 0, False), \<lparr>moves = [Take 0, Interrupt], delivered = []\<rparr>)]"
    "deserted example_events = Some ((Fin 90, 0, False), \<lparr>moves = [Interrupt, Take 1], delivered = []\<rparr>)"
    by (simp_all add: example_events_def)
  have "\<forall>((temp, _), p) \<in> set (clients example_events). float32_range temp \<and> delivered p = []"
    by (simp add: c float32_range_def)
  from server_answers_clients [OF this] show ?thesis
    by (auto simp: c list_all2_Cons1 answered_def hangs_up_def left_partway_def option_rel_Some1)
qed

section \<open>The command line\<close>

record daemon_args =
  socket_path :: string
  thermal_config :: reader_config

text \<open>The exit status, or the arguments to run with; \<^verbatim>\<open>snprintf\<close> truncates what does not fit.\<close>

datatype startup = Exit int | Run daemon_args

fun parse_args :: "string list \<Rightarrow> daemon_args \<Rightarrow> startup" where
  "parse_args [] a =
     (if 108 \<le> length (socket_path a) then Exit 2 else Run a)"
| "parse_args [arg] a =
     (if arg = ''-h'' \<or> arg = ''--help'' then Exit 0 else Exit 2)"
| "parse_args (arg # val # rest) a =
     (if arg = ''--socket'' then parse_args rest (a\<lparr>socket_path := val\<rparr>)
      else if arg = ''--thermal-base''
      then parse_args rest (a\<lparr>thermal_config := (thermal_config a)\<lparr>base_path := take 255 val\<rparr>\<rparr>)
      else if arg = ''--zone-type''
      then parse_args rest (a\<lparr>thermal_config := (thermal_config a)\<lparr>zone_type_filter := take 63 val\<rparr>\<rparr>)
      else if arg = ''--aggregate''
      then (if val = ''max''
            then parse_args rest (a\<lparr>thermal_config := (thermal_config a)\<lparr>aggregate_kind := Aggregate_Max\<rparr>\<rparr>)
            else if val = ''mean''
            then parse_args rest (a\<lparr>thermal_config := (thermal_config a)\<lparr>aggregate_kind := Aggregate_Mean\<rparr>\<rparr>)
            else Exit 2)
      else if arg = ''-h'' \<or> arg = ''--help'' then Exit 0 else Exit 2)"

text \<open>\<^verbatim>\<open>getenv("MSP_WATCHDOG_SOCKET")\<close> is a parameter.\<close>

definition daemon_startup :: "string option \<Rightarrow> string list \<Rightarrow> startup" where
  "daemon_startup environ argv =
     parse_args argv
       \<lparr>socket_path = (case environ of None \<Rightarrow> ''/tmp/msp_watchdogd.sock''
                      | Some p \<Rightarrow> if p = [] then ''/tmp/msp_watchdogd.sock'' else p),
        thermal_config = msp_thermal_reader_default_config\<rparr>"

definition fits_buffers :: "reader_config \<Rightarrow> bool" where
  "fits_buffers c \<longleftrightarrow> length (base_path c) < 256 \<and> length (zone_type_filter c) < 64"

lemma parse_args_fit:
  "parse_args argv a = Run a' \<Longrightarrow> fits_buffers (thermal_config a) \<Longrightarrow>
     fits_buffers (thermal_config a') \<and> length (socket_path a') < 108"
  by (induction argv a rule: parse_args.induct) (auto simp: fits_buffers_def split: if_splits)

section \<open>The main loop\<close>

text \<open>
  The points of the main thread at which the watchdog's signal or another event can meet it: the
  head of the loop, the start of the server before and after its socket exists, the test of the
  flag in the accept loop, \<^verbatim>\<open>select\<close> and \<^verbatim>\<open>accept\<close>, an accepted connection, the thermal reader that
  answers it with its directory open and with a file of a zone open as well, the line that is
  written, the cooldown, and the end.
\<close>

datatype main_phase =
    Loop_Head | Server_Start | Server_Binding | Testing_Flag | Selecting
  | Connected | Reading_Directory | Reading_File | Writing_Line | Cooldown | Stopped

text \<open>
  The descriptors that the main thread opened, and the phases that fallbacks left, the last one
  first. Descriptors that a watchdog thread opens for its own samples are not counted: no signal
  leaves that thread's reads.
\<close>

record daemon_state =
  main_at :: main_phase
  g_keep_running :: bool
  watchdogs :: nat
  open_fds :: nat
  abandoned :: "main_phase list"

definition daemon_initial :: daemon_state where
  "daemon_initial =
     \<lparr>main_at = Loop_Head, g_keep_running = True, watchdogs = 0, open_fds = 0, abandoned = []\<rparr>"

definition goes_to :: "main_phase \<Rightarrow> daemon_state \<Rightarrow> daemon_state" where
  "goes_to p s = s\<lparr>main_at := p\<rparr>"

definition opens :: "main_phase \<Rightarrow> daemon_state \<Rightarrow> daemon_state" where
  "opens p s = s\<lparr>main_at := p, open_fds := Suc (open_fds s)\<rparr>"

definition closes :: "main_phase \<Rightarrow> daemon_state \<Rightarrow> daemon_state" where
  "closes p s = s\<lparr>main_at := p, open_fds := open_fds s - 1\<rparr>"

text \<open>A fallback is \<^verbatim>\<open>siglongjmp\<close> to the loop body, so nothing that the server opened is closed.\<close>

inductive daemon_step :: "daemon_state \<Rightarrow> daemon_state \<Rightarrow> bool" where
  arm: "main_at s = Loop_Head \<Longrightarrow> g_keep_running s \<Longrightarrow>
    daemon_step s (s\<lparr>main_at := Server_Start, watchdogs := Suc (watchdogs s)\<rparr>)"
| no_thread: "main_at s = Loop_Head \<Longrightarrow> g_keep_running s \<Longrightarrow> daemon_step s (goes_to Stopped s)"
| leave: "main_at s = Loop_Head \<Longrightarrow> \<not> g_keep_running s \<Longrightarrow> daemon_step s (goes_to Stopped s)"
| no_socket: "main_at s = Server_Start \<Longrightarrow> daemon_step s (goes_to Loop_Head s)"
| open_socket: "main_at s = Server_Start \<Longrightarrow> daemon_step s (opens Server_Binding s)"
| bind_fails: "main_at s = Server_Binding \<Longrightarrow> daemon_step s (closes Loop_Head s)"
| listening: "main_at s = Server_Binding \<Longrightarrow> daemon_step s (goes_to Testing_Flag s)"
| next_round: "main_at s = Testing_Flag \<Longrightarrow> g_keep_running s \<Longrightarrow> daemon_step s (goes_to Selecting s)"
| server_ends: "main_at s = Testing_Flag \<Longrightarrow> \<not> g_keep_running s \<Longrightarrow> daemon_step s (closes Loop_Head s)"
| no_client: "main_at s = Selecting \<Longrightarrow> daemon_step s (goes_to Testing_Flag s)"
| accept: "main_at s = Selecting \<Longrightarrow> daemon_step s (opens Connected s)"
| no_directory: "main_at s = Connected \<Longrightarrow> daemon_step s (goes_to Writing_Line s)"
| opendir: "main_at s = Connected \<Longrightarrow> daemon_step s (opens Reading_Directory s)"
| fopen: "main_at s = Reading_Directory \<Longrightarrow> daemon_step s (opens Reading_File s)"
| fclose: "main_at s = Reading_File \<Longrightarrow> daemon_step s (closes Reading_Directory s)"
| closedir: "main_at s = Reading_Directory \<Longrightarrow> daemon_step s (closes Writing_Line s)"
| answered_client: "main_at s = Writing_Line \<Longrightarrow> daemon_step s (closes Testing_Flag s)"
| fallback: "main_at s \<noteq> Stopped \<Longrightarrow> 0 < watchdogs s \<Longrightarrow>
    daemon_step s (s\<lparr>main_at := Cooldown, watchdogs := watchdogs s - 1, abandoned := main_at s # abandoned s\<rparr>)"
| watchdog_ends: "0 < watchdogs s \<Longrightarrow> daemon_step s (s\<lparr>watchdogs := watchdogs s - 1\<rparr>)"
| cooled: "main_at s = Cooldown \<Longrightarrow> daemon_step s (goes_to Loop_Head s)"
| shutdown: "daemon_step s (s\<lparr>g_keep_running := False\<rparr>)"

definition daemon_reachable :: "daemon_state \<Rightarrow> bool" where
  "daemon_reachable = daemon_step\<^sup>*\<^sup>* daemon_initial"

text \<open>The descriptors that the main thread holds in a phase: socket, connection, directory, file.\<close>

primrec in_use :: "main_phase \<Rightarrow> nat" where
  "in_use Loop_Head = 0"
| "in_use Server_Start = 0"
| "in_use Server_Binding = 1"
| "in_use Testing_Flag = 1"
| "in_use Selecting = 1"
| "in_use Connected = 2"
| "in_use Reading_Directory = 3"
| "in_use Reading_File = 4"
| "in_use Writing_Line = 2"
| "in_use Cooldown = 0"
| "in_use Stopped = 0"

definition leaked :: "daemon_state \<Rightarrow> nat" where
  "leaked s = (\<Sum>p\<leftarrow>abandoned s. in_use p)"

lemmas daemon_moves = goes_to_def opens_def closes_def leaked_def

lemma daemon_step_fds:
  assumes "daemon_step s s'" and "open_fds s = leaked s + in_use (main_at s)"
  shows "open_fds s' = leaked s' + in_use (main_at s')"
  using assms by (cases rule: daemon_step.cases) (simp_all add: daemon_moves)

lemma in_use_bounds: "in_use p \<le> 4" "0 < in_use p \<Longrightarrow> 1 \<le> in_use p"
  by (cases p; simp)+

lemma leak_bounds:
  "length (filter (\<lambda>p. 0 < in_use p) ps) \<le> (\<Sum>p\<leftarrow>ps. in_use p) \<and>
   (\<Sum>p\<leftarrow>ps. in_use p) \<le> 4 * length (filter (\<lambda>p. 0 < in_use p) ps)"
proof (induction ps)
  case (Cons p ps)
  with in_use_bounds(1) [of p] show ?case by auto
qed simp

text \<open>One turn of a daemon that stays hot: arm, serve, be signalled, cool down.\<close>

definition hot_state :: "main_phase \<Rightarrow> nat \<Rightarrow> nat \<Rightarrow> main_phase list \<Rightarrow> daemon_state" where
  "hot_state p w n ps = \<lparr>main_at = p, g_keep_running = True, watchdogs = w, open_fds = n, abandoned = ps\<rparr>"

lemma hot_serving: "daemon_step\<^sup>*\<^sup>* (hot_state Loop_Head 0 n ps) (hot_state Selecting 1 (Suc n) ps)"
proof -
  have "daemon_step (hot_state Loop_Head 0 n ps) (hot_state Server_Start 1 n ps)"
    using daemon_step.arm [of "hot_state Loop_Head 0 n ps"] by (simp add: hot_state_def)
  moreover have "daemon_step (hot_state Server_Start 1 n ps) (hot_state Server_Binding 1 (Suc n) ps)"
    using daemon_step.open_socket [of "hot_state Server_Start 1 n ps"] by (simp add: hot_state_def daemon_moves)
  moreover have "daemon_step (hot_state Server_Binding 1 (Suc n) ps) (hot_state Testing_Flag 1 (Suc n) ps)"
    using daemon_step.listening [of "hot_state Server_Binding 1 (Suc n) ps"] by (simp add: hot_state_def daemon_moves)
  moreover have "daemon_step (hot_state Testing_Flag 1 (Suc n) ps) (hot_state Selecting 1 (Suc n) ps)"
    using daemon_step.next_round [of "hot_state Testing_Flag 1 (Suc n) ps"] by (simp add: hot_state_def daemon_moves)
  ultimately show ?thesis by (meson converse_rtranclp_into_rtranclp rtranclp.rtrancl_refl)
qed

lemma hot_reading: "daemon_step\<^sup>*\<^sup>* (hot_state Selecting 1 n ps) (hot_state Reading_File 1 (n + 3) ps)"
proof -
  have "daemon_step (hot_state Selecting 1 n ps) (hot_state Connected 1 (n + 1) ps)"
    using daemon_step.accept [of "hot_state Selecting 1 n ps"] by (simp add: hot_state_def daemon_moves)
  moreover have "daemon_step (hot_state Connected 1 (n + 1) ps) (hot_state Reading_Directory 1 (n + 2) ps)"
    using daemon_step.opendir [of "hot_state Connected 1 (n + 1) ps"] by (simp add: hot_state_def daemon_moves)
  moreover have "daemon_step (hot_state Reading_Directory 1 (n + 2) ps) (hot_state Reading_File 1 (n + 3) ps)"
    using daemon_step.fopen [of "hot_state Reading_Directory 1 (n + 2) ps"]
    by (simp add: hot_state_def daemon_moves numeral_3_eq_3)
  ultimately show ?thesis by (meson converse_rtranclp_into_rtranclp rtranclp.rtrancl_refl)
qed

lemma hot_fallback:
  assumes "p \<noteq> Stopped"
  shows "daemon_step\<^sup>*\<^sup>* (hot_state p 1 n ps) (hot_state Loop_Head 0 n (p # ps))"
proof -
  have "daemon_step (hot_state p 1 n ps) (hot_state Cooldown 0 n (p # ps))"
    using daemon_step.fallback [of "hot_state p 1 n ps"] assms by (simp add: hot_state_def)
  moreover have "daemon_step (hot_state Cooldown 0 n (p # ps)) (hot_state Loop_Head 0 n (p # ps))"
    using daemon_step.cooled [of "hot_state Cooldown 0 n (p # ps)"] by (simp add: hot_state_def daemon_moves)
  ultimately show ?thesis by (meson converse_rtranclp_into_rtranclp rtranclp.rtrancl_refl)
qed

text \<open>Both ends of the bound are met: one descriptor per turn between clients, four while a file is read.\<close>

lemma hot_turns:
  "daemon_reachable (hot_state Loop_Head 0 n (replicate n Selecting))"
  "daemon_reachable (hot_state Loop_Head 0 (4 * n) (replicate n Reading_File))"
proof -
  have start: "daemon_reachable (hot_state Loop_Head 0 0 [])"
    by (simp add: daemon_reachable_def daemon_initial_def hot_state_def)
  show "daemon_reachable (hot_state Loop_Head 0 n (replicate n Selecting))"
  proof (induction n)
    case (Suc n)
    note hot_serving [of n "replicate n Selecting"]
    also note hot_fallback [of Selecting "Suc n" "replicate n Selecting"]
    finally show ?case using Suc by (simp add: daemon_reachable_def)
  qed (simp add: start)
  show "daemon_reachable (hot_state Loop_Head 0 (4 * n) (replicate n Reading_File))"
  proof (induction n)
    case (Suc n)
    note hot_serving [of "4 * n" "replicate n Reading_File"]
    also note hot_reading [of "Suc (4 * n)" "replicate n Reading_File"]
    also note hot_fallback [of Reading_File "Suc (4 * n) + 3" "replicate n Reading_File"]
    finally show ?case using Suc by (simp add: daemon_reachable_def add.commute)
  qed (simp add: start)
qed

text \<open>
  C16. A fallback closes nothing, and the server opens everything anew: in every reachable state the
  descriptors that the main thread has open are those of its phase plus, for every fallback so far,
  all that were open in the phase it left. That is between one and four for each fallback that
  leaves the server with its socket: the socket, the connection that is answered, and the
  directory and the file that the thermal reader has open while it answers.
\<close>

theorem fallback_leaks_descriptors:
  assumes "daemon_reachable s"
  shows "open_fds s = leaked s + in_use (main_at s) \<and>
    length (filter (\<lambda>p. 0 < in_use p) (abandoned s)) \<le> leaked s \<and>
    leaked s \<le> 4 * length (filter (\<lambda>p. 0 < in_use p) (abandoned s))"
proof -
  have "open_fds s = leaked s + in_use (main_at s)"
    using assms unfolding daemon_reachable_def
  proof (induction rule: rtranclp_induct)
    case base
    show ?case by (simp add: daemon_initial_def leaked_def)
  next
    case (step s s')
    then show ?case using daemon_step_fds by blast
  qed
  then show ?thesis using leak_bounds by (simp add: leaked_def)
qed

theorem fallback_leaks_descriptors_witness:
  "daemon_reachable (hot_state Loop_Head 0 1024 (replicate 256 Reading_File)) \<and>
   leaked (hot_state Loop_Head 0 1024 (replicate 256 Reading_File)) = 1024 \<and>
   leaked (hot_state Loop_Head 0 1024 (replicate 1024 Selecting)) = 1024"
  using fallback_leaks_descriptors [OF hot_turns(1) [of 1024]]
    fallback_leaks_descriptors [OF hot_turns(2) [of 256]] hot_turns(2) [of 256]
  by (simp add: hot_state_def)

text \<open>
  The server returns when its socket cannot be bound, and the main loop then starts over at once: any
  number of watchdog threads can be started without the daemon serving, cooling down or being told to stop.
\<close>

lemma unbound_daemon_starts_threads:
  "\<exists>s. daemon_reachable s \<and> watchdogs s = n \<and> main_at s = Loop_Head \<and> g_keep_running s"
proof (induction n)
  case 0
  have "daemon_reachable daemon_initial" by (simp add: daemon_reachable_def)
  then show ?case by (intro exI [of _ daemon_initial]) (simp add: daemon_initial_def)
next
  case (Suc n)
  then obtain s where s: "daemon_reachable s" "watchdogs s = n" "main_at s = Loop_Head" "g_keep_running s" by blast
  let ?s1 = "s\<lparr>main_at := Server_Start, watchdogs := Suc (watchdogs s)\<rparr>"
  have "daemon_step s ?s1" using s by (intro daemon_step.arm)
  moreover have "daemon_step ?s1 (?s1\<lparr>main_at := Loop_Head\<rparr>)"
    using daemon_step.no_socket [of ?s1] by (simp add: goes_to_def)
  ultimately have "daemon_reachable (?s1\<lparr>main_at := Loop_Head\<rparr>)"
    using s(1) unfolding daemon_reachable_def by (meson rtranclp.rtrancl_into_rtrancl)
  with s show ?case by (intro exI [of _ "?s1\<lparr>main_at := Loop_Head\<rparr>"]) simp
qed

text \<open>
  Whatever the command line and the environment, a daemon that starts has its socket path and its
  thermal configuration within the buffers they are copied to.
\<close>

lemma startup_fits_buffers:
  assumes "daemon_startup environ argv = Run a"
  shows "fits_buffers (thermal_config a) \<and> length (socket_path a) < 108"
  using assms parse_args_fit unfolding daemon_startup_def
  by (auto simp: msp_thermal_reader_default_config_def fits_buffers_def)

lemma startup_fits_buffers_example:
  "\<exists>a. daemon_startup None [''--zone-type'', replicate 100 CHR ''x'', ''--aggregate'', ''mean''] = Run a \<and>
    fits_buffers (thermal_config a) \<and> length (zone_type_filter (thermal_config a)) = 63"
proof -
  obtain a where a: "daemon_startup None [''--zone-type'', replicate 100 CHR ''x'', ''--aggregate'', ''mean''] = Run a"
    "zone_type_filter (thermal_config a) = take 63 (replicate 100 CHR ''x'')"
    by (simp add: daemon_startup_def)
  with startup_fits_buffers [OF a(1)] show ?thesis by simp
qed

end
