(* ===== verification/Integrity.thy ===== *)
theory Integrity
  imports "HOL-Library.Word"
begin

unbundle bit_operations_syntax

text \<open>
  \<^verbatim>\<open>src/daemon/integrity_check.c\<close>: the hash check of adapter data. OpenSSL's digest is a parameter,
  a function from the hashed bytes to the digest, or to None when one of the EVP calls fails; the
  signature functions only pass their arguments on to OpenSSL and are left out.
\<close>

section \<open>The check\<close>

type_synonym bytes = "8 word list"

definition digest_len :: nat where
  "digest_len = 32"

text \<open>A data argument is None for a null pointer, otherwise the memory from it on.\<close>

definition msp_sha256 :: "(bytes \<Rightarrow> bytes option) \<Rightarrow> bytes option \<Rightarrow> nat \<Rightarrow> bytes option" where
  "msp_sha256 evp data len =
     (if data = None \<and> len \<noteq> 0 then None
      else case evp (case data of None \<Rightarrow> [] | Some bs \<Rightarrow> take len bs) of
        None \<Rightarrow> None
      | Some digest \<Rightarrow> if length digest = digest_len then Some digest else None)"

text \<open>The loop reads all the bytes, wherever the first difference is.\<close>

definition msp_digest_equal :: "bytes \<Rightarrow> bytes \<Rightarrow> bool" where
  "msp_digest_equal a b \<longleftrightarrow> foldl (\<lambda>diff i. diff OR (a ! i XOR b ! i)) 0 [0..<digest_len] = 0"

definition msp_verify_integrity :: "(bytes \<Rightarrow> bytes option) \<Rightarrow> bytes option \<Rightarrow> nat \<Rightarrow> bytes \<Rightarrow> bool" where
  "msp_verify_integrity evp data len expected =
     (case msp_sha256 evp data len of
        None \<Rightarrow> False
      | Some actual \<Rightarrow> msp_digest_equal actual expected)"

section \<open>The comparison\<close>

lemma xor_zero_iff: "(x :: 8 word) XOR y = 0 \<longleftrightarrow> x = y"
  by (auto simp: bit_eq_iff bit_simps)

lemma accumulated_difference:
  "foldl (\<lambda>diff i. diff OR (a ! i XOR b ! i)) d is = 0 \<longleftrightarrow> d = 0 \<and> (\<forall>i \<in> set is. a ! i = (b ! i :: 8 word))"
  by (induction "is" arbitrary: d) (auto simp: or_eq_0_iff xor_zero_iff)

lemma digest_equal_iff:
  assumes "length a = digest_len" and "length b = digest_len"
  shows "msp_digest_equal a b \<longleftrightarrow> a = b"
  using assms by (auto simp: msp_digest_equal_def accumulated_difference list_eq_iff_nth_eq)

section \<open>Properties\<close>

text \<open>
  C33. Data pass the integrity check exactly when hashing them succeeds and gives the expected
  digest: the comparison without early exit distinguishes any two digests, and neither a null
  pointer nor a failure inside the library is ever taken for a match.
\<close>

theorem integrity_check_exact:
  assumes "length expected = digest_len"
  shows "msp_verify_integrity evp data len expected \<longleftrightarrow>
    (data = None \<longrightarrow> len = 0) \<and> evp (take len (case data of None \<Rightarrow> [] | Some bs \<Rightarrow> bs)) = Some expected"
  using assms
  by (auto simp: msp_verify_integrity_def msp_sha256_def digest_equal_iff split: option.splits)

theorem integrity_check_exact_witness:
  "\<not> msp_verify_integrity (\<lambda>bs. Some (take 32 (bs @ replicate 32 0))) (Some [1, 2, 3]) 2 (1 # 3 # replicate 30 0)"
proof -
  have "length (1 # 3 # replicate 30 (0 :: 8 word)) = digest_len" by (simp add: digest_len_def)
  from integrity_check_exact [OF this] show ?thesis by simp
qed

end
