(* ===== verification/BackwardKernel.thy ===== *)
theory BackwardKernel
  imports PluginLayer
begin

text \<open>
  \<^verbatim>\<open>src/cuda/fused_msp_backward_kernel.cu\<close>: the kernel for the gradient of \<^verbatim>\<open>matrix_A\<close> with the thermal
  gate inside, as a set of threads that run in any order, and its comparison with the mask of
  \<^verbatim>\<open>gate_gradients\<close>. The multiply-add of the device is a parameter (the compiler may fuse it); indices
  are natural numbers, which the \<^verbatim>\<open>int\<close> of the kernel are for buffers below 2^31 elements.
\<close>

section \<open>One thread\<close>

record launch =
  batch_size :: nat
  in_features :: nat
  rank_rows :: nat
  current_temp_c :: pyfloat
  critical_temp_c :: pyfloat
  freeze_stride :: int

text \<open>\<^verbatim>\<open>acc += grad_u[b * rank + row] * x[b * in_features + col]\<close>, over the batch in order.\<close>

definition accumulate ::
  "(pyfloat \<Rightarrow> pyfloat \<Rightarrow> pyfloat \<Rightarrow> pyfloat) \<Rightarrow> launch \<Rightarrow> pyfloat list \<Rightarrow> pyfloat list \<Rightarrow> nat \<Rightarrow> nat \<Rightarrow> pyfloat" where
  "accumulate mul_add p x grad_u row col =
     foldl (\<lambda>acc b. mul_add acc (grad_u ! (b * rank_rows p + row)) (x ! (b * in_features p + col)))
       (Fin 0) [0..<batch_size p]"

definition row_frozen :: "launch \<Rightarrow> nat \<Rightarrow> bool" where
  "row_frozen p row \<longleftrightarrow>
     fgt (current_temp_c p) (critical_temp_c p) \<and> (freeze_stride p \<le> 0 \<or> int row mod freeze_stride p \<noteq> 0)"

text \<open>A thread is its row (\<^verbatim>\<open>blockIdx.y\<close>) and its column (\<^verbatim>\<open>blockIdx.x * blockDim.x + threadIdx.x\<close>).\<close>

definition kernel_thread ::
  "(pyfloat \<Rightarrow> pyfloat \<Rightarrow> pyfloat \<Rightarrow> pyfloat) \<Rightarrow> launch \<Rightarrow> pyfloat list \<Rightarrow> pyfloat list \<Rightarrow>
     nat \<times> nat \<Rightarrow> pyfloat list \<Rightarrow> pyfloat list" where
  "kernel_thread mul_add p x grad_u thread grad_A =
     (case thread of (row, col) \<Rightarrow>
        if rank_rows p \<le> row \<or> in_features p \<le> col then grad_A
        else if row_frozen p row then grad_A
        else grad_A[row * in_features p + col := accumulate mul_add p x grad_u row col])"

section \<open>The launch\<close>

definition threads_per_block :: nat where
  "threads_per_block = 256"

definition grid_threads :: "launch \<Rightarrow> (nat \<times> nat) list" where
  "grid_threads p =
     [(row, block * threads_per_block + thread).
        row \<leftarrow> [0..<rank_rows p],
        block \<leftarrow> [0..<(in_features p + threads_per_block - 1) div threads_per_block],
        thread \<leftarrow> [0..<threads_per_block]]"

text \<open>The threads write in the given order, one after the other.\<close>

definition run_threads ::
  "(pyfloat \<Rightarrow> pyfloat \<Rightarrow> pyfloat \<Rightarrow> pyfloat) \<Rightarrow> launch \<Rightarrow> pyfloat list \<Rightarrow> pyfloat list \<Rightarrow>
     (nat \<times> nat) list \<Rightarrow> pyfloat list \<Rightarrow> pyfloat list" where
  "run_threads mul_add p x grad_u order grad_A = fold (kernel_thread mul_add p x grad_u) order grad_A"

definition rows_of :: "launch \<Rightarrow> pyfloat list \<Rightarrow> gradient" where
  "rows_of p buf = map (\<lambda>row. take (in_features p) (drop (row * in_features p) buf)) [0..<rank_rows p]"

text \<open>The gradient without any gate.\<close>

definition full_gradient ::
  "(pyfloat \<Rightarrow> pyfloat \<Rightarrow> pyfloat \<Rightarrow> pyfloat) \<Rightarrow> launch \<Rightarrow> pyfloat list \<Rightarrow> pyfloat list \<Rightarrow> gradient" where
  "full_gradient mul_add p x grad_u =
     map (\<lambda>row. map (accumulate mul_add p x grad_u row) [0..<in_features p]) [0..<rank_rows p]"

section \<open>What the threads write\<close>

lemma grid_threads_iff:
  "(r, c) \<in> set (grid_threads p) \<longleftrightarrow>
     r < rank_rows p \<and> (\<exists>block t. block < (in_features p + 255) div 256 \<and> t < 256 \<and> c = block * 256 + t)"
proof -
  have "set (grid_threads p) = (\<Union>row \<in> {0..<rank_rows p}. \<Union>block \<in> {0..<(in_features p + 255) div 256}.
      (\<lambda>t. (row, block * 256 + t)) ` {0..<256})"
    by (simp add: grid_threads_def threads_per_block_def add.commute)
  then show ?thesis by (simp only: UN_iff image_iff atLeastLessThan_iff Bex_def le0 prod.inject) blast
qed

lemma grid_covers:
  assumes "row < rank_rows p" and "col < in_features p"
  shows "(row, col) \<in> set (grid_threads p)"
proof -
  have "(col + 256) div 256 \<le> (in_features p + 255) div 256"
    using assms(2) by (intro div_le_mono) simp
  then have "col div 256 < (in_features p + 255) div 256" by simp
  moreover have "col mod 256 < 256" and "col = col div 256 * 256 + col mod 256" by simp_all
  ultimately show ?thesis unfolding grid_threads_iff using assms(1) by blast
qed

lemma cell_index_inj:
  assumes "c < n" and "col < n" and "r * n + c = row * n + col"
  shows "r = row \<and> c = (col::nat)"
proof -
  have "(r * n + c) div n = (row * n + col) div n" "(r * n + c) mod n = (row * n + col) mod n"
    using assms(3) by simp_all
  with assms(1,2) show ?thesis by simp
qed

lemma cell_index_bound: "row < r \<Longrightarrow> col < n \<Longrightarrow> row * n + col < r * (n::nat)"
proof -
  assume "row < r" "col < n"
  then have "row * n + col < Suc row * n" by simp
  also have "\<dots> \<le> r * n" using \<open>row < r\<close> by (intro mult_right_mono) simp_all
  finally show ?thesis .
qed

lemma run_threads_length [simp]: "length (run_threads mul_add p x grad_u order buf) = length buf"
  by (induction order arbitrary: buf) (auto simp: run_threads_def kernel_thread_def split: prod.split)

lemma run_threads_cell:
  assumes "row < rank_rows p" and "col < in_features p" and "length buf = rank_rows p * in_features p"
  shows "run_threads mul_add p x grad_u order buf ! (row * in_features p + col) =
    (if \<not> row_frozen p row \<and> (row, col) \<in> set order then accumulate mul_add p x grad_u row col
     else buf ! (row * in_features p + col))"
  using assms(3)
proof (induction order arbitrary: buf)
  case Nil
  then show ?case by (simp add: run_threads_def)
next
  case (Cons t order)
  obtain r c where t: "t = (r, c)" by fastforce
  let ?buf = "kernel_thread mul_add p x grad_u t buf"
  have len: "length ?buf = rank_rows p * in_features p" using Cons.prems by (simp add: kernel_thread_def t)
  have "run_threads mul_add p x grad_u (t # order) buf = run_threads mul_add p x grad_u order ?buf"
    by (simp add: run_threads_def)
  moreover have "?buf ! (row * in_features p + col) =
      (if \<not> row_frozen p row \<and> (row, col) = t then accumulate mul_add p x grad_u row col
       else buf ! (row * in_features p + col))"
  proof (cases "(row, col) = t")
    case True
    then show ?thesis
      using cell_index_bound [OF assms(1,2)] assms(1,2) Cons.prems by (auto simp: kernel_thread_def t)
  next
    case False
    have "r * in_features p + c \<noteq> row * in_features p + col" if "c < in_features p"
      using False cell_index_inj [OF that assms(2), of r row] by (auto simp: t)
    with False show ?thesis by (auto simp: kernel_thread_def t)
  qed
  ultimately show ?case using Cons.IH [OF len] len Cons.prems by auto
qed

lemma rows_of_run:
  assumes "set order = set (grid_threads p)" and "length buf = rank_rows p * in_features p"
  shows "rows_of p (run_threads mul_add p x grad_u order buf) =
    map (\<lambda>row. if row_frozen p row then rows_of p buf ! row else full_gradient mul_add p x grad_u ! row)
      [0..<rank_rows p]"
proof (rule nth_equalityI)
  fix row
  assume "row < length (rows_of p (run_threads mul_add p x grad_u order buf))"
  then have row: "row < rank_rows p" by (simp add: rows_of_def)
  let ?out = "run_threads mul_add p x grad_u order buf"
  have fits: "row * in_features p + in_features p \<le> rank_rows p * in_features p"
    using row mult_le_mono1 [of "Suc row" "rank_rows p" "in_features p"] by simp
  then have "row * in_features p \<le> rank_rows p * in_features p" by linarith
  with fits have "take (in_features p) (drop (row * in_features p) ?out) =
      (if row_frozen p row then take (in_features p) (drop (row * in_features p) buf)
       else map (accumulate mul_add p x grad_u row) [0..<in_features p])"
    using run_threads_cell [OF row _ assms(2), of _ mul_add x grad_u order] grid_covers [OF row] assms
    by (auto intro!: nth_equalityI)
  then show "rows_of p ?out ! row = map (\<lambda>row. if row_frozen p row then rows_of p buf ! row
      else full_gradient mul_add p x grad_u ! row) [0..<rank_rows p] ! row"
    using row by (simp add: rows_of_def full_gradient_def)
qed (simp add: rows_of_def)

lemma zeroed_row: "row < rank_rows p \<Longrightarrow>
    rows_of p (replicate (rank_rows p * in_features p) (Fin 0)) ! row = replicate (in_features p) (Fin 0)"
proof -
  assume row: "row < rank_rows p"
  then have "row * in_features p + in_features p \<le> rank_rows p * in_features p"
    using mult_le_mono1 [of "Suc row" "rank_rows p" "in_features p"] by simp
  with row show ?thesis by (fastforce simp: rows_of_def min_def)
qed

text \<open>The mask of the hook, row by row: what the kernel leaves in a zeroed buffer.\<close>

lemma masked_rows:
  fixes mul_add p x grad_u
  defines "g \<equiv> full_gradient mul_add p x grad_u"
    and "zero \<equiv> replicate (rank_rows p * in_features p) (Fin 0)"
  assumes "0 < freeze_stride p" and "\<forall>row \<in> set g. \<forall>v \<in> set row. float_ok v \<and> finite_float v"
  shows "(if fgt (current_temp_c p) (critical_temp_c p)
      then map2 mask_row (gate_mask (freeze_stride p) (rank_rows p)) g else g) =
    map (\<lambda>row. if row_frozen p row then rows_of p zero ! row else g ! row) [0..<rank_rows p]"
proof (rule nth_equalityI)
  let ?masked = "if fgt (current_temp_c p) (critical_temp_c p)
    then map2 mask_row (gate_mask (freeze_stride p) (rank_rows p)) g else g"
  have len: "length g = rank_rows p" by (simp add: g_def full_gradient_def)
  then show "length ?masked =
      length (map (\<lambda>row. if row_frozen p row then rows_of p zero ! row else g ! row) [0..<rank_rows p])"
    by simp
  fix i assume "i < length ?masked"
  then have i: "i < rank_rows p" by (simp add: len split: if_splits)
  then have "g ! i \<in> set g" by (simp add: len)
  then have ok: "\<forall>v \<in> set (g ! i). float_ok v \<and> finite_float v" using assms(4) by blast
  then have keep: "mask_row True (g ! i) = g ! i" by (intro mask_row_True) blast
  have "mask_row False (g ! i) = map (\<lambda>_. Fin 0) (g ! i)" using ok by (simp add: mask_row_False)
  also have "\<dots> = replicate (length (g ! i)) (Fin 0)" by (rule map_replicate_const)
  finally have clear: "mask_row False (g ! i) = rows_of p zero ! i"
    using i by (simp add: zero_def zeroed_row) (simp add: g_def full_gradient_def)
  have "?masked ! i = (if row_frozen p i then rows_of p zero ! i else g ! i)"
    using i len keep clear assms(3)
    by (cases "freeze_stride p dvd int i") (auto simp: row_frozen_def nth_gate_mask dvd_eq_mod_eq_0)
  then show "?masked ! i =
      map (\<lambda>row. if row_frozen p row then rows_of p zero ! row else g ! row) [0..<rank_rows p] ! i"
    using i by simp
qed

section \<open>Properties\<close>

text \<open>
  C24. In whatever order the threads of a launch run, the kernel leaves in a zeroed buffer exactly the
  gradient that the hook of \<^verbatim>\<open>gate_gradients\<close> makes of the ungated one under the same decision of the
  monitor, if that gradient is finite: computing only the active rows and masking all of them are
  the same.
\<close>

theorem kernel_agrees_with_hook:
  assumes "is_throttling clock m None s = (Inr (fgt (current_temp_c p) (critical_temp_c p)), s')"
    and "0 < freeze_stride p" and "set order = set (grid_threads p)"
    and "\<forall>row \<in> set (full_gradient mul_add p x grad_u). \<forall>v \<in> set row. float_ok v \<and> finite_float v"
  shows "run_hook clock (Gate (freeze_stride p) (rank_rows p) m) (full_gradient mul_add p x grad_u) s =
    (Inr (rows_of p (run_threads mul_add p x grad_u order (replicate (rank_rows p * in_features p) (Fin 0)))), s')"
proof -
  have "length (full_gradient mul_add p x grad_u) = rank_rows p" by (simp add: full_gradient_def)
  then show ?thesis
    using assms(1) masked_rows [OF assms(2,4)] rows_of_run [OF assms(3)]
    by (auto simp: sbind_def sret_def)
qed

definition example_launch :: launch where
  "example_launch =
     \<lparr>batch_size = 2, in_features = 1, rank_rows = 2, current_temp_c = Fin 80, critical_temp_c = Fin 75,
      freeze_stride = 2\<rparr>"

lemma example_gradient:
  "full_gradient (\<lambda>acc g x. fadd acc (fmul g x)) example_launch [Fin 3, Fin 4] [Fin 1, Fin 2, Fin 5, Fin 6] =
     [[Fin 23], [Fin 30]]"
proof -
  have int: "to_float (of_int n) = Fin (of_int n)" if "\<bar>n\<bar> \<le> 2 ^ 53" for n
    using float_of_int_exact [OF that] by (auto simp: float_of_int_def split: pyfloat.splits)
  have f: "to_float 3 = Fin 3" "to_float 20 = Fin 20" "to_float 23 = Fin 23"
    "to_float 6 = Fin 6" "to_float 24 = Fin 24" "to_float 30 = Fin 30"
    using int [of 3] int [of 20] int [of 23] int [of 6] int [of 24] int [of 30] by simp_all
  show ?thesis
    by (simp add: full_gradient_def accumulate_def example_launch_def upt_rec f)
qed

theorem kernel_agrees_with_hook_witness:
  "rows_of example_launch (run_threads (\<lambda>acc g x. fadd acc (fmul g x)) example_launch [Fin 3, Fin 4]
     [Fin 1, Fin 2, Fin 5, Fin 6] (rev (grid_threads example_launch)) [Fin 0, Fin 0]) = [[Fin 23], [Fin 0]]"
proof -
  let ?f = "\<lambda>acc g x. fadd acc (fmul g x)"
  have fields: "freeze_stride example_launch = 2" "rank_rows example_launch = 2" "in_features example_launch = 1"
    and hot: "fgt (current_temp_c example_launch) (critical_temp_c example_launch)"
    by (simp_all add: example_launch_def)
  have ok: "float_ok (Fin (of_int n))" if "\<bar>n\<bar> \<le> 2 ^ 53" for n
    using float_of_int_Inr [OF float_of_int_exact [OF that]] by simp
  have "\<forall>row \<in> set [[Fin 23], [Fin 30]]. \<forall>v \<in> set row. float_ok v \<and> finite_float v"
    using ok [of 23] ok [of 30] by simp
  then have "run_hook (\<lambda>r. (Fin 0, r)) (Gate 2 2 example_monitor) [[Fin 23], [Fin 30]] example_hot =
      (Inr (rows_of example_launch (run_threads ?f example_launch [Fin 3, Fin 4] [Fin 1, Fin 2, Fin 5, Fin 6]
        (rev (grid_threads example_launch)) (replicate 2 (Fin 0)))), \<lparr>script = [Fin 80], script_idx = 1\<rparr>)"
    using kernel_agrees_with_hook [of "\<lambda>r. (Fin 0, r)" example_monitor example_hot example_launch
        "\<lparr>script = [Fin 80], script_idx = 1\<rparr>" "rev (grid_threads example_launch)" ?f "[Fin 3, Fin 4]"
        "[Fin 1, Fin 2, Fin 5, Fin 6]"]
    by (simp add: fields hot example_is_hot example_gradient)
  moreover have "gate_mask 2 2 = [True, False]" by (simp add: gate_mask_def upt_rec)
  then have "run_hook (\<lambda>r. (Fin 0, r)) (Gate 2 2 example_monitor) [[Fin 23], [Fin 30]] example_hot =
      (Inr [[Fin 23], [Fin 0]], \<lparr>script = [Fin 80], script_idx = 1\<rparr>)"
    using ok [of 23] example_is_hot
    by (simp add: sbind_def sret_def mask_row_True mask_row_False)
  ultimately show ?thesis by (simp add: numeral_2_eq_2)
qed

end
