(* ===== verification/Spec2Isabelle.thy ===== *)
theory Spec2Isabelle
  imports Registry EndToEnd Watchdogd Integrity BackwardKernel
begin

text \<open>
  Verification library of the Modular Structural Plugins package (\<^verbatim>\<open>src/src/python/msp\<close>) and of its
  end-to-end program (\<^verbatim>\<open>src/examples/e2e_training.py\<close>), and of the native code beside it: the
  allocator in C++, the watchdog daemon in C and the gradient kernel in CUDA.

  \<^bold>\<open>The program.\<close> An adapter is a set of low-rank layers (\<^verbatim>\<open>StructuralPluginLayer\<close>) over frozen linear
  layers. \<^verbatim>\<open>AdapterManager\<close> keeps several adapters resident under a byte budget and mirrors their
  bytes in a native allocator that binds blocks to their owner (\<^verbatim>\<open>EloraAllocator\<close>). \<^verbatim>\<open>ThermalMonitor\<close>
  decides from a temperature reader whether the gradient hooks of a layer mask rows out.
  \<^verbatim>\<open>persistence.py\<close> saves an adapter to one safetensors file and rebuilds it over given base layers.
  \<^verbatim>\<open>WatchdogGuardedExecutor\<close> runs a function in a child process and kills it when telemetry violates
  a policy or cannot be read. The program of the example wires all of them together but the
  executor, which reads the daemon's telemetry through \<^verbatim>\<open>WatchdogTelemetryReader\<close>. The daemon,
  \<^verbatim>\<open>watchdogd\<close>, reads the thermal zones a second time, serves them on a socket and signals itself
  out of the server when they are critical. The kernel computes the gradient of one matrix with
  the thermal gate inside.

  \<^bold>\<open>The theories\<close>, in the order in which they build on each other:
  \<^item> \<open>Prelude\<close>: Python exceptions as values, programs over a state with their errors
    (\<open>sbind\<close>, \<open>sret\<close>, \<open>sraise\<close>, \<open>sfor\<close>; an exception keeps what was written before it), and dictionaries in
    insertion order with the locale \<open>ordered_dict\<close>, interpreted on association lists.
  \<^item> \<open>Floats\<close>: binary64 arithmetic on exact rationals with rounding to nearest even; \<open>PyText\<close>: string
    methods, \<^verbatim>\<open>int(s)\<close> and \<^verbatim>\<open>float(s)\<close>; \<open>Json\<close>: \<^verbatim>\<open>json.dumps\<close> and \<^verbatim>\<open>json.loads\<close> with their round trip.
  \<^item> \<open>Thermal\<close> (\<^verbatim>\<open>thermal.py\<close>, monitor and scripted reader; locales \<open>temperature_source\<close> and
    \<open>scheduled_source\<close>, interpreted on the scripted and the default reader); \<open>ThermalZones\<close> (zone
    discovery and \<^verbatim>\<open>LinuxThermalZoneReader\<close>); \<open>Telemetry\<close> (\<^verbatim>\<open>WatchdogTelemetryReader\<close> against the line of
    \<^verbatim>\<open>telemetry_server.c\<close>; locale \<open>byte_stream\<close>, interpreted on a connection to the daemon).
  \<^item> \<open>PluginLayer\<close> (\<^verbatim>\<open>plugin_layer.py\<close>): construction, forward pass, gradient gating, byte count.
  \<^item> \<open>Elora\<close> (\<^verbatim>\<open>elora_allocator.cpp\<close> and \<^verbatim>\<open>bindings.cpp\<close>; locale \<open>block_allocator\<close>, interpreted on the
    allocator) and \<open>AdapterManager\<close> (\<^verbatim>\<open>adapter_manager.py\<close>): a session is the manager, the store of
    shared layers and the host heap. \<open>Registry\<close> states what the manager promises to a client without
    layers and blocks, a registry of adapter sizes, and relates the two (locale \<open>simulation\<close>,
    interpreted as \<open>mgr\<close> on sessions).
  \<^item> \<open>WatchdogControl\<close> (\<^verbatim>\<open>watchdog_control.py\<close>): policy, probes, child, polling loop and result. The
    schedule, an arbitrary choice of the child's moves before each library call of the parent,
    stands for all timings. \<open>Supervision\<close> runs the executor against the daemon: each connection
    brings one sample, which the probe reads, the policy judges and the loop acts on.
  \<^item> \<open>Persistence\<close> (\<^verbatim>\<open>persistence.py\<close>).
  \<^item> The daemon, \<^verbatim>\<open>src/daemon\<close>: \<open>Single\<close> (rounding to binary32), \<open>ThermalReader\<close> (\<^verbatim>\<open>thermal_reader.c\<close>, over a
    tree of file contents, and its comparison with the Python reader), \<open>Daemon\<close> (the polling loop and
    the fallback signal of \<^verbatim>\<open>sandbox_watchdog.c\<close>), \<open>Watchdogd\<close> (\<^verbatim>\<open>telemetry_server.c\<close> with the locale \<open>byte_sink\<close>, interpreted on a
    connected client, and \<^verbatim>\<open>watchdogd_main.c\<close>, whose main loop is the step relation \<open>daemon_step\<close> over
    the phases of the main thread and the descriptors it holds, into the thermal reader it calls),
    \<open>Integrity\<close> (\<^verbatim>\<open>integrity_check.c\<close>, the digest check).
  \<^item> \<open>BackwardKernel\<close> (\<^verbatim>\<open>fused_msp_backward_kernel.cu\<close>): the threads of a launch in any order.
  \<^item> \<^verbatim>\<open>e2e_training.py\<close>: \<open>Transformer\<close> (the frozen base, its blocks and their forward pass, attaching and
    plugging in), \<open>Shapes\<close> (typing of layers, blocks and models), \<open>Training\<close> (the loop with its
    gates, and the phases of \<^verbatim>\<open>main\<close>), \<open>Progress\<close> (the loop returns) and \<open>EndToEnd\<close> (\<^verbatim>\<open>main\<close> goes through).
    What the constructors draw for initial matrices comes from the state of the random generator
    (\<open>rng\<close>), which every constructor passes on, so that no two layers need be equal. A backward pass is a
    function of the whole computation (record \<open>graph\<close>: layers, embedding, blocks, head, tokens, targets).

  \<^bold>\<open>What the lemmas show.\<close> Invariants: every reachable session keeps the budget, the active adapter
  resident and the native side in step with the registry; an allocator never leaks or frees
  twice. Failure: a load that raises leaves no trace, loading a file is never partial, a
  refused save writes nothing, no child survives a run, a training call leaves no gate behind
  once its optimizer exists. Round trips: save and load, load and unload, arm and disarm, the telemetry line.
  Refinement: the manager with its layers, blocks and native ids allows only what the registry
  of sizes allows. Type safety: a model whose layers fit together never raises, and training
  keeps it so. Termination: the guarded run, the training call, the receive loop, the JSON
  parser. Composition: swapping adapters back restores the function of the model, closed gates
  give the base, and the end-to-end run goes through and ends with the reloaded adapter alone in
  service, computing what it computed after its training. Second implementations: on a tree as
  the kernel writes it, the C reader is the Python reader in single precision, for the maximum of
  the zones and, in directories listed by name, for their mean. With the maximum, and readings
  below 16384 degrees, the temperature that Python reads through the daemon is bit for bit the one
  it reads itself, and the daemon and the default policy find the same violations; the mean of the
  zones can hide one of them (\<open>mean_hides_critical_zone\<close>) and reaches Python rounded. The CUDA
  kernel computes what the gradient hook leaves. These rest on the behaviour of single
  library operations only.

  \<^bold>\<open>Loops and fuel.\<close> The polling, receive and write loops are \<open>partial_function (option)\<close>, where None is a
  loop that goes on for ever; theorems that they return are proved as such. The JSON parser
  recurses with fuel twice the length of the text; the round trip of \<open>Json\<close> shows that printed
  values are parsed within it. Every other recursion is structural or terminates by a measure.

  \<^bold>\<open>Parameters.\<close> Code that is not in the repository is an argument of the definitions: PyTorch
  (\<open>torch_ops\<close>, \<open>block_ops\<close>, \<open>train_ops\<close>), the multiply-add of the GPU, OpenSSL's digest, safetensors and the file system (\<open>file_ops\<close>, \<open>fs_ops\<close>), sockets, the
  clock, \<^verbatim>\<open>malloc\<close>, \<^verbatim>\<open>pickle\<close> and \<^verbatim>\<open>float.__repr__\<close>. What a property relies on is a named condition
  (\<open>malloc_ok\<close>, \<open>torch_laws\<close>, \<open>tensor_laws\<close>, \<open>training_laws\<close>, \<open>safetensors_format\<close>, \<open>copy_same\<close>,
  \<open>float_repr_ok\<close>, \<open>library_behaves\<close>), each instantiated by concrete functions in a witness: matrices
  of rationals for the values, and for type safety tensors that consist of a type, a shape and a
  number that stands for their elements, which the generator draws and the optimizer changes.

  \<^bold>\<open>Not modelled.\<close> The tensor arithmetic that PyTorch does (products, norms, activation,
  autograd, Adam) and CUDA streams beyond their branch; in the native code, \<^verbatim>\<open>int\<close>
  indices beyond 2^31, the error codes of the CUDA runtime and the Ed25519 functions, which only call
  OpenSSL; console output and exception messages; code points above 255; threads
  (\<^verbatim>\<open>forward_async\<close> is awaited at once) and a queue message torn by a kill in the
  middle of its write; the descriptors that a watchdog thread of the daemon opens for its own
  samples; the re-exports of \<^verbatim>\<open>__init__.py\<close>.
\<close>

end
